(* ===== verification/Prelude.thy ===== *)
theory Prelude
  imports Main "HOL-Library.AList" "HOL-Library.Multiset"
begin

text \<open>
  What every component shares: Go's errors as a datatype, results as a sum type
  (\<open>Inl\<close> the error, \<open>Inr\<close> the value), Go maps as association lists with distinct
  keys, and the generic lemmas on them.

  A Go map iterates in an unspecified order. An association list is a map together with
  one iteration order, so a theorem that holds for every list with distinct keys holds for
  every order in which the program may visit the map.
\<close>

section \<open>Collections of facts\<close>

named_theorems go_map \<open>lookup after an update of a Go map\<close>
named_theorems go_inv \<open>well-formedness preserved by an operation\<close>

section \<open>Errors\<close>

text \<open>
  The reasons of an API server status error (\<open>metav1.StatusReason\<close>) the sources test for.
\<close>

datatype api_reason =
    RNotFound | RAlreadyExists | RForbidden | RInvalid | RConflict | RInternalError | ROther nat

text \<open>One entry of a \<open>field.ErrorList\<close>.\<close>

record field_error =
  fe_path :: "string list"
  fe_value :: string
  fe_detail :: string

text \<open>
  The errors the sources create or pass on. \<open>EApi\<close> is a status error of the API
  machinery (\<open>EInvalid\<close> and \<open>EInternal\<close> those of \<open>apierrors.NewInvalid\<close> and
  \<open>NewInternalError\<close>), \<open>EMsg\<close> an error made of a text, \<open>EWrap\<close> is \<open>fmt.Errorf\<close> with
  \<open>%w\<close>. \<open>EPanic\<close> is a run-time panic (nil dereference, index out of range, an
  explicit \<open>panic\<close>): it is a result of its own, never a value the code can test for.
\<close>

datatype gerr =
    EApi api_reason string
  | EMsg string
  | EWrap string gerr
  | EAlreadyDefined string
  | EFieldErrs "field_error list"
  | EInvalid string "field_error list"
  | EInternal gerr
  | EMulti "gerr list"
  | EEOF
  | EPanic string

text \<open>\<open>errors.As\<close> and \<open>errors.Is\<close> follow \<open>%w\<close> wrappers.\<close>

fun err_reason :: "gerr \<Rightarrow> api_reason option" where
  "err_reason (EApi r _) = Some r"
| "err_reason (EInvalid _ _) = Some RInvalid"
| "err_reason (EInternal _) = Some RInternalError"
| "err_reason (EWrap _ e) = err_reason e"
| "err_reason _ = None"

definition is_not_found :: "gerr \<Rightarrow> bool" where
  "is_not_found e \<longleftrightarrow> err_reason e = Some RNotFound"

fun is_already_defined :: "gerr \<Rightarrow> bool" where
  "is_already_defined (EAlreadyDefined _) = True"
| "is_already_defined (EWrap _ e) = is_already_defined e"
| "is_already_defined _ = False"

fun is_panic :: "gerr \<Rightarrow> bool" where
  "is_panic (EPanic _) = True"
| "is_panic _ = False"

text \<open>\<open>client.IgnoreNotFound\<close>: nil for a not-found error, the error itself otherwise.\<close>

definition ignore_not_found :: "gerr \<Rightarrow> gerr option" where
  "ignore_not_found e = (if is_not_found e then None else Some e)"

section \<open>Association lists as Go maps\<close>

type_synonym ('k, 'v) gomap = "('k \<times> 'v) list"

abbreviation mget :: "('k, 'v) gomap \<Rightarrow> 'k \<Rightarrow> 'v option" where
  "mget m k \<equiv> map_of m k"

abbreviation mset_key :: "'k \<Rightarrow> 'v \<Rightarrow> ('k, 'v) gomap \<Rightarrow> ('k, 'v) gomap" where
  "mset_key k v m \<equiv> AList.update k v m"

abbreviation mdel :: "'k \<Rightarrow> ('k, 'v) gomap \<Rightarrow> ('k, 'v) gomap" where
  "mdel k m \<equiv> AList.delete k m"

definition mkeys :: "('k, 'v) gomap \<Rightarrow> 'k set" where
  "mkeys m = fst ` set m"

definition gomap_ok :: "('k, 'v) gomap \<Rightarrow> bool" where
  "gomap_ok m \<longleftrightarrow> distinct (map fst m)"

lemma mget_update [go_map]: "mget (mset_key k v m) = (mget m)(k \<mapsto> v)"
  by (rule update_conv')

lemma mget_delete [go_map]: "mget (mdel k m) = (mget m)(k := None)"
  by (rule delete_conv')

lemma gomap_ok_Nil [simp, go_inv]: "gomap_ok []"
  by (simp add: gomap_ok_def)

lemma gomap_ok_update [simp, go_inv]: "gomap_ok m \<Longrightarrow> gomap_ok (mset_key k v m)"
  by (simp add: gomap_ok_def distinct_update)

lemma gomap_ok_delete [simp, go_inv]: "gomap_ok m \<Longrightarrow> gomap_ok (mdel k m)"
  by (simp add: gomap_ok_def distinct_delete)

lemma gomap_ok_Cons [simp]: "gomap_ok ((k, v) # m) \<longleftrightarrow> k \<notin> mkeys m \<and> gomap_ok m"
  by (auto simp: gomap_ok_def mkeys_def)

lemma gomap_ok_filter [simp]: "gomap_ok m \<Longrightarrow> gomap_ok (filter P m)"
  by (induction m) (auto simp: mkeys_def)

lemma mkeys_Nil [simp]: "mkeys [] = {}"
  by (simp add: mkeys_def)

lemma mkeys_Cons [simp]: "mkeys ((k, v) # m) = insert k (mkeys m)"
  by (simp add: mkeys_def)

lemma mkeys_update [simp, go_map]: "mkeys (mset_key k v m) = insert k (mkeys m)"
  by (simp add: mkeys_def dom_update)

lemma mkeys_delete [simp, go_map]: "mkeys (mdel k m) = mkeys m - {k}"
  by (auto simp: mkeys_def AList.delete_eq)

lemma mget_None_iff: "mget m k = None \<longleftrightarrow> k \<notin> mkeys m"
  by (simp add: mkeys_def map_of_eq_None_iff)

lemma mget_Some_key: "mget m k = Some v \<Longrightarrow> k \<in> mkeys m"
  by (metis mget_None_iff option.distinct(1))

lemma mget_in_set: "mget m k = Some v \<Longrightarrow> (k, v) \<in> set m"
  by (rule map_of_SomeD)

lemma in_set_mget: "gomap_ok m \<Longrightarrow> (k, v) \<in> set m \<Longrightarrow> mget m k = Some v"
  by (simp add: gomap_ok_def)

lemma update_new: "k \<notin> mkeys m \<Longrightarrow> mset_key k v m = m @ [(k, v)]"
  by (induction m) auto

lemma update_same: "mget m k = Some v \<Longrightarrow> mset_key k v m = m"
  by (induction m) (auto split: if_splits)

lemma delete_new: "k \<notin> mkeys m \<Longrightarrow> mdel k m = m"
  by (induction m) auto

lemma delete_append: "mdel k (xs @ ys) = mdel k xs @ mdel k ys"
  by (simp add: AList.delete_eq)

lemma delete_update_new: "k \<notin> mkeys m \<Longrightarrow> mdel k (mset_key k v m) = m"
  by (simp add: update_new delete_append delete_new)

lemma update_update_same: "mset_key k w (mset_key k v m) = mset_key k w m"
  by (induction m) auto

section \<open>mergeMaps\<close>

text \<open>
  \<open>mergeMaps\<close> of \<open>internal/controller/utils.go\<close> and \<open>internal/extension/changeset.go\<close>:
  a fresh map, into which every entry of every argument is stored in turn. A nil map ranges
  over nothing, so nil and the empty map are both \<open>[]\<close>.
\<close>

fun merge_into :: "('k, 'v) gomap \<Rightarrow> ('k, 'v) gomap \<Rightarrow> ('k, 'v) gomap" where
  "merge_into ret [] = ret"
| "merge_into ret ((k, v) # m) = merge_into (mset_key k v ret) m"

definition mergeMaps :: "('k, 'v) gomap list \<Rightarrow> ('k, 'v) gomap" where
  "mergeMaps maps = fold (\<lambda>m ret. merge_into ret m) maps []"

lemma mget_merge_into: "gomap_ok m \<Longrightarrow> mget (merge_into ret m) = mget ret ++ mget m"
proof (induction ret m rule: merge_into.induct)
  case (1 ret)
  then show ?case by simp
next
  case (2 ret k v m)
  then show ?case
    by (auto simp: mget_update fun_eq_iff map_add_def mget_None_iff split: option.splits)
qed

lemma gomap_ok_merge_into [go_inv]: "gomap_ok ret \<Longrightarrow> gomap_ok (merge_into ret m)"
  by (induction ret m rule: merge_into.induct) auto

lemma mget_mergeMaps2:
  "gomap_ok a \<Longrightarrow> gomap_ok b \<Longrightarrow> mget (mergeMaps [a, b]) = mget a ++ mget b"
  by (simp add: mergeMaps_def mget_merge_into)

lemma merge_into_disjoint:
  "gomap_ok m \<Longrightarrow> mkeys ret \<inter> mkeys m = {} \<Longrightarrow> merge_into ret m = ret @ m"
proof (induction ret m rule: merge_into.induct)
  case (2 ret k v m)
  then have "k \<notin> mkeys ret" by (auto simp: mkeys_def)
  with 2 show ?case by (auto simp: update_new mkeys_def)
qed simp

lemma merge_with_empty: "gomap_ok m \<Longrightarrow> mergeMaps [m, []] = m"
  by (simp add: mergeMaps_def merge_into_disjoint mkeys_def)

lemma gomap_ok_mergeMaps [go_inv]: "gomap_ok (mergeMaps maps)"
proof -
  have "gomap_ok ret \<Longrightarrow> gomap_ok (fold (\<lambda>m ret. merge_into ret m) maps ret)" for ret
    by (induction maps arbitrary: ret) (auto simp: gomap_ok_merge_into)
  then show ?thesis by (simp add: mergeMaps_def)
qed

section \<open>Strings\<close>

text \<open>\<open>strings.Split\<close> at one character and \<open>strings.Join\<close>.\<close>

fun split_on :: "char \<Rightarrow> string \<Rightarrow> string list" where
  "split_on c [] = [[]]"
| "split_on c (x # xs) =
     (if x = c then [] # split_on c xs
      else (case split_on c xs of [] \<Rightarrow> [[x]] | p # ps \<Rightarrow> (x # p) # ps))"

fun join_with :: "string \<Rightarrow> string list \<Rightarrow> string" where
  "join_with sep [] = ''''"
| "join_with sep [w] = w"
| "join_with sep (w # ws) = w @ sep @ join_with sep ws"

lemma split_on_none: "c \<notin> set s \<Longrightarrow> split_on c s = [s]"
  by (induction s) auto

lemma split_on_sep: "c \<notin> set a \<Longrightarrow> split_on c (a @ c # b) = a # split_on c b"
  by (induction a) auto

lemma split_on_count: "length (split_on c s) = Suc (count_list s c)"
  by (induction s) (auto split: list.splits)

lemma split_on_parts: "w \<in> set (split_on c s) \<Longrightarrow> c \<notin> set w"
  by (induction s arbitrary: w) (fastforce split: list.splits if_splits)+

end
