(* ===== verification/Json.thy ===== *)
theory Json
  imports Prelude
begin

text \<open>
  JSON as the sources use it through \<open>encoding/json\<close>: the value type, the compact text that
  \<open>json.Marshal\<close> prints, and payloads (\<open>[]byte\<close> holding JSON) that are decoded into a
  \<open>map[string]any\<close>.
\<close>

section \<open>Values\<close>

datatype json =
    JNull
  | JBool bool
  | JNum int
  | JStr string
  | JArr "json list"
  | JObj "(string \<times> json) list"

section \<open>Payloads\<close>

text \<open>
  A byte slice the sources hand to \<open>json.Unmarshal\<close>: empty (nil), not JSON at all (the text is
  kept for error messages), or the JSON value it spells. Two spellings of one value are not
  distinguished: no code of the repository looks at the spelling of a payload, only at its
  length being zero.
\<close>

datatype raw = RawNil | RawBad string | RawJSON json

definition raw_nonempty :: "raw \<Rightarrow> bool" where
  "raw_nonempty b \<longleftrightarrow> b \<noteq> RawNil"

text \<open>The object that a member list denotes: for a repeated key the last member wins.\<close>

definition obj_map :: "(string \<times> json) list \<Rightarrow> (string, json) gomap" where
  "obj_map kvs = merge_into [] kvs"

lemma gomap_ok_obj_map [simp, go_inv]: "gomap_ok (obj_map kvs)"
  by (simp add: obj_map_def gomap_ok_merge_into)

lemma merge_into_append_ok:
  "gomap_ok (ret @ kvs) \<Longrightarrow> merge_into ret kvs = ret @ kvs"
proof (induction ret kvs rule: merge_into.induct)
  case (1 ret)
  then show ?case by simp
next
  case (2 ret k v m)
  then have new: "k \<notin> mkeys ret"
    by (auto simp: gomap_ok_def mkeys_def)
  with "2.prems" have "gomap_ok (mset_key k v ret @ m)"
    by (simp add: update_new)
  with "2.IH" new show ?case by (simp add: update_new)
qed

lemma obj_map_ok: "gomap_ok kvs \<Longrightarrow> obj_map kvs = kvs"
  by (simp add: obj_map_def merge_into_append_ok)

text \<open>
  \<open>var v map[string]any; json.Unmarshal(b, &v)\<close>: JSON null leaves the map nil (\<open>None\<close>),
  an object fills it, anything else is an error.
\<close>

fun unmarshal_map :: "raw \<Rightarrow> gerr + (string, json) gomap option" where
  "unmarshal_map RawNil = Inl (EMsg ''unexpected end of JSON input'')"
| "unmarshal_map (RawBad _) = Inl (EMsg ''invalid character'')"
| "unmarshal_map (RawJSON JNull) = Inr None"
| "unmarshal_map (RawJSON (JObj kvs)) = Inr (Some (obj_map kvs))"
| "unmarshal_map (RawJSON _) = Inl (EMsg ''json: cannot unmarshal into Go value'')"

text \<open>\<open>json.Marshal\<close> of a \<open>map[string]any\<close>.\<close>

definition marshal_map :: "(string, json) gomap \<Rightarrow> raw" where
  "marshal_map m = RawJSON (JObj m)"

lemma unmarshal_marshal_map: "gomap_ok m \<Longrightarrow> unmarshal_map (marshal_map m) = Inr (Some m)"
  by (simp add: marshal_map_def obj_map_ok)

section \<open>Compact text\<close>

text \<open>
  The bytes of \<open>json.Marshal\<close>: no white space, members joined by a comma. Strings escape
  the quote, the backslash, the newline, the carriage return, the tab, and the three characters
  Go escapes for HTML; other bytes are copied.
\<close>

fun hex_escape :: "char \<Rightarrow> string" where
  "hex_escape c =
     (if c = CHR ''<'' then CHR 0x5C # ''u003c''
      else if c = CHR ''>'' then CHR 0x5C # ''u003e''
      else if c = CHR ''&'' then CHR 0x5C # ''u0026''
      else if c = CHR 0x22 then [CHR 0x5C, CHR 0x22]
      else if c = CHR 0x5C then [CHR 0x5C, CHR 0x5C]
      else if c = CHR 0x0A then CHR 0x5C # ''n''
      else if c = CHR 0x0D then CHR 0x5C # ''r''
      else if c = CHR 0x09 then CHR 0x5C # ''t''
      else [c])"

definition json_quote :: "string \<Rightarrow> string" where
  "json_quote s = CHR 0x22 # concat (map hex_escape s) @ [CHR 0x22]"

fun digits_rev :: "nat \<Rightarrow> nat \<Rightarrow> string" where
  "digits_rev 0 n = []"
| "digits_rev (Suc f) n =
     char_of (48 + n mod 10) # (if n < 10 then [] else digits_rev f (n div 10))"

text \<open>\<open>strconv.Itoa\<close> on a natural number; \<open>Suc n\<close> digits are always enough.\<close>

definition itoa_nat :: "nat \<Rightarrow> string" where
  "itoa_nat n = rev (digits_rev (Suc n) n)"

definition itoa :: "int \<Rightarrow> string" where
  "itoa i = (if i < 0 then CHR ''-'' # itoa_nat (nat (- i)) else itoa_nat (nat i))"

fun intersperse_comma :: "string list \<Rightarrow> string" where
  "intersperse_comma [] = []"
| "intersperse_comma [s] = s"
| "intersperse_comma (s # t # ss) = s @ CHR '','' # intersperse_comma (t # ss)"

lemma intersperse_comma_append:
  "xs \<noteq> [] \<Longrightarrow> ys \<noteq> [] \<Longrightarrow>
   intersperse_comma (xs @ ys) = intersperse_comma xs @ CHR '','' # intersperse_comma ys"
proof (induction xs rule: intersperse_comma.induct)
  case (2 s)
  then show ?case by (cases ys) auto
qed auto

fun json_print :: "json \<Rightarrow> string" where
  "json_print JNull = ''null''"
| "json_print (JBool b) = (if b then ''true'' else ''false'')"
| "json_print (JNum i) = itoa i"
| "json_print (JStr s) = json_quote s"
| "json_print (JArr xs) = CHR ''['' # intersperse_comma (map json_print xs) @ '']''"
| "json_print (JObj kvs) =
     CHR ''{'' # intersperse_comma
        (map (\<lambda>kv. json_quote (fst kv) @ CHR '':'' # json_print (snd kv)) kvs) @ ''}''"

definition json_member :: "string \<times> json \<Rightarrow> string" where
  "json_member kv = json_quote (fst kv) @ CHR '':'' # json_print (snd kv)"

lemma json_print_obj:
  "json_print (JObj kvs) = CHR ''{'' # intersperse_comma (map json_member kvs) @ ''}''"
  by (simp add: json_member_def[abs_def])

lemma json_member_ne [simp]: "json_member kv \<noteq> []"
  by (simp add: json_member_def json_quote_def)

end
