(* ===== verification/Specgen.thy ===== *)
theory Specgen
  imports Json
begin

text \<open>
  \<open>internal/specgen/generate_spec.go\<close>: the generator that merges the OpenAPI schemas of
  extensions into the base schema of a custom resource, and takes them out again.

  Go maps are references: \<open>inner := schema.Properties[name]\<close> copies the struct but shares its
  \<open>Properties\<close> map, so what a nested call adds stays in the parent even when the call fails,
  unless the map was nil. The operations below return the error together with the state the maps
  are left in.
\<close>

section \<open>Schemas\<close>

text \<open>
  \<open>apiextv1.JSONSchemaProps\<close>, of which the generator reads two fields: \<open>Type\<close> and
  \<open>Properties\<close> (\<open>None\<close> is the nil map). All other fields (description, items, required,
  \<dots>) are carried along in \<open>s_rest\<close>.
\<close>

datatype schema =
  Schema (s_type: string) (s_props: "(string \<times> schema) list option") (s_rest: json)

definition zero_schema :: schema where
  "zero_schema = Schema '''' None (JObj [])"

definition props_of :: "schema \<Rightarrow> (string, schema) gomap" where
  "props_of s = (case s_props s of None \<Rightarrow> [] | Some ps \<Rightarrow> ps)"

text \<open>\<open>schema.Properties[name] = val\<close>, with the nil map made first.\<close>

definition set_prop :: "string \<Rightarrow> schema \<Rightarrow> schema \<Rightarrow> schema" where
  "set_prop name val s = Schema (s_type s) (Some (mset_key name val (props_of s))) (s_rest s)"

text \<open>\<open>delete(schema.Properties, name)\<close>: a no-op on a nil map.\<close>

definition del_prop :: "string \<Rightarrow> schema \<Rightarrow> schema" where
  "del_prop name s = Schema (s_type s) (map_option (mdel name) (s_props s)) (s_rest s)"

text \<open>
  What a struct copy \<open>old\<close> looks like after the map it shares with \<open>new\<close> was changed through
  \<open>new\<close>: a non-nil map shows the change, a nil map was replaced in the copy only.
\<close>

definition shared_map :: "schema \<Rightarrow> schema \<Rightarrow> schema" where
  "shared_map old new =
     (case s_props old of None \<Rightarrow> old | Some _ \<Rightarrow> Schema (s_type old) (s_props new) (s_rest old))"

fun schema_size :: "schema \<Rightarrow> nat" where
  "schema_size (Schema t ps r) =
     Suc (case ps of None \<Rightarrow> 0 | Some l \<Rightarrow> sum_list (map (\<lambda>kv. schema_size (snd kv)) l))"

definition props_size :: "(string \<times> schema) list option \<Rightarrow> nat" where
  "props_size ps = (case ps of None \<Rightarrow> 0 | Some l \<Rightarrow> sum_list (map (\<lambda>kv. schema_size (snd kv)) l))"

lemma schema_size_props: "schema_size v = Suc (props_size (s_props v))"
  by (cases v) (simp add: props_size_def)

lemma props_size_Cons [simp]:
  "props_size (Some ((n, v) # ps)) = Suc (props_size (s_props v)) + props_size (Some ps)"
  by (simp add: props_size_def schema_size_props)

section \<open>Generator.add and Generator.remove\<close>

text \<open>
  \<open>g.add(schema, properties, path...)\<close>. The list is the order in which Go ranges over the map
  \<open>properties\<close>; \<open>None\<close> as the error means success. The schema returned is what \<open>*schema\<close>
  holds when the call returns.
\<close>

function gen_add :: "schema \<Rightarrow> (string \<times> schema) list option \<Rightarrow> gerr option \<times> schema" where
  "gen_add s None = (None, s)"
| "gen_add s (Some []) = (None, s)"
| "gen_add s (Some ((name, val) # ps)) =
     (case mget (props_of s) name of
        Some inner \<Rightarrow>
          (if s_type val = ''object'' then
             (case gen_add inner (s_props val) of
                (Some e, inner') \<Rightarrow> (Some e, set_prop name (shared_map inner inner') s)
              | (None, inner') \<Rightarrow> gen_add (set_prop name inner' s) (Some ps))
           else (Some (EAlreadyDefined name), s))
      | None \<Rightarrow> gen_add (set_prop name val s) (Some ps))"
  by pat_completeness auto
termination
  by (relation "measure (\<lambda>(s, ps). props_size ps)") auto

text \<open>
  \<open>if p.Type == "object" && len(p.Properties) == 0 { delete(...) }\<close>, the clean-up that
  \<open>remove\<close> does at the top of the spec only (\<open>len(path) == 1\<close>).
\<close>

definition empty_object :: "schema \<Rightarrow> bool" where
  "empty_object p \<longleftrightarrow> s_type p = ''object'' \<and> props_of p = []"

definition drop_empty_objects :: "schema \<Rightarrow> schema" where
  "drop_empty_objects s =
     Schema (s_type s) (map_option (filter (\<lambda>kv. \<not> empty_object (snd kv))) (s_props s)) (s_rest s)"

text \<open>\<open>root\<close> is \<open>len(path) == 1\<close>; a nested call extends the path.\<close>

function gen_remove :: "bool \<Rightarrow> schema \<Rightarrow> (string \<times> schema) list option \<Rightarrow> schema" where
  "gen_remove root s None = s"
| "gen_remove root s (Some []) = (if root then drop_empty_objects s else s)"
| "gen_remove root s (Some ((name, val) # ps)) =
     (case mget (props_of s) name of
        None \<Rightarrow> gen_remove root s (Some ps)
      | Some inner \<Rightarrow>
          (if s_type val = ''object''
           then gen_remove root (set_prop name (gen_remove False inner (s_props val)) s) (Some ps)
           else gen_remove root (del_prop name s) (Some ps)))"
  by pat_completeness auto
termination
  by (relation "measure (\<lambda>(b, s, ps). props_size ps)") auto

section \<open>Generator\<close>

text \<open>
  \<open>Generator\<close>: the schema being edited (a pointer into the base CRD, \<open>None\<close> when the CRD has
  none), the kind of the CRD, and per extension name the raw schema that was applied. Decoding a
  raw schema is \<open>json.Unmarshal\<close> into the API machinery's \<open>JSONSchemaProps\<close>, which is not
  part of the repository: it is the parameter \<open>dec\<close>.
\<close>

record generator =
  g_schema :: "schema option"
  g_kind :: string
  g_applied :: "(string, raw) gomap"

definition spec_of :: "schema \<Rightarrow> schema" where
  "spec_of sch = (case mget (props_of sch) ''spec'' of None \<Rightarrow> zero_schema | Some s \<Rightarrow> s)"

text \<open>\<open>Generator.Remove\<close>.\<close>

definition generator_remove ::
    "(raw \<Rightarrow> gerr + schema) \<Rightarrow> generator \<Rightarrow> string \<Rightarrow> gerr option \<times> generator" where
  "generator_remove dec g name =
     (case mget (g_applied g) name of
        None \<Rightarrow> (None, g)
      | Some ext \<Rightarrow>
          (case dec ext of
             Inl e \<Rightarrow> (Some e, g)
           | Inr inp \<Rightarrow>
               (case g_schema g of
                  None \<Rightarrow> (Some (EPanic ''nil pointer dereference''), g)
                | Some sch \<Rightarrow>
                    let spec = gen_remove True (spec_of sch) (s_props inp);
                        g' = g\<lparr>g_applied := mdel name (g_applied g)\<rparr>
                    in if s_props sch = None
                       then (Some (EPanic ''assignment to entry in nil map''), g')
                       else (None, g'\<lparr>g_schema := Some (set_prop ''spec'' spec sch)\<rparr>))))"

text \<open>
  \<open>Generator.Add\<close>: an extension that is already applied is removed first. The spec is copied out
  of the schema and written back on success only; on failure the schema keeps what the shared
  maps received.
\<close>

definition generator_add ::
    "(raw \<Rightarrow> gerr + schema) \<Rightarrow> generator \<Rightarrow> string \<Rightarrow> raw \<Rightarrow> gerr option \<times> generator" where
  "generator_add dec g name ext =
     (case (if mget (g_applied g) name \<noteq> None then generator_remove dec g name else (None, g)) of
        (Some e, g1) \<Rightarrow> (Some e, g1)
      | (None, g1) \<Rightarrow>
          (case dec ext of
             Inl e \<Rightarrow> (Some (EWrap ''Generator.Add: json umarshal error'' e), g1)
           | Inr inp \<Rightarrow>
               (case g_schema g1 of
                  None \<Rightarrow> (Some (EPanic ''nil pointer dereference''), g1)
                | Some sch \<Rightarrow>
                    (case gen_add (spec_of sch) (s_props inp) of
                       (Some e, spec) \<Rightarrow>
                         (Some e,
                          if mget (props_of sch) ''spec'' = None then g1
                          else g1\<lparr>g_schema :=
                                 Some (set_prop ''spec'' (shared_map (spec_of sch) spec) sch)\<rparr>)
                     | (None, spec) \<Rightarrow>
                         let g' = g1\<lparr>g_applied := mset_key name ext (g_applied g1)\<rparr>
                         in if s_props sch = None
                            then (Some (EPanic ''assignment to entry in nil map''), g')
                            else (None, g'\<lparr>g_schema := Some (set_prop ''spec'' spec sch)\<rparr>)))))"

text \<open>\<open>Generator.Schema\<close> (a deep copy, so the value) and \<open>Generator.Kind\<close>.\<close>

definition generator_schema :: "generator \<Rightarrow> schema option" where
  "generator_schema g = g_schema g"

text \<open>
  A parsed \<open>CustomResourceDefinition\<close>: its kind, and per version the \<open>OpenAPIV3Schema\<close>, a
  pointer inside the pointer \<open>Schema\<close>.
\<close>

record crd_file =
  crd_kind :: string
  crd_versions :: "schema option option list"

text \<open>
  \<open>FromYAML\<close>. The YAML parser is a parameter. The loop of two rounds parses the same bytes
  again when the first round found no version; then \<open>Versions[0]\<close> panics.
\<close>

fun yaml_rounds :: "('b \<Rightarrow> gerr + crd_file) \<Rightarrow> 'b \<Rightarrow> nat \<Rightarrow> crd_file \<Rightarrow> gerr + crd_file" where
  "yaml_rounds parse b 0 inp = Inr inp"
| "yaml_rounds parse b (Suc i) inp =
     (case parse b of
        Inl e \<Rightarrow> Inl e
      | Inr inp' \<Rightarrow>
          (if crd_versions inp' \<noteq> [] then Inr inp' else yaml_rounds parse b i inp'))"

definition from_yaml ::
    "('b \<Rightarrow> gerr + crd_file) \<Rightarrow> (gerr + 'b) \<Rightarrow> gerr + generator" where
  "from_yaml parse rd =
     (case rd of
        Inl e \<Rightarrow> Inl e
      | Inr b \<Rightarrow>
          (case yaml_rounds parse b 2 \<lparr>crd_kind = '''', crd_versions = []\<rparr> of
             Inl e \<Rightarrow> Inl e
           | Inr inp \<Rightarrow>
               (case crd_versions inp of
                  [] \<Rightarrow> Inl (EPanic ''index out of range'')
                | None # _ \<Rightarrow> Inl (EPanic ''nil pointer dereference'')
                | Some sch # _ \<Rightarrow>
                    Inr \<lparr>g_schema = sch, g_kind = crd_kind inp, g_applied = []\<rparr>)))"

end
