(* ===== verification/Api.thy ===== *)
theory Api
  imports Specgen "HOL-Library.Word"
begin

text \<open>
  \<open>pkg/api/suffiks/v1\<close>: the custom resources (Extension, Application, Work) with the methods
  the controllers call on them, and the validating webhook of Extension.
\<close>

section \<open>Object metadata\<close>

text \<open>
  The fields of \<open>metav1.ObjectMeta\<close> the sources read or write. \<open>om_deleting\<close> says that
  \<open>DeletionTimestamp\<close> is set.
\<close>

record owner_ref =
  or_apiVersion :: string
  or_kind :: string
  or_name :: string
  or_uid :: string

record obj_meta =
  om_name :: string
  om_namespace :: string
  om_uid :: string
  om_labels :: "(string, string) gomap"
  om_annotations :: "(string, string) gomap"
  om_generation :: int
  om_finalizers :: "string list"
  om_deleting :: bool
  om_owners :: "owner_ref list"

definition zero_meta :: obj_meta where
  "zero_meta = \<lparr>om_name = '''', om_namespace = '''', om_uid = '''', om_labels = [],
     om_annotations = [], om_generation = 0, om_finalizers = [], om_deleting = False, om_owners = []\<rparr>"

section \<open>Extension\<close>

record ext_grpc =
  gc_namespace :: string
  gc_service :: string
  gc_port :: int

text \<open>\<open>net.JoinHostPort\<close>: a host with a colon or a percent sign is put in brackets.\<close>

definition join_host_port :: "string \<Rightarrow> string \<Rightarrow> string" where
  "join_host_port host port =
     (if CHR '':'' \<in> set host \<or> CHR 0x25 \<in> set host
      then CHR ''['' # host @ '']:'' @ port
      else host @ CHR '':'' # port)"

definition grpc_target :: "ext_grpc \<Rightarrow> string" where
  "grpc_target e = join_host_port (gc_service e @ ''.'' @ gc_namespace e) (itoa (gc_port e))"

record wasi_resource =
  wr_group :: string
  wr_version :: string
  wr_resource :: string
  wr_methods :: "string list"

definition wasi_resource_string :: "wasi_resource \<Rightarrow> string" where
  "wasi_resource_string e = wr_group e @ ''/'' @ wr_version e @ ''/'' @ wr_resource e"

record config_map_ref =
  cm_name :: string
  cm_namespace :: string

record ext_wasi =
  wc_image :: string
  wc_tag :: string
  wc_resources :: "wasi_resource list"
  wc_configMap :: "config_map_ref option"

definition image_tag :: "ext_wasi \<Rightarrow> string" where
  "image_tag e = wc_image e @ '':'' @ wc_tag e"

record ext_webhooks =
  wh_validation :: bool
  wh_defaulting :: bool

record controller_spec =
  cs_grpc :: "ext_grpc option"
  cs_wasi :: "ext_wasi option"

record ext_spec =
  es_targets :: "string list"
  es_schema :: raw
  es_controller :: controller_spec
  es_webhooks :: ext_webhooks
  es_always :: bool

datatype ext_status = StatusNone | StatusActive | StatusInvalid

record extension =
  ex_meta :: obj_meta
  ex_spec :: ext_spec
  ex_status :: ext_status

abbreviation ex_name :: "extension \<Rightarrow> string" where
  "ex_name e \<equiv> om_name (ex_meta e)"

section \<open>The validating webhook of Extension\<close>

text \<open>
  \<open>extension_webhook.go\<close>. The getter for OCI images and the decoder of schemas are parameters;
  \<open>raw_text\<close> stands for \<open>string(raw)\<close>, the value quoted in the error.
\<close>

definition validateSpecTarget :: "extension \<Rightarrow> field_error option" where
  "validateSpecTarget r =
     (case List.find (\<lambda>t. t \<noteq> ''Application'' \<and> t \<noteq> ''Work'') (es_targets (ex_spec r)) of
        None \<Rightarrow> None
      | Some t \<Rightarrow> Some \<lparr>fe_path = [''spec'', ''Targets''], fe_value = t,
                         fe_detail = ''Must be one of [Application,Work]''\<rparr>)"

definition validateSpecOpenAPIV3Schema ::
    "(raw \<Rightarrow> gerr + schema) \<Rightarrow> (raw \<Rightarrow> string) \<Rightarrow> extension \<Rightarrow> field_error option" where
  "validateSpecOpenAPIV3Schema dec raw_text r =
     (let invalid = (\<lambda>d. Some \<lparr>fe_path = [''spec'', ''openAPIV3Schema''],
                        fe_value = raw_text (es_schema (ex_spec r)), fe_detail = d\<rparr>)
      in case dec (es_schema (ex_spec r)) of
           Inl _ \<Rightarrow> invalid ''Must be a valid JSONSchema''
         | Inr props \<Rightarrow>
             if s_type props \<noteq> ''object'' then invalid (''Must be of type '' @ CHR 0x27 # ''object'' @ [CHR 0x27])
             else if props_of props = [] \<and> \<not> es_always (ex_spec r)
             then invalid ''Must have at least one property or have Always set to true''
             else None)"

definition validateWASIImage ::
    "(string \<Rightarrow> string \<Rightarrow> string + (string, raw) gomap) \<Rightarrow> extension \<Rightarrow> field_error option" where
  "validateWASIImage getter r =
     (case cs_wasi (es_controller (ex_spec r)) of
        None \<Rightarrow> None
      | Some w \<Rightarrow>
          (let invalid = (\<lambda>d. Some \<lparr>fe_path = [''spec'', ''controller'', ''wasi'', ''image''],
                                     fe_value = wc_image w, fe_detail = d\<rparr>)
           in if wc_image w = '''' then invalid ''Must be a valid image''
              else (case getter (wc_image w) (wc_tag w) of
                      Inl e \<Rightarrow> invalid e
                    | Inr _ \<Rightarrow> None)))"

definition validateSpec ::
    "(raw \<Rightarrow> gerr + schema) \<Rightarrow> (raw \<Rightarrow> string) \<Rightarrow>
     (string \<Rightarrow> string \<Rightarrow> string + (string, raw) gomap) \<Rightarrow> extension \<Rightarrow> field_error list" where
  "validateSpec dec raw_text getter r =
     List.map_filter id
       [validateSpecTarget r, validateSpecOpenAPIV3Schema dec raw_text r, validateWASIImage getter r]"

definition validateExtension ::
    "(raw \<Rightarrow> gerr + schema) \<Rightarrow> (raw \<Rightarrow> string) \<Rightarrow>
     (string \<Rightarrow> string \<Rightarrow> string + (string, raw) gomap) \<Rightarrow> extension \<Rightarrow> gerr option" where
  "validateExtension dec raw_text getter r =
     (let errs = validateSpec dec raw_text getter r
      in if errs = [] then None else Some (EInvalid (ex_name r) errs))"

section \<open>Application and Work\<close>

record env_var =
  ev_name :: string
  ev_value :: string
  ev_valueFrom :: "string option"

record env_from =
  ef_configMap :: string
  ef_secret :: string

record resource_reqs =
  rr_limit_memory :: string
  rr_request_cpu :: string
  rr_request_memory :: string

text \<open>
  \<open>ApplicationSpec\<close>. A Go \<open>int\<close> is 64 bits wide; it is kept as an \<open>int\<close> and converted
  where the code converts it. Quantities are their canonical texts. \<open>as_rest\<close> is
  \<open>Rest.Object\<close>, listed in key order, the order in which \<open>json.Marshal\<close> prints a map.
\<close>

record app_spec =
  as_port :: int
  as_command :: "string list"
  as_image :: string
  as_env :: "env_var list"
  as_envFrom :: "env_from list"
  as_resources :: "resource_reqs option"
  as_rest :: "(string, json) gomap"

record app_status =
  st_availableReplicas :: int
  st_replicas :: int
  st_hash :: string
  st_extensions :: "string list"

record application =
  ap_kind :: string
  ap_apiVersion :: string
  ap_meta :: obj_meta
  ap_spec :: app_spec
  ap_status :: app_status

definition zero_app_spec :: app_spec where
  "zero_app_spec = \<lparr>as_port = 0, as_command = [], as_image = '''', as_env = [], as_envFrom = [],
     as_resources = None, as_rest = []\<rparr>"

record work_spec =
  ws_schedule :: string
  ws_command :: "string list"
  ws_image :: string
  ws_env :: "env_var list"
  ws_envFrom :: "env_from list"
  ws_restartPolicy :: string

section \<open>JSON of the specs\<close>

text \<open>\<open>omitempty\<close>: the member is left out when the field has its zero value.\<close>

definition opt_member :: "bool \<Rightarrow> string \<Rightarrow> json \<Rightarrow> (string \<times> json) list" where
  "opt_member present name v = (if present then [(name, v)] else [])"

definition env_var_json :: "env_var \<Rightarrow> json" where
  "env_var_json e = JObj ((''name'', JStr (ev_name e))
     # opt_member (ev_value e \<noteq> '''') ''value'' (JStr (ev_value e))
     @ (case ev_valueFrom e of None \<Rightarrow> []
        | Some p \<Rightarrow> [(''valueFrom'', JObj [(''fieldRef'', JObj [(''fieldPath'', JStr p)])])]))"

definition env_from_json :: "env_from \<Rightarrow> json" where
  "env_from_json e = JObj
     (opt_member (ef_configMap e \<noteq> '''') ''configmap'' (JStr (ef_configMap e))
      @ opt_member (ef_secret e \<noteq> '''') ''secret'' (JStr (ef_secret e)))"

definition resources_json :: "resource_reqs \<Rightarrow> json" where
  "resources_json r = JObj
     [(''limits'', JObj [(''memory'', JStr (rr_limit_memory r))]),
      (''requests'', JObj [(''cpu'', JStr (rr_request_cpu r)), (''memory'', JStr (rr_request_memory r))])]"

text \<open>The members of \<open>_app(a)\<close>, in the order of the struct; \<open>Rest\<close> is tagged \<open>json:"-"\<close>.\<close>

definition app_known_members :: "app_spec \<Rightarrow> (string \<times> json) list" where
  "app_known_members a =
     opt_member (as_port a \<noteq> 0) ''port'' (JNum (as_port a))
     @ opt_member (as_command a \<noteq> []) ''command'' (JArr (map JStr (as_command a)))
     @ (''image'', JStr (as_image a))
     # opt_member (as_env a \<noteq> []) ''env'' (JArr (map env_var_json (as_env a)))
     @ opt_member (as_envFrom a \<noteq> []) ''envFrom'' (JArr (map env_from_json (as_envFrom a)))
     @ (case as_resources a of None \<Rightarrow> [] | Some r \<Rightarrow> [(''resources'', resources_json r)])"

text \<open>
  \<open>ApplicationSpec.MarshalJSON\<close>: the bytes of the known members, and when there is a rest, its
  bytes spliced in: the closing brace of the first is cut off, a comma is written, and the second
  follows without its opening brace.
\<close>

definition app_marshal_json :: "app_spec \<Rightarrow> string" where
  "app_marshal_json a =
     (let b1 = json_print (JObj (app_known_members a))
      in if as_rest a = [] then b1
         else let b2 = json_print (JObj (as_rest a))
              in (take (length b1 - 1) b1 @ [CHR '','']) @ drop 1 b2)"

definition app_spec_json :: "app_spec \<Rightarrow> json" where
  "app_spec_json a = JObj (app_known_members a @ as_rest a)"

text \<open>
  \<open>Application.GetSpec\<close>: nil for a nil pointer, else the bytes of \<open>MarshalJSON\<close>, given by the
  value they spell (\<open>marshal_json_spells\<close> below).
\<close>

definition get_spec :: "application option \<Rightarrow> raw" where
  "get_spec a = (case a of None \<Rightarrow> RawNil | Some ap \<Rightarrow> RawJSON (app_spec_json (ap_spec ap)))"

text \<open>\<open>Application.WellKnownSpec\<close>.\<close>

definition well_known_spec :: "application option \<Rightarrow> gerr + app_spec" where
  "well_known_spec a = (case a of None \<Rightarrow> Inr zero_app_spec | Some ap \<Rightarrow> Inr (ap_spec ap))"

text \<open>
  \<open>ApplicationSpec.UnmarshalJSON\<close>. \<open>marshmallow.Unmarshal\<close> is a parameter: it fills the known
  fields and returns the members that are none of them. The receiver is overwritten as a whole.
\<close>

definition app_unmarshal_json ::
    "(raw \<Rightarrow> gerr + app_spec \<times> (string, json) gomap) \<Rightarrow> raw \<Rightarrow> app_spec \<Rightarrow> gerr option \<times> app_spec" where
  "app_unmarshal_json mm b a =
     (case mm b of
        Inl e \<Rightarrow> (Some e, a)
      | Inr (app, rest) \<Rightarrow> (None, if rest \<noteq> [] then app\<lparr>as_rest := rest\<rparr> else app))"

text \<open>
  \<open>strconv.FormatUint(h, 16)\<close>, and \<open>Application.Hash\<close>: the structure hash of the spec and the
  labels (a parameter) in hexadecimal.
\<close>

definition hex_digit :: "nat \<Rightarrow> char" where
  "hex_digit d = (if d < 10 then char_of (48 + d) else char_of (87 + d))"

fun hex_rev :: "nat \<Rightarrow> string" where
  "hex_rev n = hex_digit (n mod 16) # (if n < 16 then [] else hex_rev (n div 16))"

declare hex_rev.simps [simp del]

definition format_hex :: "64 word \<Rightarrow> string" where
  "format_hex h = rev (hex_rev (unat h))"

definition app_hash ::
    "(app_spec \<times> (string, string) gomap \<Rightarrow> gerr + 64 word) \<Rightarrow> application option \<Rightarrow> gerr + string" where
  "app_hash hashf a =
     (case a of
        None \<Rightarrow> Inl (EMsg ''unable to hash nil application'')
      | Some ap \<Rightarrow>
          (case hashf (ap_spec ap, om_labels (ap_meta ap)) of
             Inl e \<Rightarrow> Inl e
           | Inr h \<Rightarrow> Inr (format_hex h)))"

definition work_members :: "work_spec \<Rightarrow> (string \<times> json) list" where
  "work_members w =
     opt_member (ws_schedule w \<noteq> '''') ''schedule'' (JStr (ws_schedule w))
     @ opt_member (ws_command w \<noteq> []) ''command'' (JArr (map JStr (ws_command w)))
     @ (''image'', JStr (ws_image w))
     # opt_member (ws_env w \<noteq> []) ''env'' (JArr (map env_var_json (ws_env w)))
     @ opt_member (ws_envFrom w \<noteq> []) ''envFrom'' (JArr (map env_from_json (ws_envFrom w)))
     @ opt_member (ws_restartPolicy w \<noteq> '''') ''restartPolicy'' (JStr (ws_restartPolicy w))"

definition work_get_spec :: "work_spec option \<Rightarrow> raw" where
  "work_get_spec w = (case w of None \<Rightarrow> RawNil | Some s \<Rightarrow> RawJSON (JObj (work_members s)))"

end
