(* ===== verification/Specgen_Facts.thy ===== *)
theory Specgen_Facts
  imports Specgen
begin

text \<open>
  The lemmas and properties of the schema generator: what a merge leaves untouched, when it
  fails, and when removing an extension restores the schema it was added to.
\<close>

section \<open>Properties maps\<close>

lemma s_type_set_prop [simp]: "s_type (set_prop n v s) = s_type s"
  and s_rest_set_prop [simp]: "s_rest (set_prop n v s) = s_rest s"
  and props_of_set_prop [simp]: "props_of (set_prop n v s) = mset_key n v (props_of s)"
  and s_props_set_prop [simp]: "s_props (set_prop n v s) = Some (mset_key n v (props_of s))"
  by (simp_all add: set_prop_def props_of_def)

lemma s_type_del_prop [simp]: "s_type (del_prop n s) = s_type s"
  and s_rest_del_prop [simp]: "s_rest (del_prop n s) = s_rest s"
  and props_of_del_prop [simp]: "props_of (del_prop n s) = mdel n (props_of s)"
  by (simp_all add: del_prop_def props_of_def split: option.splits)

lemma schema_eqI:
  "s_type s = s_type t \<Longrightarrow> s_rest s = s_rest t \<Longrightarrow> s_props s = s_props t \<Longrightarrow> s = t"
  by (cases s; cases t) simp

lemma props_of_None [simp]: "s_props s = None \<Longrightarrow> props_of s = []"
  and props_of_Some [simp]: "s_props s = Some ps \<Longrightarrow> props_of s = ps"
  by (simp_all add: props_of_def)

lemma props_of_Schema [simp]: "props_of (Schema t ps r) = (case ps of None \<Rightarrow> [] | Some l \<Rightarrow> l)"
  by (simp add: props_of_def)

lemma set_prop_same: "mget (props_of s) n = Some v \<Longrightarrow> set_prop n v s = s"
  by (cases "s_props s") (auto intro!: schema_eqI simp: update_same)

lemma set_prop_set_prop: "set_prop n w (set_prop n v s) = set_prop n w s"
  by (rule schema_eqI) (simp_all add: update_update_same)

lemma del_set_prop_new:
  "n \<notin> mkeys (props_of s) \<Longrightarrow> s_props s \<noteq> None \<Longrightarrow> del_prop n (set_prop n v s) = s"
  by (rule schema_eqI) (auto simp: del_prop_def delete_update_new)

lemma update_swap_existing:
  "n \<in> mkeys m \<Longrightarrow> n \<noteq> k \<Longrightarrow> mset_key n x (mset_key k v m) = mset_key k v (mset_key n x m)"
  by (induction m) auto

lemma delete_update_other: "n \<noteq> k \<Longrightarrow> mdel n (mset_key k v m) = mset_key k v (mdel n m)"
  by (induction m) auto

lemma set_prop_swap:
  "n \<in> mkeys (props_of s) \<Longrightarrow> n \<noteq> k \<Longrightarrow> set_prop n x (set_prop k v s) = set_prop k v (set_prop n x s)"
  by (rule schema_eqI) (simp_all add: update_swap_existing)

lemma del_set_prop_other: "n \<noteq> k \<Longrightarrow> s_props s \<noteq> None \<Longrightarrow>
    del_prop n (set_prop k v s) = set_prop k v (del_prop n s)"
  by (rule schema_eqI) (auto simp: del_prop_def delete_update_other)

section \<open>Paths\<close>

text \<open>The schema at a path of property names, and the nodes a merge must not lose.\<close>

fun at :: "schema \<Rightarrow> string list \<Rightarrow> schema option" where
  "at s [] = Some s"
| "at s (n # p) = (case mget (props_of s) n of None \<Rightarrow> None | Some t \<Rightarrow> at t p)"

definition grows :: "schema \<Rightarrow> schema \<Rightarrow> bool" where
  "grows s s' \<longleftrightarrow> (\<forall>p t. at s p = Some t \<longrightarrow>
     (\<exists>t'. at s' p = Some t' \<and> s_type t' = s_type t \<and> s_rest t' = s_rest t))"

lemma growsI: "(\<And>p t. at s p = Some t \<Longrightarrow>
     \<exists>t'. at s' p = Some t' \<and> s_type t' = s_type t \<and> s_rest t' = s_rest t) \<Longrightarrow> grows s s'"
  by (simp add: grows_def)

lemma grows_refl [simp]: "grows s s"
  by (simp add: grows_def)

lemma grows_trans: "grows s t \<Longrightarrow> grows t u \<Longrightarrow> grows s u"
  unfolding grows_def by metis

lemma grows_set_prop_new: "mget (props_of s) n = None \<Longrightarrow> grows s (set_prop n v s)"
proof (rule growsI)
  fix p t
  assume "mget (props_of s) n = None" and "at s p = Some t"
  then show "\<exists>t'. at (set_prop n v s) p = Some t' \<and> s_type t' = s_type t \<and> s_rest t' = s_rest t"
    by (cases p) (auto simp: mget_update split: option.splits)
qed

lemma grows_set_prop_inner:
  assumes "mget (props_of s) n = Some inner" and "grows inner v"
  shows "grows s (set_prop n v s)"
proof (rule growsI)
  fix p t
  assume at: "at s p = Some t"
  show "\<exists>t'. at (set_prop n v s) p = Some t' \<and> s_type t' = s_type t \<and> s_rest t' = s_rest t"
  proof (cases p)
    case Nil
    with at show ?thesis by auto
  next
    case (Cons m q)
    with at assms show ?thesis
      by (auto simp: mget_update grows_def split: option.splits)
  qed
qed

lemma grows_shared_map: "grows s s' \<Longrightarrow> grows s (shared_map s s')"
proof (rule growsI)
  fix p t
  assume g: "grows s s'" and at: "at s p = Some t"
  show "\<exists>t'. at (shared_map s s') p = Some t' \<and> s_type t' = s_type t \<and> s_rest t' = s_rest t"
  proof (cases p)
    case Nil
    with at show ?thesis by (auto simp: shared_map_def split: option.splits)
  next
    case (Cons m q)
    have same: "at (shared_map s s') (m # q) = at s' (m # q)" if "s_props s \<noteq> None"
      using that by (auto simp: shared_map_def props_of_def)
    show ?thesis
    proof (cases "s_props s")
      case None
      with at Cons show ?thesis by simp
    next
      case (Some l)
      from g at have "\<exists>t'. at s' p = Some t' \<and> s_type t' = s_type t \<and> s_rest t' = s_rest t"
        unfolding grows_def by blast
      with Some Cons same show ?thesis by (simp del: at.simps)
    qed
  qed
qed

text \<open>A merge never changes or removes a definition that is already there, not even when it fails.\<close>

lemma gen_add_grows: "grows s (snd (gen_add s ps))"
proof (induction s ps rule: gen_add.induct)
  case (3 s name val ps)
  show ?case
  proof (cases "mget (props_of s) name")
    case None
    with 3 show ?thesis by (auto intro: grows_trans grows_set_prop_new)
  next
    case (Some inner)
    show ?thesis
    proof (cases "s_type val = ''object''")
      case False
      with Some show ?thesis by simp
    next
      case True
      obtain e inner' where r: "gen_add inner (s_props val) = (e, inner')"
        by (cases "gen_add inner (s_props val)")
      from "3.IH"(2)[OF Some True] r have g: "grows inner inner'" by simp
      show ?thesis
      proof (cases e)
        case None
        from "3.IH"(3)[OF Some True r[symmetric] None] grows_set_prop_inner[OF Some g]
        have "grows s (snd (gen_add (set_prop name inner' s) (Some ps)))"
          by (blast intro: grows_trans)
        with Some True r None show ?thesis by simp
      next
        case Some': (Some err)
        with Some True r grows_set_prop_inner[OF Some grows_shared_map[OF g]]
        show ?thesis by simp
      qed
    qed
  qed
qed simp_all

section \<open>When a merge fails\<close>

text \<open>
  The extension conflicts with the schema when one of its properties exists already and is not
  an object, or is an object whose properties conflict with the existing ones.
\<close>

fun wf_schema :: "schema \<Rightarrow> bool" where
  "wf_schema (Schema t ps r) =
     (case ps of None \<Rightarrow> True
      | Some l \<Rightarrow> distinct (map fst l) \<and> list_all (\<lambda>kv. wf_schema (snd kv)) l)"

definition wf_props :: "(string \<times> schema) list option \<Rightarrow> bool" where
  "wf_props ps \<longleftrightarrow>
     (case ps of None \<Rightarrow> True | Some l \<Rightarrow> gomap_ok l \<and> (\<forall>kv\<in>set l. wf_schema (snd kv)))"

lemma wf_schema_props: "wf_schema v \<longleftrightarrow> wf_props (s_props v)"
  by (cases v) (auto simp: wf_props_def gomap_ok_def list_all_iff split: option.splits)

lemma wf_props_Cons:
  "wf_props (Some ((n, v) # ps)) \<longleftrightarrow> n \<notin> mkeys ps \<and> wf_props (s_props v) \<and> wf_props (Some ps)"
  by (auto simp: wf_props_def wf_schema_props)

lemma wf_props_simps [simp]: "wf_props None" "wf_props (Some [])"
  by (simp_all add: wf_props_def)

function conflicts :: "schema \<Rightarrow> (string \<times> schema) list option \<Rightarrow> bool" where
  "conflicts s None \<longleftrightarrow> False"
| "conflicts s (Some []) \<longleftrightarrow> False"
| "conflicts s (Some ((name, val) # ps)) \<longleftrightarrow>
     (case mget (props_of s) name of
        None \<Rightarrow> False
      | Some inner \<Rightarrow> s_type val \<noteq> ''object'' \<or> conflicts inner (s_props val))
     \<or> conflicts s (Some ps)"
  by pat_completeness auto
termination
  by (relation "measure (\<lambda>(s, ps). props_size ps)") auto

lemma conflicts_set_prop [simp]:
  "n \<notin> mkeys ps \<Longrightarrow> conflicts (set_prop n v s) (Some ps) = conflicts s (Some ps)"
  by (induction ps) (auto simp: mget_update split: option.splits)

lemma gen_add_ok_iff_conflicts:
  "wf_props ps \<Longrightarrow> fst (gen_add s ps) = None \<longleftrightarrow> \<not> conflicts s ps"
proof (induction s ps rule: gen_add.induct)
  case (3 s name val ps)
  then have wf: "name \<notin> mkeys ps" "wf_props (s_props val)" "wf_props (Some ps)"
    by (simp_all add: wf_props_Cons)
  show ?case
  proof (cases "mget (props_of s) name")
    case None
    with 3 wf show ?thesis by simp
  next
    case (Some inner)
    obtain e inner' where r: "gen_add inner (s_props val) = (e, inner')"
      by (cases "gen_add inner (s_props val)")
    with "3.IH"(2)[OF Some] "3.IH"(3)[OF Some _ r[symmetric]] Some wf show ?thesis
      by (cases e) auto
  qed
qed simp_all

lemma conflicts_set:
  "conflicts s (Some ps) \<longleftrightarrow>
     (\<exists>(n, v) \<in> set ps. \<exists>inner. mget (props_of s) n = Some inner \<and>
        (s_type v \<noteq> ''object'' \<or> conflicts inner (s_props v)))"
  by (induction ps) (auto split: option.splits)

section \<open>What a merge produces\<close>

text \<open>
  Each property of the merged spec, by name: only there before (kept), only in the extension
  (inserted as it is), or in both (merged one level down).
\<close>

lemma gen_add_untouched:
  "n \<notin> mkeys ps \<Longrightarrow> mget (props_of (snd (gen_add s (Some ps)))) n = mget (props_of s) n"
proof (induction ps arbitrary: s)
  case Nil
  then show ?case by simp
next
  case (Cons kv ps)
  obtain name val where kv: "kv = (name, val)" by (cases kv)
  with Cons show ?case
    by (auto simp: mget_update split: option.splits prod.splits)
qed

lemma gen_add_lookup:
  "wf_props (Some ps) \<Longrightarrow> fst (gen_add s (Some ps)) = None \<Longrightarrow>
   mget (props_of (snd (gen_add s (Some ps)))) n =
     (case mget ps n of
        None \<Rightarrow> mget (props_of s) n
      | Some v \<Rightarrow>
          (case mget (props_of s) n of
             None \<Rightarrow> Some v
           | Some a \<Rightarrow> Some (snd (gen_add a (s_props v)))))"
proof (induction ps arbitrary: s)
  case Nil
  then show ?case by simp
next
  case (Cons kv ps)
  obtain name val where kv: "kv = (name, val)" by (cases kv)
  with Cons.prems have wf: "name \<notin> mkeys ps" "wf_props (Some ps)"
    by (simp_all add: wf_props_Cons)
  then have none: "mget ps name = None" by (simp add: mget_None_iff)
  show ?case
  proof (cases "mget (props_of s) name")
    case None
    with kv Cons.prems(2) have ok: "fst (gen_add (set_prop name val s) (Some ps)) = None"
      by simp
    from Cons.IH[OF wf(2) ok] None kv none show ?thesis
      by (auto simp: mget_update split: option.splits)
  next
    case (Some inner)
    with kv Cons.prems(2) obtain inner' where
      r: "gen_add inner (s_props val) = (None, inner')" and obj: "s_type val = ''object''"
      by (auto split: if_splits option.splits prod.splits)
    with Some kv Cons.prems(2) have ok: "fst (gen_add (set_prop name inner' s) (Some ps)) = None"
      by simp
    from Cons.IH[OF wf(2) ok] Some kv none r obj show ?thesis
      by (auto simp: mget_update split: option.splits)
  qed
qed

section \<open>Adding and removing\<close>

lemma gen_add_del_prop:
  "n \<notin> mkeys ps \<Longrightarrow> s_props s \<noteq> None \<Longrightarrow> fst (gen_add s (Some ps)) = None \<Longrightarrow>
   gen_add (del_prop n s) (Some ps) = (None, del_prop n (snd (gen_add s (Some ps))))"
proof (induction ps arbitrary: s)
  case Nil
  then show ?case by simp
next
  case (Cons kv ps)
  obtain name val where kv: "kv = (name, val)" by (cases kv)
  with Cons show ?case
    by (auto simp: mget_delete del_set_prop_other[symmetric] split: option.splits prod.splits if_splits)
qed

lemma gen_add_set_prop:
  "n \<notin> mkeys ps \<Longrightarrow> n \<in> mkeys (props_of s) \<Longrightarrow> fst (gen_add s (Some ps)) = None \<Longrightarrow>
   gen_add (set_prop n x s) (Some ps) = (None, set_prop n x (snd (gen_add s (Some ps))))"
proof (induction ps arbitrary: s)
  case Nil
  then show ?case by simp
next
  case (Cons kv ps)
  obtain name val where kv: "kv = (name, val)" by (cases kv)
  with Cons show ?case
    by (auto simp: mget_update set_prop_swap[symmetric] split: option.splits prod.splits if_splits)
qed

text \<open>
  When removing what was added restores the schema: every object the extension brings itself is
  at the top of the spec and holds no further object (\<open>leaves_only\<close>), and objects it extends have
  a non-nil map.
\<close>

definition leaves_only :: "(string \<times> schema) list option \<Rightarrow> bool" where
  "leaves_only ps \<longleftrightarrow> (case ps of None \<Rightarrow> True | Some l \<Rightarrow> \<forall>kv\<in>set l. s_type (snd kv) \<noteq> ''object'')"

function restorable :: "bool \<Rightarrow> schema \<Rightarrow> (string \<times> schema) list option \<Rightarrow> bool" where
  "restorable root s None \<longleftrightarrow> True"
| "restorable root s (Some []) \<longleftrightarrow> True"
| "restorable root s (Some ((name, val) # ps)) \<longleftrightarrow>
     (case mget (props_of s) name of
        None \<Rightarrow> s_type val \<noteq> ''object'' \<or> root \<and> leaves_only (s_props val)
      | Some inner \<Rightarrow> s_props inner \<noteq> None \<and> restorable False inner (s_props val))
     \<and> restorable root s (Some ps)"
  by pat_completeness auto
termination
  by (relation "measure (\<lambda>(root, s, ps). props_size ps)") auto

lemma restorable_set_prop [simp]:
  "n \<notin> mkeys ps \<Longrightarrow> restorable root (set_prop n v s) (Some ps) = restorable root s (Some ps)"
  by (induction ps) (auto simp: mget_update split: option.splits)

lemma gen_remove_leaves:
  "\<forall>kv\<in>set ps. s_type (snd kv) \<noteq> ''object'' \<Longrightarrow> gen_remove False v (Some ps) =
     Schema (s_type v) (map_option (filter (\<lambda>kv. fst kv \<notin> mkeys ps)) (s_props v)) (s_rest v)"
proof (induction ps arbitrary: v)
  case Nil
  then show ?case by (cases v) (simp add: option.map_ident)
next
  case (Cons kv ps)
  obtain name val where kv: "kv = (name, val)" by (cases kv)
  have del: "map_option (filter (\<lambda>kv. fst kv \<notin> insert name (mkeys ps))) (s_props v) =
      map_option (filter (\<lambda>kv. fst kv \<notin> mkeys ps)) (map_option (mdel name) (s_props v))"
    by (cases "s_props v") (auto simp: AList.delete_eq intro!: filter_cong)
  have "mdel name l = l" if "s_props v = Some l" and "mget (props_of v) name = None" for l
    using that by (simp add: delete_new mget_None_iff)
  then have absent: "map_option (mdel name) (s_props v) = s_props v"
    if "mget (props_of v) name = None" using that by (cases "s_props v") auto
  have "del_prop name v = Schema (s_type v) (map_option (mdel name) (s_props v)) (s_rest v)"
    by (simp add: del_prop_def)
  with Cons kv del absent show ?case
    by (auto split: option.splits)
qed

lemma gen_remove_own_object:
  assumes "leaves_only (s_props v)" and "s_type v = ''object''"
  shows "empty_object (gen_remove False v (s_props v))"
proof (cases "s_props v")
  case None
  with assms show ?thesis by (simp add: empty_object_def)
next
  case (Some l)
  have "filter (\<lambda>kv. fst kv \<notin> mkeys l) l = []"
    by (auto simp: filter_empty_conv mkeys_def)
  with Some assms gen_remove_leaves[of l v] show ?thesis
    by (simp add: leaves_only_def empty_object_def)
qed

lemma drop_empty_set_prop_new:
  "mget (props_of s) n = None \<Longrightarrow> s_props s \<noteq> None \<Longrightarrow> empty_object v \<Longrightarrow>
   drop_empty_objects (set_prop n v s) = drop_empty_objects s"
  by (auto simp: drop_empty_objects_def mget_None_iff update_new)

text \<open>
  One property of the extension, which was new in the schema or extends an object of it; \<open>IH\<close> is the
  statement for the remaining properties.
\<close>

lemma undo_new_property:
  assumes new: "n \<notin> mkeys rest" "mget (props_of s) n = None" and nn: "s_props s \<noteq> None"
    and ok1: "fst (gen_add (set_prop n v s) (Some rest)) = None"
    and own: "s_type v \<noteq> ''object'' \<or> root \<and> leaves_only (s_props v)"
    and restor: "restorable root s (Some rest)"
    and IH: "\<And>s'. fst (gen_add s' (Some rest)) = None \<Longrightarrow> restorable root s' (Some rest) \<Longrightarrow> s_props s' \<noteq> None \<Longrightarrow>
      gen_remove root (snd (gen_add s' (Some rest))) (Some rest) = (if root then drop_empty_objects s' else s')"
  shows "gen_remove root (snd (gen_add s (Some ((n, v) # rest)))) (Some ((n, v) # rest)) =
    (if root then drop_empty_objects s else s)"
proof -
  define a where "a = snd (gen_add (set_prop n v s) (Some rest))"
  have look: "mget (props_of a) n = Some v"
    using gen_add_untouched[OF new(1)] by (simp add: a_def mget_update)
  have fresh: "n \<notin> mkeys (props_of s)" using new(2) by (simp add: mget_None_iff)
  show ?thesis
  proof (cases "s_type v = ''object''")
    case False
    have "del_prop n (set_prop n v s) = s" using fresh nn by (simp add: del_set_prop_new)
    with gen_add_del_prop[OF new(1) _ ok1] have "gen_add s (Some rest) = (None, del_prop n a)"
      by (simp add: a_def)
    with IH[of s] restor nn False look new(2) show ?thesis by (simp add: a_def)
  next
    case True
    let ?w = "gen_remove False v (s_props v)"
    have root: "root" and e: "empty_object ?w" using own True gen_remove_own_object[OF _ True] by auto
    have "gen_add (set_prop n ?w s) (Some rest) = (None, set_prop n ?w a)"
      using gen_add_set_prop[OF new(1) _ ok1, of ?w] by (simp add: a_def set_prop_set_prop)
    with IH[of "set_prop n ?w s"] restor new(1)
    have "gen_remove root (set_prop n ?w a) (Some rest) = drop_empty_objects (set_prop n ?w s)"
      using root by simp
    with drop_empty_set_prop_new[OF new(2) nn e] True look new(2) root show ?thesis
      by (simp add: a_def)
  qed
qed

lemma undo_inner_property:
  assumes n: "n \<notin> mkeys rest" and inner: "mget (props_of s) n = Some inner" and nn: "s_props s \<noteq> None"
    and obj: "s_type v = ''object''" and r: "gen_add inner (s_props v) = (None, inner')"
    and undo: "gen_remove False inner' (s_props v) = inner"
    and ok1: "fst (gen_add (set_prop n inner' s) (Some rest)) = None"
    and restor: "restorable root s (Some rest)"
    and IH: "\<And>s'. fst (gen_add s' (Some rest)) = None \<Longrightarrow> restorable root s' (Some rest) \<Longrightarrow> s_props s' \<noteq> None \<Longrightarrow>
      gen_remove root (snd (gen_add s' (Some rest))) (Some rest) = (if root then drop_empty_objects s' else s')"
  shows "gen_remove root (snd (gen_add s (Some ((n, v) # rest)))) (Some ((n, v) # rest)) =
    (if root then drop_empty_objects s else s)"
proof -
  define a where "a = snd (gen_add (set_prop n inner' s) (Some rest))"
  have look: "mget (props_of a) n = Some inner'"
    using gen_add_untouched[OF n] by (simp add: a_def mget_update)
  have "gen_add (set_prop n inner (set_prop n inner' s)) (Some rest) = (None, set_prop n inner a)"
    using gen_add_set_prop[OF n _ ok1, of inner] by (simp add: a_def)
  then have "gen_add s (Some rest) = (None, set_prop n inner a)"
    using inner by (simp add: set_prop_set_prop set_prop_same)
  with IH[of s] restor nn undo obj look inner r show ?thesis by (simp add: a_def)
qed

text \<open>The general form: at the top of the spec the clean-up runs once, at the end.\<close>

lemma gen_remove_gen_add:
  assumes "wf_props ps" and "fst (gen_add s ps) = None" and "restorable root s ps"
    and "s_props s \<noteq> None" and "root \<longrightarrow> ps \<noteq> None"
  shows "gen_remove root (snd (gen_add s ps)) ps = (if root then drop_empty_objects s else s)"
  using assms
proof (induction "props_size ps" arbitrary: root s ps rule: less_induct)
  case less
  consider "ps = None" | "ps = Some []" | n v rest where "ps = Some ((n, v) # rest)"
    by (cases ps) (metis list.exhaust surj_pair)+
  then show ?case
  proof cases
    case (3 n v rest)
    have wf: "n \<notin> mkeys rest" "wf_props (s_props v)" "wf_props (Some rest)"
      using less.prems(1) 3 by (simp_all add: wf_props_Cons)
    have restor: "restorable root s (Some rest)" using less.prems(3) 3 by simp
    have IH: "gen_remove root (snd (gen_add s' (Some rest))) (Some rest) =
        (if root then drop_empty_objects s' else s')"
      if "fst (gen_add s' (Some rest)) = None" "restorable root s' (Some rest)" "s_props s' \<noteq> None" for s'
      using less.hyps[of "Some rest" s' root] that 3 wf by simp
    show ?thesis
    proof (cases "mget (props_of s) n")
      case None
      show ?thesis
        unfolding 3
        by (rule undo_new_property[OF wf(1) None less.prems(4) _ _ restor IH])
          (use less.prems(2,3) 3 None in simp_all)
    next
      case (Some inner)
      have obj: "s_type v = ''object''"
        using less.prems(2) 3 Some by (auto split: if_splits)
      obtain inner' where r: "gen_add inner (s_props v) = (None, inner')"
        using less.prems(2) 3 Some obj by (auto split: prod.splits option.splits)
      have undo: "gen_remove False inner' (s_props v) = inner"
        using less.hyps[of "s_props v" inner False] less.prems(3) 3 Some wf(2) r by simp
      show ?thesis
        unfolding 3
        by (rule undo_inner_property[OF wf(1) Some less.prems(4) obj r undo _ restor IH])
          (use less.prems(2) 3 Some obj r in simp_all)
    qed
  qed (use less.prems in simp_all)
qed

section \<open>Properties of the generator\<close>

lemma spec_of_present: "mget (props_of sch) ''spec'' = Some spec \<Longrightarrow> spec_of sch = spec"
  by (simp add: spec_of_def)

lemma grows_spec: "grows (spec_of sch) spec' \<Longrightarrow> grows sch (set_prop ''spec'' spec' sch)"
  by (cases "mget (props_of sch) ''spec''")
     (auto simp: spec_of_def intro: grows_set_prop_new grows_set_prop_inner)

text \<open>
  C5: \<open>Generator.Add\<close> of an extension that is not applied yet never removes or alters a
  definition of the CRD schema: whatever was reachable at a path of property names before is still
  there afterwards with its type and all its other fields, whether the call succeeds or returns
  an error half way.
\<close>

theorem add_never_overrides:
  assumes "mget (g_applied g) name = None" and "g_schema g = Some sch"
    and "generator_add dec g name ext = (r, g')"
  shows "\<exists>sch'. g_schema g' = Some sch' \<and> grows sch sch'"
proof (cases "dec ext")
  case (Inl e)
  with assms show ?thesis by (auto simp: generator_add_def)
next
  case (Inr inp)
  have "grows (spec_of sch) (snd (gen_add (spec_of sch) (s_props inp)))"
    by (rule gen_add_grows)
  with Inr assms show ?thesis
    by (auto simp: generator_add_def Let_def split: prod.splits option.splits if_splits
        intro!: grows_spec intro: grows_shared_map)
qed

text \<open>
  C8: \<open>Generator.Add\<close> succeeds exactly when the extension conflicts with nothing: no property
  of it exists in the spec unless both are objects, and then their properties do not conflict
  either. So the result does not depend on the order in which Go visits the properties.
\<close>

theorem add_succeeds_iff_no_conflict:
  assumes "mget (g_applied g) name = None" and "g_schema g = Some sch" and "s_props sch \<noteq> None"
    and "dec ext = Inr inp" and "wf_props (s_props inp)"
  shows "fst (generator_add dec g name ext) = None \<longleftrightarrow> \<not> conflicts (spec_of sch) (s_props inp)"
proof -
  have "fst (generator_add dec g name ext) = fst (gen_add (spec_of sch) (s_props inp))"
    using assms(1-4) by (auto simp: generator_add_def Let_def split: prod.splits option.splits)
  with gen_add_ok_iff_conflicts[OF assms(5)] show ?thesis by simp
qed

text \<open>
  C18: the order in which Go iterates over the extension's properties changes neither the
  outcome of a merge nor, when it succeeds, what is found under any name.
\<close>

theorem merge_order_irrelevant:
  assumes "wf_props (Some ps)" and "mset ps = mset qs"
  shows "(fst (gen_add s (Some ps)) = None) = (fst (gen_add s (Some qs)) = None) \<and>
    (fst (gen_add s (Some ps)) = None \<longrightarrow>
       mget (props_of (snd (gen_add s (Some ps)))) = mget (props_of (snd (gen_add s (Some qs)))))"
proof -
  have sets: "set ps = set qs" and dist: "gomap_ok ps"
    using assms by (auto simp: wf_props_def dest: mset_eq_setD)
  have "gomap_ok qs"
    using dist assms(2) by (metis gomap_ok_def mset_eq_imp_distinct_iff mset_map)
  with sets assms(1) have wf: "wf_props (Some qs)" by (auto simp: wf_props_def)
  have look: "mget ps = mget qs"
    using dist \<open>gomap_ok qs\<close> sets by (simp add: gomap_ok_def map_of_inject_set)
  have same: "(fst (gen_add s (Some ps)) = None) = (fst (gen_add s (Some qs)) = None)"
    using gen_add_ok_iff_conflicts[OF assms(1)] gen_add_ok_iff_conflicts[OF wf] sets
    by (simp add: conflicts_set)
  with gen_add_lookup[OF assms(1)] gen_add_lookup[OF wf] look show ?thesis
    by (auto simp: fun_eq_iff)
qed

text \<open>Adding and then removing, at the level of the generator.\<close>

definition add_restorable :: "(raw \<Rightarrow> gerr + schema) \<Rightarrow> generator \<Rightarrow> raw \<Rightarrow> bool" where
  "add_restorable dec g ext \<longleftrightarrow>
     (case (g_schema g, dec ext) of
        (Some sch, Inr inp) \<Rightarrow>
          (case mget (props_of sch) ''spec'' of
             None \<Rightarrow> False
           | Some spec \<Rightarrow>
               s_props spec \<noteq> None \<and> s_props inp \<noteq> None \<and> wf_props (s_props inp) \<and>
               \<not> conflicts spec (s_props inp) \<and> restorable True spec (s_props inp) \<and>
               (\<forall>kv \<in> set (props_of spec). \<not> empty_object (snd kv)))
      | _ \<Rightarrow> False)"

lemma drop_empty_none:
  "\<forall>kv \<in> set (props_of s). \<not> empty_object (snd kv) \<Longrightarrow> drop_empty_objects s = s"
  by (cases "s_props s") (auto simp: drop_empty_objects_def intro!: schema_eqI filter_True)

lemma add_restorable_cases:
  assumes "add_restorable dec g ext"
  obtains sch inp spec where "g_schema g = Some sch" "dec ext = Inr inp"
    "mget (props_of sch) ''spec'' = Some spec" "s_props spec \<noteq> None" "s_props inp \<noteq> None"
    "fst (gen_add spec (s_props inp)) = None"
    "gen_remove True (snd (gen_add spec (s_props inp))) (s_props inp) = spec"
  using assms gen_remove_gen_add[where root = True] drop_empty_none gen_add_ok_iff_conflicts
  unfolding add_restorable_def
  by (auto split: option.splits sum.splits)

lemma generator_add_remove:
  assumes "mget (g_applied g) name = None" and "add_restorable dec g ext"
  shows "\<exists>g'. generator_add dec g name ext = (None, g') \<and> mget (g_applied g') name = Some ext \<and>
    generator_remove dec g' name = (None, g)"
proof -
  obtain sch inp spec where sch: "g_schema g = Some sch" and inp: "dec ext = Inr inp"
    and spec: "mget (props_of sch) ''spec'' = Some spec"
    and ok: "fst (gen_add spec (s_props inp)) = None"
    and undo: "gen_remove True (snd (gen_add spec (s_props inp))) (s_props inp) = spec"
    using assms(2) by (rule add_restorable_cases)
  obtain spec' where r: "gen_add spec (s_props inp) = (None, spec')"
    using ok by (cases "gen_add spec (s_props inp)") auto
  have nonnil: "s_props sch \<noteq> None" using spec by (cases "s_props sch") auto
  define g' where
    "g' = g\<lparr>g_applied := mset_key name ext (g_applied g), g_schema := Some (set_prop ''spec'' spec' sch)\<rparr>"
  have add: "generator_add dec g name ext = (None, g')"
    using assms(1) sch inp spec r nonnil
    by (simp add: generator_add_def spec_of_def g'_def Let_def del: not_None_eq)
  have "spec_of (set_prop ''spec'' spec' sch) = spec'"
    by (simp add: spec_of_def mget_update)
  moreover have "set_prop ''spec'' spec (set_prop ''spec'' spec' sch) = sch"
    using spec by (simp add: set_prop_set_prop set_prop_same)
  moreover have "mdel name (mset_key name ext (g_applied g)) = g_applied g"
    using assms(1) by (simp add: delete_update_new mget_None_iff)
  ultimately have "generator_remove dec g' name = (None, g)"
    using inp undo r sch by (simp add: generator_remove_def g'_def mget_update)
  with add show ?thesis by (auto simp: g'_def mget_update)
qed


text \<open>
  applying a new version of an extension that is already applied is the same as applying
  that version to a generator that never saw the old one: nothing of the old version is left.
\<close>

theorem readd_replaces:
  assumes "mget (g_applied g) name = None" and "add_restorable dec g ext"
  shows "generator_add dec (snd (generator_add dec g name ext)) name ext' = generator_add dec g name ext'"
proof -
  obtain g' where add: "generator_add dec g name ext = (None, g')"
    and app: "mget (g_applied g') name = Some ext" and rem: "generator_remove dec g' name = (None, g)"
    using generator_add_remove[OF assms] by blast
  have "generator_add dec g' name ext' = generator_add dec g name ext'"
    using app rem assms(1) by (simp add: generator_add_def)
  with add show ?thesis by simp
qed

text \<open>
  a failed \<open>Generator.Add\<close> is not undone. When Go visits a new property of the extension
  before the conflicting one, that property stays in the CRD schema although the call returns an
  error, and since the extension is not recorded as applied, \<open>Remove\<close> does not take it out.
\<close>

theorem failed_add_leaks:
  assumes "mget (g_applied g) name = None" and "g_schema g = Some sch"
    and "mget (props_of sch) ''spec'' = Some spec" and "s_props spec \<noteq> None"
    and "dec ext = Inr inp" and "s_props inp = Some ((n, v) # rest)" and "wf_props (s_props inp)"
    and "mget (props_of spec) n = None" and "conflicts spec (Some rest)"
  shows "\<exists>e g'. generator_add dec g name ext = (Some e, g') \<and>
    at (the (g_schema g')) [''spec'', n] = Some v \<and> generator_remove dec g' name = (None, g')"
proof -
  have wf: "n \<notin> mkeys rest" "wf_props (Some rest)"
    using assms(6,7) by (simp_all add: wf_props_Cons)
  have "fst (gen_add (set_prop n v spec) (Some rest)) \<noteq> None"
    using gen_add_ok_iff_conflicts[OF wf(2), of "set_prop n v spec"] wf(1) assms(9) by simp
  then obtain e spec' where r: "gen_add (set_prop n v spec) (Some rest) = (Some e, spec')"
    by (cases "gen_add (set_prop n v spec) (Some rest)") auto
  have look: "mget (props_of spec') n = Some v"
    using gen_add_untouched[OF wf(1), of "set_prop n v spec"] r by (simp add: mget_update)
  have "generator_add dec g name ext =
    (Some e, g\<lparr>g_schema := Some (set_prop ''spec'' (shared_map spec spec') sch)\<rparr>)"
    using assms(1,2,3,5,6,8) r by (simp add: generator_add_def spec_of_def)
  moreover have "mget (props_of (shared_map spec spec')) n = Some v"
    using look assms(4) by (auto simp: shared_map_def props_of_def)
  ultimately show ?thesis
    using assms(1) by (simp add: mget_update generator_remove_def)
qed

subsection \<open>A concrete generator\<close>

definition ex_leaf :: schema where
  "ex_leaf = Schema ''string'' None (JObj [])"

definition ex_generator :: generator where
  "ex_generator = \<lparr>g_schema = Some (Schema ''object''
      (Some [(''spec'', Schema ''object'' (Some [(''image'', ex_leaf)]) (JObj []))]) (JObj [])),
    g_kind = ''Application'', g_applied = []\<rparr>"

definition ex_nested :: schema where
  "ex_nested = Schema ''object'' (Some [(''a'', Schema ''object''
     (Some [(''b'', Schema ''object'' (Some [(''c'', ex_leaf)]) (JObj []))]) (JObj []))]) (JObj [])"

definition ex_flat :: schema where
  "ex_flat = Schema ''object'' (Some [(''a'', ex_leaf)]) (JObj [])"

fun ex_dec :: "raw \<Rightarrow> gerr + schema" where
  "ex_dec (RawJSON (JStr s)) = (if s = ''nested'' then Inr ex_nested else Inr ex_flat)"
| "ex_dec _ = Inl (EMsg ''invalid character'')"

text \<open>
  removing an extension can leave part of it behind. The clean-up of empty objects looks at
  the top of the spec only, so an object that the extension put inside another object stays: here
  \<open>a.b\<close> survives the removal of the extension that introduced \<open>a\<close>, and a later extension
  that defines \<open>a\<close> as a string is refused.
\<close>

theorem nested_object_survives_removal:
  "let g1 = snd (generator_add ex_dec ex_generator ''first'' (RawJSON (JStr ''nested'')));
       g2 = snd (generator_remove ex_dec g1 ''first'')
   in fst (generator_remove ex_dec g1 ''first'') = None \<and> g_applied g2 = [] \<and>
      at (the (g_schema g2)) [''spec'', ''a'', ''b''] \<noteq> None \<and>
      fst (generator_add ex_dec g2 ''second'' (RawJSON (JStr ''flat''))) = Some (EAlreadyDefined ''a'')"
  by code_simp

subsection \<open>Witnesses\<close>

lemma ex_fresh: "mget (g_applied ex_generator) ''first'' = None"
  by (simp add: ex_generator_def)

lemma ex_restorable: "add_restorable ex_dec ex_generator (RawJSON (JStr ''flat''))"
  by (simp add: add_restorable_def ex_generator_def ex_flat_def ex_leaf_def wf_props_def
      empty_object_def)

theorem add_never_overrides_witness:
  "\<exists>sch'. g_schema (snd (generator_add ex_dec ex_generator ''first'' (RawJSON (JStr ''flat'')))) = Some sch' \<and>
     grows (the (g_schema ex_generator)) sch'"
  by (rule add_never_overrides[OF ex_fresh _ prod.collapse[symmetric]]) (simp add: ex_generator_def)

theorem add_succeeds_iff_no_conflict_witness:
  "fst (generator_add ex_dec ex_generator ''first'' (RawJSON (JStr ''flat''))) = None"
  using add_succeeds_iff_no_conflict[OF ex_fresh, of _ ex_dec "RawJSON (JStr ''flat'')" ex_flat]
  by (simp add: ex_generator_def ex_flat_def ex_leaf_def spec_of_def wf_props_def)

theorem merge_order_irrelevant_witness:
  "fst (gen_add ex_flat (Some [(''x'', ex_leaf), (''a'', ex_leaf)])) \<noteq> None \<and>
   fst (gen_add ex_flat (Some [(''a'', ex_leaf), (''x'', ex_leaf)])) \<noteq> None"
  using merge_order_irrelevant[of "[(''x'', ex_leaf), (''a'', ex_leaf)]"
      "[(''a'', ex_leaf), (''x'', ex_leaf)]" ex_flat]
  by (simp add: wf_props_def ex_leaf_def ex_flat_def props_of_def)


theorem readd_replaces_witness:
  "generator_add ex_dec (snd (generator_add ex_dec ex_generator ''first'' (RawJSON (JStr ''flat''))))
     ''first'' (RawJSON (JStr ''nested'')) =
   generator_add ex_dec ex_generator ''first'' (RawJSON (JStr ''nested''))"
  by (rule readd_replaces[OF ex_fresh ex_restorable])

definition ex_conflict :: schema where
  "ex_conflict = Schema ''object'' (Some [(''new'', ex_leaf), (''image'', ex_leaf)]) (JObj [])"

theorem failed_add_leaks_witness:
  "\<exists>e g'. generator_add (\<lambda>_. Inr ex_conflict) ex_generator ''first'' RawNil = (Some e, g') \<and>
    at (the (g_schema g')) [''spec'', ''new''] = Some ex_leaf \<and>
    generator_remove (\<lambda>_. Inr ex_conflict) g' ''first'' = (None, g')"
  by (rule failed_add_leaks[OF ex_fresh, where inp = ex_conflict and rest = "[(''image'', ex_leaf)]"
        and spec = "Schema ''object'' (Some [(''image'', ex_leaf)]) (JObj [])"
        and sch = "the (g_schema ex_generator)"])
     (simp_all add: ex_generator_def ex_conflict_def ex_leaf_def wf_props_def)

end
