(* ===== verification/Api_Facts.thy ===== *)
theory Api_Facts
  imports Api Specgen_Facts
begin

text \<open>
  Properties of the custom resources: the spliced JSON of an application spec, its hash, and what
  the webhook of Extension accepts.
\<close>

section \<open>MarshalJSON\<close>

definition known_keys :: "string list" where
  "known_keys = [''port'', ''command'', ''image'', ''env'', ''envFrom'', ''resources'']"

lemma app_known_members_ne [simp]: "app_known_members a \<noteq> []"
  by (simp add: app_known_members_def)

lemma app_known_members_keys: "mkeys (app_known_members a) \<subseteq> set known_keys"
  by (auto simp: app_known_members_def opt_member_def known_keys_def mkeys_def split: option.splits)

lemma app_known_members_ok [simp]: "gomap_ok (app_known_members a)"
  by (simp add: app_known_members_def opt_member_def gomap_ok_def split: option.splits)

text \<open>
  C34: \<open>ApplicationSpec.MarshalJSON\<close> prints one well-formed JSON object: cutting the closing
  brace off the known fields, writing a comma and appending the other fields without their
  opening brace gives exactly the text of the object that has the known members followed by the
  members of \<open>Rest\<close>. (The comma is always right because \<open>image\<close> has no \<open>omitempty\<close>, so the
  first object is never empty.)
\<close>

theorem marshal_json_spells: "app_marshal_json a = json_print (app_spec_json a)"
proof (cases "as_rest a = []")
  case True
  then show ?thesis by (simp add: app_marshal_json_def app_spec_json_def del: json_print.simps)
next
  case False
  let ?k = "map json_member (app_known_members a)" and ?r = "map json_member (as_rest a)"
  have "intersperse_comma (?k @ ?r) = intersperse_comma ?k @ CHR '','' # intersperse_comma ?r"
    using False by (intro intersperse_comma_append) auto
  with False show ?thesis
    unfolding app_marshal_json_def app_spec_json_def json_print_obj
    by (simp add: Let_def)
qed

text \<open>
  decoding what was encoded gives the spec back. \<open>marshmallow.Unmarshal\<close> is assumed to do
  what it documents on this payload: fill the known fields and return the other members. Then
  \<open>UnmarshalJSON\<close> of the payload of \<open>GetSpec\<close> returns the spec, whatever the receiver was.
\<close>

theorem spec_json_roundtrip:
  assumes "mm (get_spec (Some ap)) = Inr ((ap_spec ap)\<lparr>as_rest := []\<rparr>, as_rest (ap_spec ap))"
  shows "app_unmarshal_json mm (get_spec (Some ap)) b = (None, ap_spec ap)"
  using assms by (simp add: app_unmarshal_json_def)

lemma unmarshal_get_spec:
  assumes "gomap_ok (as_rest (ap_spec ap))" and "mkeys (as_rest (ap_spec ap)) \<inter> set known_keys = {}"
  shows "unmarshal_map (get_spec (Some ap)) =
    Inr (Some (app_known_members (ap_spec ap) @ as_rest (ap_spec ap)))"
proof -
  have "gomap_ok (app_known_members (ap_spec ap) @ as_rest (ap_spec ap))"
    using assms app_known_members_keys[of "ap_spec ap"] app_known_members_ok[of "ap_spec ap"]
    unfolding gomap_ok_def mkeys_def by (auto simp: image_iff)
  then show ?thesis by (simp add: get_spec_def app_spec_json_def obj_map_ok)
qed

section \<open>Hash\<close>

lemma hex_digit_code:
  "d < 16 \<Longrightarrow> (of_char (hex_digit d) :: nat) = (if d < 10 then 48 + d else 87 + d)"
  by (simp add: hex_digit_def)

lemma hex_digit_inj: "d < 16 \<Longrightarrow> e < 16 \<Longrightarrow> hex_digit d = hex_digit e \<Longrightarrow> d = e"
proof -
  assume "d < 16" "e < 16" "hex_digit d = hex_digit e"
  then have "(if d < 10 then 48 + d else 87 + d) = (if e < 10 then 48 + e else 87 + e)"
    by (metis hex_digit_code)
  then show "d = e" by (simp split: if_split_asm)
qed

lemma hex_rev_inj: "hex_rev n = hex_rev m \<Longrightarrow> n = m"
proof (induction n arbitrary: m rule: hex_rev.induct)
  case (1 n)
  have "hex_digit (n mod 16) = hex_digit (m mod 16)"
    using "1.prems" by (simp add: hex_rev.simps[of n] hex_rev.simps[of m])
  then have low: "n mod 16 = m mod 16" by (intro hex_digit_inj) simp_all
  have ne: "hex_rev k \<noteq> []" for k by (simp add: hex_rev.simps[of k])
  have "n < 16 \<longleftrightarrow> m < 16"
    using "1.prems" ne ne[symmetric]
    by (auto simp: hex_rev.simps[of n] hex_rev.simps[of m] split: if_splits)
  moreover have "n div 16 = m div 16" if "\<not> n < 16" and "\<not> m < 16"
    using "1.IH"[OF that(1), of "m div 16"] "1.prems" that
    by (simp add: hex_rev.simps[of n] hex_rev.simps[of m])
  ultimately have "n div 16 = m div 16" by fastforce
  with low show ?case by (metis div_mult_mod_eq)
qed

lemma format_hex_inj: "format_hex g = format_hex h \<longleftrightarrow> g = h"
  by (auto simp: format_hex_def intro: unsigned_word_eqI dest: hex_rev_inj)

text \<open>
  two applications have the same hash text exactly when the structure hashes of their specs
  and labels are the same 64-bit number: the hexadecimal text loses nothing. In particular the
  status hash changes only when spec or labels change, never with annotations, status or
  finalizers.
\<close>

theorem hash_text_faithful:
  assumes "hashf (ap_spec a, om_labels (ap_meta a)) = Inr g"
    and "hashf (ap_spec b, om_labels (ap_meta b)) = Inr h"
  shows "app_hash hashf (Some a) = app_hash hashf (Some b) \<longleftrightarrow> g = h"
  using assms by (simp add: app_hash_def format_hex_inj)

section \<open>The webhook\<close>

text \<open>What the webhook demands of an extension.\<close>

definition extension_acceptable ::
    "(raw \<Rightarrow> gerr + schema) \<Rightarrow> (string \<Rightarrow> string \<Rightarrow> string + (string, raw) gomap) \<Rightarrow> extension \<Rightarrow> bool" where
  "extension_acceptable dec getter r \<longleftrightarrow>
     set (es_targets (ex_spec r)) \<subseteq> {''Application'', ''Work''} \<and>
     (\<exists>props. dec (es_schema (ex_spec r)) = Inr props \<and> s_type props = ''object'' \<and>
        (props_of props \<noteq> [] \<or> es_always (ex_spec r))) \<and>
     (\<forall>w. cs_wasi (es_controller (ex_spec r)) = Some w \<longrightarrow>
        wc_image w \<noteq> '''' \<and> (\<exists>files. getter (wc_image w) (wc_tag w) = Inr files))"

lemma validateSpecTarget_None:
  "validateSpecTarget r = None \<longleftrightarrow> set (es_targets (ex_spec r)) \<subseteq> {''Application'', ''Work''}"
proof -
  have "validateSpecTarget r = None \<longleftrightarrow>
      List.find (\<lambda>t. t \<noteq> ''Application'' \<and> t \<noteq> ''Work'') (es_targets (ex_spec r)) = None"
    by (simp add: validateSpecTarget_def split: option.split)
  then show ?thesis by (auto simp: find_None_iff)
qed

lemma validateSpecOpenAPIV3Schema_None:
  "validateSpecOpenAPIV3Schema dec rt r = None \<longleftrightarrow>
     (\<exists>props. dec (es_schema (ex_spec r)) = Inr props \<and> s_type props = ''object'' \<and>
        (props_of props \<noteq> [] \<or> es_always (ex_spec r)))"
  by (auto simp: validateSpecOpenAPIV3Schema_def Let_def split: sum.splits)

lemma validateWASIImage_None:
  "validateWASIImage getter r = None \<longleftrightarrow>
     (\<forall>w. cs_wasi (es_controller (ex_spec r)) = Some w \<longrightarrow>
        wc_image w \<noteq> '''' \<and> (\<exists>files. getter (wc_image w) (wc_tag w) = Inr files))"
  by (auto simp: validateWASIImage_def Let_def split: option.splits sum.splits)

lemma webhook_acceptance: "validateExtension dec rt getter r = None \<longleftrightarrow> extension_acceptable dec getter r"
proof -
  have "validateSpec dec rt getter r = [] \<longleftrightarrow> extension_acceptable dec getter r"
    unfolding extension_acceptable_def validateSpecTarget_None[symmetric]
      validateSpecOpenAPIV3Schema_None[of dec rt, symmetric] validateWASIImage_None[symmetric]
    by (simp add: validateSpec_def map_filter_simps split: option.splits)
  then show ?thesis by (simp add: validateExtension_def Let_def)
qed

text \<open>
  the create and update webhook admits an extension exactly when every target is Application
  or Work, the schema decodes to an object that has a property or is marked Always, and a WASI
  controller names an image that the registry serves. Otherwise the error lists one entry per
  failed check, in the order target, schema, image.
\<close>

theorem webhook_admits_iff:
  "(validateExtension dec rt getter r = None \<longleftrightarrow> extension_acceptable dec getter r) \<and>
   (validateExtension dec rt getter r \<noteq> None \<longrightarrow>
      validateExtension dec rt getter r = Some (EInvalid (ex_name r)
        (List.map_filter id [validateSpecTarget r, validateSpecOpenAPIV3Schema dec rt r,
           validateWASIImage getter r])))"
  using webhook_acceptance[of dec rt getter r] by (auto simp: validateExtension_def Let_def validateSpec_def)

section \<open>Witnesses\<close>

definition ex_app :: application where
  "ex_app = \<lparr>ap_kind = ''Application'', ap_apiVersion = ''suffiks.com/v1'',
     ap_meta = zero_meta\<lparr>om_name := ''demo'', om_namespace := ''default'',
       om_finalizers := [''suffiks.suffiks.com/finalizer'']\<rparr>,
     ap_spec = zero_app_spec\<lparr>as_port := 8080, as_image := ''nginx'',
       as_rest := [(''ingresses'', JArr [JStr ''a.example''])]\<rparr>,
     ap_status = \<lparr>st_availableReplicas = 0, st_replicas = 0, st_hash = '''', st_extensions = []\<rparr>\<rparr>"

theorem spec_json_roundtrip_witness:
  "app_unmarshal_json (\<lambda>b. Inr ((ap_spec ex_app)\<lparr>as_rest := []\<rparr>, as_rest (ap_spec ex_app)))
     (get_spec (Some ex_app)) zero_app_spec = (None, ap_spec ex_app)"
  by (rule spec_json_roundtrip) simp

theorem hash_text_faithful_witness:
  "app_hash (\<lambda>_. Inr 255) (Some ex_app) = app_hash (\<lambda>_. Inr 255) (Some ex_app)
   \<longleftrightarrow> (255 :: 64 word) = 255"
  by (rule hash_text_faithful) simp_all

definition ex_extension :: extension where
  "ex_extension = \<lparr>ex_meta = zero_meta\<lparr>om_name := ''ingress''\<rparr>,
     ex_spec = \<lparr>es_targets = [''Application''], es_schema = RawJSON (JStr ''flat''),
       es_controller = \<lparr>cs_grpc = Some \<lparr>gc_namespace = ''system'', gc_service = ''ing'', gc_port = 4269\<rparr>,
         cs_wasi = None\<rparr>,
       es_webhooks = \<lparr>wh_validation = True, wh_defaulting = True\<rparr>, es_always = False\<rparr>,
     ex_status = StatusNone\<rparr>"

theorem webhook_admits_iff_witness:
  "validateExtension ex_dec (\<lambda>_. '''') (\<lambda>_ _. Inl ''no registry'') ex_extension = None \<and>
   validateExtension ex_dec (\<lambda>_. '''') (\<lambda>_ _. Inl ''no registry'')
     (ex_extension\<lparr>ex_spec := (ex_spec ex_extension)\<lparr>es_targets := [''Pod'']\<rparr>\<rparr>) \<noteq> None"
  using webhook_admits_iff[of ex_dec "\<lambda>_. ''''" "\<lambda>_ _. Inl ''no registry''" ex_extension]
    webhook_admits_iff[of ex_dec "\<lambda>_. ''''" "\<lambda>_ _. Inl ''no registry''"
      "ex_extension\<lparr>ex_spec := (ex_spec ex_extension)\<lparr>es_targets := [''Pod'']\<rparr>\<rparr>"]
  by (simp add: extension_acceptable_def ex_extension_def ex_flat_def)

end
