(* ===== verification/Protocol.thy ===== *)
theory Protocol
  imports Api
begin

text \<open>
  The messages of the extension protocol, \<open>extension/protogen/extension.pb.go\<close>: what suffiks
  sends to an extension and what it streams back. The bookkeeping fields of the generated
  structs (\<open>state\<close>, \<open>sizeCache\<close>, \<open>unknownFields\<close>) and their reflection methods are left out.
\<close>

section \<open>Enumerations\<close>

text \<open>
  A protobuf enumeration is open: any 32-bit value may arrive. The values with a name are
  constants here.
\<close>

type_synonym validation_type = int

definition VT_CREATE :: validation_type where "VT_CREATE = 0"
definition VT_UPDATE :: validation_type where "VT_UPDATE = 1"
definition VT_DELETE :: validation_type where "VT_DELETE = 2"

type_synonym env_from_type = int

definition EFT_CONFIGMAP :: env_from_type where "EFT_CONFIGMAP = 0"
definition EFT_SECRET :: env_from_type where "EFT_SECRET = 1"

lemmas protocol_enum = VT_CREATE_def VT_UPDATE_def VT_DELETE_def EFT_CONFIGMAP_def EFT_SECRET_def

section \<open>Requests\<close>

record owner =
  ow_kind :: string
  ow_name :: string
  ow_namespace :: string
  ow_apiVersion :: string
  ow_uid :: string
  ow_labels :: "(string, string) gomap"
  ow_annotations :: "(string, string) gomap"
  ow_revisionID :: string

text \<open>Sub-messages are pointers: \<open>None\<close> is nil.\<close>

record sync_request =
  sr_owner :: "owner option"
  sr_spec :: raw

record validation_request =
  vr_type :: validation_type
  vr_sync :: "sync_request option"
  vr_old :: "sync_request option"

text \<open>\<open>GetOwner\<close>, \<open>GetSpec\<close>, \<open>GetSync\<close>, \<open>GetOld\<close> and \<open>GetType\<close> are safe on a nil receiver.\<close>

definition sync_get_owner :: "sync_request option \<Rightarrow> owner option" where
  "sync_get_owner s = (case s of None \<Rightarrow> None | Some r \<Rightarrow> sr_owner r)"

definition sync_get_spec :: "sync_request option \<Rightarrow> raw" where
  "sync_get_spec s = (case s of None \<Rightarrow> RawNil | Some r \<Rightarrow> sr_spec r)"

definition validation_get_sync :: "validation_request option \<Rightarrow> sync_request option" where
  "validation_get_sync v = (case v of None \<Rightarrow> None | Some r \<Rightarrow> vr_sync r)"

definition validation_get_old :: "validation_request option \<Rightarrow> sync_request option" where
  "validation_get_old v = (case v of None \<Rightarrow> None | Some r \<Rightarrow> vr_old r)"

definition validation_get_type :: "validation_request option \<Rightarrow> validation_type" where
  "validation_get_type v = (case v of None \<Rightarrow> VT_CREATE | Some r \<Rightarrow> vr_type r)"

section \<open>Responses\<close>

record key_value =
  kv_name :: string
  kv_value :: string

record env_from_msg =
  em_name :: string
  em_optional :: bool
  em_type :: env_from_type

text \<open>
  \<open>Response.OFResponse\<close>, a protobuf oneof. \<open>RNone\<close> is the unset oneof. A container is kept as
  the JSON that \<open>json.Marshal\<close> prints of it.
\<close>

datatype response =
    REnv key_value
  | RLabel key_value
  | RAnnotation key_value
  | REnvFrom env_from_msg
  | RInitContainer json
  | RContainer json
  | RMergePatch raw
  | RNone

record validation_error =
  ve_path :: string
  ve_detail :: string
  ve_value :: string

record validation_response =
  vs_errors :: "validation_error list"

record default_response =
  ds_spec :: raw

record delete_response =
  dr_error :: string

record documentation_response =
  dc_pages :: "string list"

end
