(* ===== verification/Wasi_Abi.thy ===== *)
theory Wasi_Abi
  imports Protocol
begin

text \<open>
  What the WASI host and a guest module agree on (\<open>internal/waruntime\<close>): byte slices passed as
  one 64-bit word, the numeric error codes, the exported functions a module must have, and the
  permission keys.
\<close>

section \<open>Byte slices in guest memory\<close>

type_synonym byte = "8 word"

text \<open>
  The guest's memory and its exported \<open>malloc\<close>, as the runtime (wazero) gives access to them:
  \<open>None\<close> of a read or a write is the \<open>false\<close> of the runtime, an address out of range.
\<close>

record 'm guest =
  gm_read :: "32 word \<Rightarrow> 32 word \<Rightarrow> 'm \<Rightarrow> byte list option"
  gm_write :: "32 word \<Rightarrow> byte list \<Rightarrow> 'm \<Rightarrow> 'm option"
  gm_malloc :: "64 word \<Rightarrow> 'm \<Rightarrow> (gerr + 64 word) \<times> 'm"

text \<open>\<open>uint64(ptr)<<32 | uint64(len(b))\<close>; a 64-bit value of which the upper half is the address.\<close>

definition pack :: "64 word \<Rightarrow> nat \<Rightarrow> 64 word" where
  "pack p n = or (push_bit 32 p) (of_nat n)"

definition unpack_ptr :: "64 word \<Rightarrow> 32 word" where
  "unpack_ptr w = ucast (drop_bit 32 w)"

definition unpack_size :: "64 word \<Rightarrow> 32 word" where
  "unpack_size w = ucast w"

definition writeByteSlice :: "'m guest \<Rightarrow> byte list \<Rightarrow> 'm \<Rightarrow> (gerr + 64 word) \<times> 'm" where
  "writeByteSlice g b m =
     (case gm_malloc g (of_nat (length b)) m of
        (Inl e, m1) \<Rightarrow> (Inl (EPanic ''marshalProto''), m1)
      | (Inr p, m1) \<Rightarrow>
          (case gm_write g (ucast p) b m1 of
             None \<Rightarrow> (Inl (EPanic ''marshalProto: unable to write to memory''), m1)
           | Some m2 \<Rightarrow> (Inr (pack p (length b)), m2)))"

definition readByteSlice :: "'m guest \<Rightarrow> 64 word \<Rightarrow> 'm \<Rightarrow> gerr + byte list" where
  "readByteSlice g ptrAndSize m =
     (case gm_read g (unpack_ptr ptrAndSize) (unpack_size ptrAndSize) m of
        None \<Rightarrow> Inl (EPanic ''failed to read memory'')
      | Some b \<Rightarrow> Inr b)"

text \<open>\<open>unmarshalProto\<close>; the decoder of the message type is a parameter.\<close>

definition unmarshalProto ::
    "'m guest \<Rightarrow> (byte list \<Rightarrow> gerr + 'v) \<Rightarrow> 32 word \<Rightarrow> 32 word \<Rightarrow> 'm \<Rightarrow> gerr + 'v" where
  "unmarshalProto g dec ptr sz m =
     (case gm_read g ptr sz m of
        None \<Rightarrow> Inl (EPanic ''failed to read memory'')
      | Some b \<Rightarrow> (case dec b of Inl e \<Rightarrow> Inl (EPanic ''unable to unmarshal'') | Inr v \<Rightarrow> Inr v))"

definition marshalProto ::
    "'m guest \<Rightarrow> ('v \<Rightarrow> gerr + byte list) \<Rightarrow> 'v \<Rightarrow> 'm \<Rightarrow> (gerr + 64 word) \<times> 'm" where
  "marshalProto g enc v m =
     (case enc v of
        Inl e \<Rightarrow> (Inl (EPanic ''marshalProto''), m)
      | Inr b \<Rightarrow> writeByteSlice g b m)"

lemma unpack_ptr_pack:
  assumes "n < 2 ^ 32"
  shows "unpack_ptr (pack p n) = ucast p"
proof (rule bit_word_eqI)
  fix i assume i: "i < LENGTH(32)"
  have "(of_nat n :: 64 word) = take_bit 32 (of_nat n)"
    using assms by (simp flip: of_nat_take_bit add: take_bit_nat_eq_self)
  then have hi: "\<not> bit (of_nat n :: 64 word) (32 + i)"
    by (metis bit_take_bit_iff not_add_less1)
  show "bit (unpack_ptr (pack p n)) i \<longleftrightarrow> bit (ucast p :: 32 word) i"
    using i hi by (auto simp: unpack_ptr_def pack_def bit_simps)
qed

lemma unpack_size_pack: "unpack_size (pack p n) = of_nat n"
proof (rule bit_word_eqI)
  fix i assume i: "i < LENGTH(32)"
  then show "bit (unpack_size (pack p n)) i \<longleftrightarrow> bit (of_nat n :: 32 word) i"
    by (auto simp: unpack_size_def pack_def bit_simps)
qed

text \<open>
  What the runtime documents of guest memory: bytes written inside the memory are read back.
\<close>

definition guest_law :: "'m guest \<Rightarrow> bool" where
  "guest_law g \<longleftrightarrow> (\<forall>p b m m'. gm_write g p b m = Some m' \<longrightarrow> length b < 2 ^ 32 \<longrightarrow>
     gm_read g p (of_nat (length b)) m' = Some b)"

text \<open>
  C24: A byte slice the host writes for the guest is read back from the word that describes it:
  packing loses neither the address nor the length of any slice shorter than \<open>2 ^ 32\<close> bytes.
\<close>

theorem byte_slice_roundtrip:
  assumes "guest_law g" "length b < 2 ^ 32"
    and "writeByteSlice g b m = (Inr w, m')"
  shows "readByteSlice g w m' = Inr b"
proof -
  obtain p m1 where "gm_write g (ucast p) b m1 = Some m'" and w: "w = pack p (length b)"
    using assms(3) by (auto simp: writeByteSlice_def split: prod.splits sum.splits option.splits)
  with assms(1,2) have "gm_read g (ucast p) (of_nat (length b)) m' = Some b"
    by (auto simp: guest_law_def)
  then show ?thesis
    using assms(2) by (simp add: readByteSlice_def w unpack_ptr_pack unpack_size_pack)
qed

section \<open>Client errors\<close>

datatype client_error =
    CEUnknown | CENotFound | CEAlreadyExists | CEInvalid | CEForbidden | CEConflict | CEBadRequest
  | CEGone | CEInternalError | CEMethodNotSupported | CENotAcceptable | CEEntityTooLarge
  | CEResourceExpired | CEServerTimeout | CEServiceUnavailable | CETimeout | CETooManyRequests
  | CEUnauthorized | CEUnexpectedObject | CEUnexpectedServerError | CEUnsupportedMediaType

text \<open>The constants are an \<open>iota\<close> block: each has the number of its place.\<close>

fun client_error_code :: "client_error \<Rightarrow> nat" where
  "client_error_code CEUnknown = 0"
| "client_error_code CENotFound = 1"
| "client_error_code CEAlreadyExists = 2"
| "client_error_code CEInvalid = 3"
| "client_error_code CEForbidden = 4"
| "client_error_code CEConflict = 5"
| "client_error_code CEBadRequest = 6"
| "client_error_code CEGone = 7"
| "client_error_code CEInternalError = 8"
| "client_error_code CEMethodNotSupported = 9"
| "client_error_code CENotAcceptable = 10"
| "client_error_code CEEntityTooLarge = 11"
| "client_error_code CEResourceExpired = 12"
| "client_error_code CEServerTimeout = 13"
| "client_error_code CEServiceUnavailable = 14"
| "client_error_code CETimeout = 15"
| "client_error_code CETooManyRequests = 16"
| "client_error_code CEUnauthorized = 17"
| "client_error_code CEUnexpectedObject = 18"
| "client_error_code CEUnexpectedServerError = 19"
| "client_error_code CEUnsupportedMediaType = 20"

lemma client_error_code_inj: "client_error_code a = client_error_code b \<longleftrightarrow> a = b"
  by (cases a; cases b) simp_all

lemma client_error_code_le: "client_error_code a \<le> 20"
  by (cases a) simp_all

instantiation client_error :: linorder
begin

definition less_eq_client_error :: "client_error \<Rightarrow> client_error \<Rightarrow> bool" where
  "less_eq_client_error a b \<longleftrightarrow> client_error_code a \<le> client_error_code b"

definition less_client_error :: "client_error \<Rightarrow> client_error \<Rightarrow> bool" where
  "less_client_error a b \<longleftrightarrow> client_error_code a < client_error_code b"

instance
  by intro_classes
    (auto simp: less_eq_client_error_def less_client_error_def client_error_code_inj)

end

text \<open>The predicates of \<open>apierrors\<close> that are tried, each with the code it gives, in order.\<close>

datatype api_check =
    IsAlreadyExists | IsNotFound | IsForbidden | IsInvalid | IsConflict | IsBadRequest | IsGone
  | IsInternalError | IsMethodNotSupported | IsNotAcceptable | IsRequestEntityTooLargeError
  | IsResourceExpired | IsServerTimeout | IsServiceUnavailable | IsTimeout | IsTooManyRequests
  | IsUnauthorized | IsUnexpectedObjectError | IsUnexpectedServerError | IsUnsupportedMediaType

definition client_error_table :: "(api_check \<times> client_error) list" where
  "client_error_table =
     [(IsAlreadyExists, CEAlreadyExists), (IsNotFound, CENotFound), (IsForbidden, CEForbidden),
      (IsInvalid, CEInvalid), (IsConflict, CEConflict), (IsBadRequest, CEBadRequest),
      (IsGone, CEGone), (IsInternalError, CEInternalError),
      (IsMethodNotSupported, CEMethodNotSupported), (IsNotAcceptable, CENotAcceptable),
      (IsRequestEntityTooLargeError, CEEntityTooLarge), (IsResourceExpired, CEResourceExpired),
      (IsServerTimeout, CEServerTimeout), (IsServiceUnavailable, CEServiceUnavailable),
      (IsTimeout, CETimeout), (IsTooManyRequests, CETooManyRequests),
      (IsUnauthorized, CEUnauthorized), (IsUnexpectedObjectError, CEUnexpectedObject),
      (IsUnexpectedServerError, CEUnexpectedServerError),
      (IsUnsupportedMediaType, CEUnsupportedMediaType)]"

fun first_code :: "('e \<Rightarrow> api_check \<Rightarrow> bool) \<Rightarrow> 'e \<Rightarrow> (api_check \<times> client_error) list \<Rightarrow> client_error" where
  "first_code is_err e [] = CEUnknown"
| "first_code is_err e ((c, code) # rest) = (if is_err e c then code else first_code is_err e rest)"

text \<open>\<open>toClientError\<close>; \<open>is_err\<close> gives the answers of the \<open>apierrors\<close> predicates.\<close>

definition toClientError :: "('e \<Rightarrow> api_check \<Rightarrow> bool) \<Rightarrow> 'e \<Rightarrow> client_error" where
  "toClientError is_err e = first_code is_err e client_error_table"

definition client_error_word :: "client_error \<Rightarrow> 64 word" where
  "client_error_word c = of_nat (client_error_code c)"

lemma first_code_unknown:
  "CEUnknown \<notin> snd ` set t \<Longrightarrow>
   first_code is_err e t = CEUnknown \<longleftrightarrow> (\<forall>c \<in> fst ` set t. \<not> is_err e c)"
  by (induction t) (auto split: if_splits)

lemma every_check_listed: "c \<in> fst ` set client_error_table"
  by (cases c) (simp_all add: client_error_table_def)

lemma toClientError_unknown: "toClientError is_err e = CEUnknown \<longleftrightarrow> (\<forall>c. \<not> is_err e c)"
proof -
  have "CEUnknown \<notin> snd ` set client_error_table" by (simp add: client_error_table_def)
  from first_code_unknown[OF this, of is_err e] show ?thesis
    unfolding toClientError_def using every_check_listed by blast
qed

lemma client_error_word_lt: "client_error_word c < 2 ^ 32"
  using client_error_code_le[of c]
  by (simp add: client_error_word_def word_less_nat_alt unat_of_nat)

lemma client_error_word_0: "client_error_word c = 0 \<longleftrightarrow> c = CEUnknown"
  using client_error_code_inj[of c CEUnknown] client_error_code_le[of c]
  by (simp add: client_error_word_def word_unat_eq_iff unat_of_nat)

text \<open>A packed slice looks like an error code exactly when its address is 0.\<close>

lemma unat_drop_bit_32: "unat (drop_bit 32 (w :: 64 word)) = unat w div 2 ^ 32"
  by (simp only: unat_drop_bit_eq) (simp only: drop_bit_eq_div)

lemma drop_bit_32_eq_0: "drop_bit 32 w = (0 :: 64 word) \<longleftrightarrow> w < 2 ^ 32"
proof -
  have "unat (2 ^ 32 :: 64 word) = 2 ^ 32" by simp
  then show ?thesis
    by (simp only: word_less_nat_alt word_unat_eq_iff unat_drop_bit_32 unat_0) (auto simp: div_eq_0_iff)
qed

lemma unpack_ptr_0: "unpack_ptr w = 0 \<longleftrightarrow> w < 2 ^ 32"
proof -
  have "unpack_ptr w = 0 \<longleftrightarrow> drop_bit 32 w = 0"
  proof
    assume a: "unpack_ptr w = 0"
    have "unat w < 2 ^ 32 * 2 ^ 32" using unsigned_less[of w] by simp
    then have lt: "unat (drop_bit 32 w) < 2 ^ 32"
      by (simp only: unat_drop_bit_32 less_mult_imp_div_less)
    from a have "take_bit 32 (unat (drop_bit 32 w)) = 0"
      by (simp only: unpack_ptr_def word_unat_eq_iff unsigned_ucast_eq len_num1 len_bit0 unat_0) simp
    with lt show "drop_bit 32 w = 0"
      by (simp only: take_bit_nat_eq_self word_unat_eq_iff unat_0)
  qed (simp add: unpack_ptr_def)
  then show ?thesis by (simp add: drop_bit_32_eq_0)
qed

section \<open>The exports of a module\<close>

text \<open>\<open>api.ValueType\<close> is a byte; the two the host uses.\<close>

type_synonym value_type = nat

definition ValueTypeI32 :: value_type where "ValueTypeI32 = 0x7F"
definition ValueTypeI64 :: value_type where "ValueTypeI64 = 0x7E"

record func_decl =
  fd_name :: string
  fd_args :: "value_type list"
  fd_returns :: "value_type list"

definition requiredFunctions :: "func_decl list" where
  "requiredFunctions =
     [\<lparr>fd_name = ''Sync'', fd_args = [], fd_returns = []\<rparr>,
      \<lparr>fd_name = ''Delete'', fd_args = [], fd_returns = [ValueTypeI64]\<rparr>,
      \<lparr>fd_name = ''Defaulting'', fd_args = [], fd_returns = [ValueTypeI64]\<rparr>,
      \<lparr>fd_name = ''Validate'', fd_args = [ValueTypeI32], fd_returns = []\<rparr>,
      \<lparr>fd_name = ''malloc'', fd_args = [ValueTypeI32], fd_returns = [ValueTypeI32]\<rparr>,
      \<lparr>fd_name = ''free'', fd_args = [ValueTypeI32], fd_returns = []\<rparr>]"

text \<open>The index loop of \<open>equalTypes\<close>: \<open>types_agree a b i\<close> compares from position \<open>i\<close> on.\<close>

fun types_agree :: "value_type list \<Rightarrow> value_type list \<Rightarrow> nat \<Rightarrow> bool" where
  "types_agree [] b i = True"
| "types_agree (t # ts) b i = (if t \<noteq> b ! i then False else types_agree ts b (Suc i))"

definition equalTypes :: "value_type list \<Rightarrow> value_type list \<Rightarrow> bool" where
  "equalTypes a b = (if length a \<noteq> length b then False else types_agree a b 0)"

record module_error =
  me_functions :: "func_decl list"
  me_has :: "func_decl list"

type_synonym exports = "(string, value_type list \<times> value_type list) gomap"

text \<open>\<open>validate\<close>: the exports map a name to its parameter and result types.\<close>

fun bad_functions :: "exports \<Rightarrow> func_decl list \<Rightarrow> func_decl list" where
  "bad_functions funcs [] = []"
| "bad_functions funcs (sig # rest) =
     (case mget funcs (fd_name sig) of
        None \<Rightarrow> sig # bad_functions funcs rest
      | Some (params, results) \<Rightarrow>
          (if \<not> equalTypes results (fd_returns sig) then sig # bad_functions funcs rest
           else if \<not> equalTypes params (fd_args sig) then sig # bad_functions funcs rest
           else bad_functions funcs rest))"

definition validate_module :: "exports \<Rightarrow> module_error option" where
  "validate_module funcs =
     (let bad = bad_functions funcs requiredFunctions
      in if length bad > 0
         then Some \<lparr>me_functions = bad,
                me_has = map (\<lambda>(n, p, r). \<lparr>fd_name = n, fd_args = p, fd_returns = r\<rparr>) funcs\<rparr>
         else None)"

text \<open>The texts of \<open>funcDecl.String\<close> and \<open>ValidationError.Error\<close>.\<close>

fun join_with :: "string \<Rightarrow> string list \<Rightarrow> string" where
  "join_with sep [] = []"
| "join_with sep [s] = s"
| "join_with sep (s # t # ss) = s @ sep @ join_with sep (t # ss)"

definition func_decl_string :: "(value_type \<Rightarrow> string) \<Rightarrow> func_decl \<Rightarrow> string" where
  "func_decl_string type_name f =
     fd_name f @ ''('' @ join_with '', '' (map type_name (fd_args f)) @ '') '' @
     join_with '', '' (map type_name (fd_returns f))"

definition module_error_text :: "(value_type \<Rightarrow> string) \<Rightarrow> module_error \<Rightarrow> string" where
  "module_error_text type_name e =
     ''missing or invalid functions:'' @
     concat (map (\<lambda>f. [CHR 0x0A, CHR 0x09] @ func_decl_string type_name f) (me_functions e)) @
     (if length (me_has e) > 0
      then CHR 0x0A # ''has:'' @
        concat (map (\<lambda>f. [CHR 0x0A, CHR 0x09] @ func_decl_string type_name f) (me_has e))
      else [])"

lemma types_agree_eq:
  "length b = i + length a \<Longrightarrow> types_agree a b i \<longleftrightarrow> a = drop i b"
proof (induction a b i rule: types_agree.induct)
  case (1 b i)
  then show ?case by simp
next
  case (2 t ts b i)
  then have "drop i b = b ! i # drop (Suc i) b" by (simp add: Cons_nth_drop_Suc)
  with 2 show ?case by auto
qed

lemma equalTypes_eq: "equalTypes a b \<longleftrightarrow> a = b"
  by (auto simp: equalTypes_def types_agree_eq)

lemma bad_functions_filter:
  "bad_functions funcs sigs =
     filter (\<lambda>s. mget funcs (fd_name s) \<noteq> Some (fd_args s, fd_returns s)) sigs"
  by (induction sigs) (auto simp: equalTypes_eq split: option.splits)

text \<open>
  A module passes the check exactly when it exports each of the six required functions with
  exactly the required parameter and result types; otherwise the error lists the required
  functions that are missing or have another type, in order, and all exports.
\<close>

theorem validate_module_iff:
  "validate_module funcs =
    (if \<forall>s \<in> set requiredFunctions. mget funcs (fd_name s) = Some (fd_args s, fd_returns s) then None
     else Some \<lparr>me_functions = [s \<leftarrow> requiredFunctions. mget funcs (fd_name s) \<noteq> Some (fd_args s, fd_returns s)],
            me_has = map (\<lambda>(n, p, r). \<lparr>fd_name = n, fd_args = p, fd_returns = r\<rparr>) funcs\<rparr>)"
  by (simp only: validate_module_def Let_def bad_functions_filter length_greater_0_conv filter_empty_conv)
     auto

section \<open>Permissions\<close>

record gvr =
  gv_group :: string
  gv_version :: string
  gv_resource :: string

text \<open>The keys of the permission set that \<open>WASI.init\<close> builds, and the key \<open>isAllowed\<close> looks up.\<close>

definition permissions_of :: "wasi_resource list \<Rightarrow> string list" where
  "permissions_of rs = concat (map (\<lambda>perm. map (\<lambda>method. wasi_resource_string perm @ ''.'' @ method)
     (wr_methods perm)) rs)"

text \<open>\<open>isAllowed\<close>: nil when the key is in the set, a Forbidden error otherwise (also for a nil set).\<close>

definition isAllowed :: "string list option \<Rightarrow> gvr \<Rightarrow> string \<Rightarrow> gerr option" where
  "isAllowed perms g meth =
     (case perms of
        Some ps \<Rightarrow>
          (if gv_group g @ ''/'' @ gv_version g @ ''/'' @ gv_resource g @ ''.'' @ meth \<in> set ps then None
           else Some (EApi RForbidden ''extension is not configured to access this resource''))
      | None \<Rightarrow> Some (EApi RForbidden ''extension is not configured to access this resource''))"

text \<open>
  What the validation patterns of the custom resource guarantee: no slash in a group, version or
  resource, no dot in a resource or a method.
\<close>

definition declared_ok :: "wasi_resource \<Rightarrow> bool" where
  "declared_ok r \<longleftrightarrow> CHR ''/'' \<notin> set (wr_group r) \<and> CHR ''/'' \<notin> set (wr_version r) \<and>
     CHR ''/'' \<notin> set (wr_resource r) \<and> CHR ''.'' \<notin> set (wr_resource r) \<and>
     (\<forall>m \<in> set (wr_methods r). CHR ''.'' \<notin> set m \<and> CHR ''/'' \<notin> set m)"

lemma split_first: "c \<notin> set a \<Longrightarrow> c \<notin> set b \<Longrightarrow> a @ c # x = b @ c # y \<longleftrightarrow> a = b \<and> x = y"
proof (induction a arbitrary: b)
  case Nil
  then show ?case by (cases b) auto
next
  case (Cons d a)
  then show ?case by (cases b) auto
qed

lemma two_slashes:
  assumes "a @ c # b @ c # x = a' @ c # b' @ c # x'"
    and "c \<notin> set a'" "c \<notin> set b'" "c \<notin> set x'"
  shows "a = a' \<and> b = b' \<and> x = x'"
proof -
  have "count_list (a @ c # b @ c # x) c = count_list (a' @ c # b' @ c # x') c"
    by (simp only: assms(1))
  then have "count_list a c = 0" "count_list b c = 0" "count_list x c = 0"
    using assms(2-4) by (simp_all add: count_list_0_iff)
  then have "c \<notin> set a" "c \<notin> set b" by (simp_all add: count_list_0_iff)
  with assms show ?thesis by (simp add: split_first)
qed

lemma permission_key_inj:
  assumes "g @ ''/'' @ v @ ''/'' @ r @ ''.'' @ m = wasi_resource_string d @ ''.'' @ m'"
    and "declared_ok d" "m' \<in> set (wr_methods d)"
  shows "g = wr_group d \<and> v = wr_version d \<and> r = wr_resource d \<and> m = m'"
proof -
  have "g = wr_group d \<and> v = wr_version d \<and> r @ ''.'' @ m = wr_resource d @ ''.'' @ m'"
    using assms by (intro two_slashes) (auto simp: wasi_resource_string_def declared_ok_def)
  moreover have "r = wr_resource d \<and> m = m'" if "r @ ''.'' @ m = wr_resource d @ ''.'' @ m'"
    using that assms(2,3) append_Cons_eq_iff[of "CHR ''.''" "wr_resource d" m' r m]
    by (auto simp: declared_ok_def)
  ultimately show ?thesis by blast
qed

text \<open>
  C27: A guest is allowed a method on a resource exactly when the extension declares that method
  for that very group, version and resource: whatever strings the guest passes, no two requests
  share a permission key.
\<close>

theorem permission_exact:
  assumes "\<forall>r \<in> set rs. declared_ok r"
  shows "isAllowed (Some (permissions_of rs)) g meth = None \<longleftrightarrow>
    (\<exists>r \<in> set rs. wr_group r = gv_group g \<and> wr_version r = gv_version g \<and>
       wr_resource r = gv_resource g \<and> meth \<in> set (wr_methods r))"
proof
  assume "isAllowed (Some (permissions_of rs)) g meth = None"
  then obtain r m where r: "r \<in> set rs" "m \<in> set (wr_methods r)"
    and key: "gv_group g @ ''/'' @ gv_version g @ ''/'' @ gv_resource g @ ''.'' @ meth =
      wasi_resource_string r @ ''.'' @ m"
    by (auto simp: isAllowed_def permissions_of_def split: if_splits)
  from permission_key_inj[OF key] assms r
  show "\<exists>r \<in> set rs. wr_group r = gv_group g \<and> wr_version r = gv_version g \<and>
       wr_resource r = gv_resource g \<and> meth \<in> set (wr_methods r)" by auto
next
  assume "\<exists>r \<in> set rs. wr_group r = gv_group g \<and> wr_version r = gv_version g \<and>
       wr_resource r = gv_resource g \<and> meth \<in> set (wr_methods r)"
  then obtain r where r: "r \<in> set rs" "meth \<in> set (wr_methods r)"
    and same: "wr_group r = gv_group g" "wr_version r = gv_version g" "wr_resource r = gv_resource g"
    by blast
  have "wasi_resource_string r @ ''.'' @ meth \<in> set (permissions_of rs)"
    using r unfolding permissions_of_def by auto
  then show "isAllowed (Some (permissions_of rs)) g meth = None"
    by (simp add: isAllowed_def wasi_resource_string_def same)
qed

section \<open>Names of configuration entries\<close>

text \<open>
  \<open>isUpper\<close> on ASCII, the alphabet Kubernetes allows in the keys of a config map: no letter is
  lower case.
\<close>

definition is_upper_letter :: "char \<Rightarrow> bool" where
  "is_upper_letter c \<longleftrightarrow> 65 \<le> (of_char c :: nat) \<and> (of_char c :: nat) \<le> 90"

definition is_ascii_letter :: "char \<Rightarrow> bool" where
  "is_ascii_letter c \<longleftrightarrow> is_upper_letter c \<or> 97 \<le> (of_char c :: nat) \<and> (of_char c :: nat) \<le> 122"

fun isUpper :: "string \<Rightarrow> bool" where
  "isUpper [] = True"
| "isUpper (r # s) = (if \<not> is_upper_letter r \<and> is_ascii_letter r then False else isUpper s)"

section \<open>Concrete cases\<close>

definition ex_guest :: "byte list guest" where
  "ex_guest =
     \<lparr>gm_read = (\<lambda>p n m. if unat p + unat n \<le> length m
        then Some (take (unat n) (drop (unat p) m)) else None),
      gm_write = (\<lambda>p b m. if unat p + length b \<le> length m
        then Some (take (unat p) m @ b @ drop (unat p + length b) m) else None),
      gm_malloc = (\<lambda>n m. (Inr 1, m))\<rparr>"

lemma ex_guest_law: "guest_law ex_guest"
  by (auto simp: guest_law_def ex_guest_def unat_of_nat min_def split: if_splits)

theorem byte_slice_roundtrip_witness:
  "readByteSlice ex_guest (pack 1 2) [0, 7, 9] = Inr [7, 9]"
proof -
  have two: "length [7, 9 :: byte] = 2" by simp
  have "writeByteSlice ex_guest [7, 9] [0, 0, 0] = (Inr (pack 1 2), [0, 7, 9])"
    unfolding writeByteSlice_def two by (simp add: ex_guest_def)
  from byte_slice_roundtrip[OF ex_guest_law _ this] show ?thesis by simp
qed

definition ex_ingresses :: wasi_resource where
  "ex_ingresses = \<lparr>wr_group = ''networking.k8s.io'', wr_version = ''v1'', wr_resource = ''ingresses'',
     wr_methods = [''get'', ''create'']\<rparr>"

theorem permission_exact_witness:
  "isAllowed (Some (permissions_of [ex_ingresses]))
     \<lparr>gv_group = ''networking.k8s.io'', gv_version = ''v1'', gv_resource = ''ingresses''\<rparr> ''get'' = None"
  using permission_exact[of "[ex_ingresses]"
      "\<lparr>gv_group = ''networking.k8s.io'', gv_version = ''v1'', gv_resource = ''ingresses''\<rparr>" "''get''"]
  by (simp add: ex_ingresses_def declared_ok_def)

end
