(* ===== verification/Wasi_Runner.thy ===== *)
theory Wasi_Runner
  imports Wasi_Abi
begin

text \<open>
  \<open>internal/waruntime/runner.go\<close>: the host functions a guest may call, and the four calls the
  host makes into the guest. The runtime (wazero), the protobuf and JSON codecs and the dynamic
  client are parameters.
\<close>

section \<open>State\<close>

text \<open>
  \<open>Runner\<close>. \<open>rn_msgs\<close> is the channel for responses: \<open>None\<close> is the nil channel, and
  \<open>Some ms\<close> what has been sent into it so far (how the messages leave it is the subject of the
  theory on the response channel).
\<close>

record runner =
  rn_name :: string
  rn_version :: string
  rn_validationRequest :: "validation_request option"
  rn_syncRequest :: "sync_request option"
  rn_permissions :: "string list option"
  rn_configMap :: "config_map_ref option"
  rn_msgs :: "response list option"
  rn_validationErrors :: "validation_error list"

text \<open>Decoders and encoders of the messages that cross the guest boundary.\<close>

record codec =
  cd_keyValue :: "byte list \<Rightarrow> gerr + key_value"
  cd_envFrom :: "byte list \<Rightarrow> gerr + env_from_msg"
  cd_container :: "byte list \<Rightarrow> gerr + json"
  cd_validationError :: "byte list \<Rightarrow> gerr + validation_error"
  cd_gvr :: "byte list \<Rightarrow> gerr + gvr"
  cd_deleteResponse :: "byte list \<Rightarrow> gerr + delete_response"
  cd_owner :: "owner option \<Rightarrow> gerr + byte list"
  cd_payload :: "byte list \<Rightarrow> raw"
  cd_bytes :: "raw \<Rightarrow> byte list"
  cd_text :: "byte list \<Rightarrow> string"
  cd_resource :: "byte list \<Rightarrow> gerr + json"
  cd_resourceBytes :: "json \<Rightarrow> gerr + byte list"
  cd_configMap :: "json \<Rightarrow> gerr + (string, string) gomap"

text \<open>\<open>dynamic.Interface\<close>: the operations on a resource in a namespace.\<close>

record 'w dyn =
  dy_get :: "gvr \<Rightarrow> string \<Rightarrow> string \<Rightarrow> 'w \<Rightarrow> (gerr + json) \<times> 'w"
  dy_delete :: "gvr \<Rightarrow> string \<Rightarrow> string \<Rightarrow> 'w \<Rightarrow> gerr option \<times> 'w"
  dy_create :: "gvr \<Rightarrow> string \<Rightarrow> json \<Rightarrow> 'w \<Rightarrow> (gerr + json) \<times> 'w"
  dy_update :: "gvr \<Rightarrow> string \<Rightarrow> json \<Rightarrow> 'w \<Rightarrow> (gerr + json) \<times> 'w"

text \<open>What a host function may do: return, panic, or wait forever.\<close>

datatype 'a host = HOk 'a | HPanic gerr | HBlock

definition lift_host :: "gerr + 'a \<Rightarrow> 'a host" where
  "lift_host x = (case x of Inl e \<Rightarrow> HPanic e | Inr v \<Rightarrow> HOk v)"

section \<open>Host functions that add to the response\<close>

text \<open>Sending into a nil channel never returns.\<close>

definition send_msg :: "response \<Rightarrow> runner \<Rightarrow> 64 word host \<times> runner" where
  "send_msg msg r =
     (case rn_msgs r of
        None \<Rightarrow> (HBlock, r)
      | Some ms \<Rightarrow> (HOk 0, r\<lparr>rn_msgs := Some (ms @ [msg])\<rparr>))"

definition send_decoded ::
    "'m guest \<Rightarrow> (byte list \<Rightarrow> gerr + 'v) \<Rightarrow> ('v \<Rightarrow> response) \<Rightarrow> 32 word \<Rightarrow> 32 word \<Rightarrow> runner \<Rightarrow> 'm \<Rightarrow>
     64 word host \<times> runner" where
  "send_decoded g dec wrap ptr sz r m =
     (case unmarshalProto g dec ptr sz m of
        Inl e \<Rightarrow> (HPanic e, r)
      | Inr v \<Rightarrow> send_msg (wrap v) r)"

definition addEnv where "addEnv g c = send_decoded g (cd_keyValue c) REnv"
definition addEnvFrom where "addEnvFrom g c = send_decoded g (cd_envFrom c) REnvFrom"
definition addLabel where "addLabel g c = send_decoded g (cd_keyValue c) RLabel"
definition addAnnotation where "addAnnotation g c = send_decoded g (cd_keyValue c) RAnnotation"
definition addInitContainer where "addInitContainer g c = send_decoded g (cd_container c) RInitContainer"
definition addSidecar where "addSidecar g c = send_decoded g (cd_container c) RContainer"

lemmas add_defs = addEnv_def addEnvFrom_def addLabel_def addAnnotation_def addInitContainer_def
  addSidecar_def

definition hostMergePatch ::
    "'m guest \<Rightarrow> codec \<Rightarrow> 32 word \<Rightarrow> 32 word \<Rightarrow> runner \<Rightarrow> 'm \<Rightarrow> 64 word host \<times> runner" where
  "hostMergePatch g c ptr sz r m =
     (case gm_read g ptr sz m of
        None \<Rightarrow> (HPanic (EPanic ''failed to read memory''), r)
      | Some b \<Rightarrow> send_msg (RMergePatch (cd_payload c b)) r)"

definition hostValidationError ::
    "'m guest \<Rightarrow> codec \<Rightarrow> 32 word \<Rightarrow> 32 word \<Rightarrow> runner \<Rightarrow> 'm \<Rightarrow> 64 word host \<times> runner" where
  "hostValidationError g c ptr sz r m =
     (case unmarshalProto g (cd_validationError c) ptr sz m of
        Inl e \<Rightarrow> (HPanic e, r)
      | Inr v \<Rightarrow> (HOk 0, r\<lparr>rn_validationErrors := rn_validationErrors r @ [v]\<rparr>))"

section \<open>Host functions that read the request\<close>

definition nil_deref :: gerr where "nil_deref = EPanic ''nil pointer dereference''"

definition getOwner :: "'m guest \<Rightarrow> codec \<Rightarrow> runner \<Rightarrow> 'm \<Rightarrow> 64 word host \<times> 'm" where
  "getOwner g c r m =
     (let reply = (\<lambda>ow. case marshalProto g (cd_owner c) ow m of (x, m1) \<Rightarrow> (lift_host x, m1))
      in case rn_syncRequest r of
           Some s \<Rightarrow> reply (sr_owner s)
         | None \<Rightarrow>
             (case rn_validationRequest r of
                Some v \<Rightarrow>
                  (case vr_sync v of
                     None \<Rightarrow> (HPanic nil_deref, m)
                   | Some s \<Rightarrow> reply (sr_owner s))
              | None \<Rightarrow> (HPanic (EPanic ''getOwner is only valid for sync or validation requests''), m)))"

definition getSpec :: "'m guest \<Rightarrow> codec \<Rightarrow> runner \<Rightarrow> 'm \<Rightarrow> 64 word host \<times> 'm" where
  "getSpec g c r m =
     (let reply = (\<lambda>b. case writeByteSlice g (cd_bytes c b) m of (x, m1) \<Rightarrow> (lift_host x, m1))
      in case rn_syncRequest r of
           Some s \<Rightarrow> reply (sr_spec s)
         | None \<Rightarrow>
             (case rn_validationRequest r of
                Some v \<Rightarrow>
                  (case vr_sync v of
                     Some s \<Rightarrow> reply (sr_spec s)
                   | None \<Rightarrow> (HPanic (EPanic ''getSpec is not valid in this context''), m))
              | None \<Rightarrow> (HPanic (EPanic ''getSpec is not valid in this context''), m)))"

definition getOld :: "'m guest \<Rightarrow> codec \<Rightarrow> runner \<Rightarrow> 'm \<Rightarrow> 64 word host \<times> 'm" where
  "getOld g c r m =
     (case rn_validationRequest r of
        None \<Rightarrow> (HPanic (EPanic ''getOld is only valid for validation requests''), m)
      | Some v \<Rightarrow>
          (case vr_old v of
             None \<Rightarrow> (HPanic nil_deref, m)
           | Some s \<Rightarrow> (case writeByteSlice g (cd_bytes c (sr_spec s)) m of (x, m1) \<Rightarrow> (lift_host x, m1))))"

section \<open>Host functions on cluster resources\<close>

text \<open>\<open>r.syncRequest.Owner.Namespace\<close>; \<open>None\<close> when a pointer on the way is nil.\<close>

definition owner_namespace :: "runner \<Rightarrow> string option" where
  "owner_namespace r =
     (case rn_syncRequest r of
        None \<Rightarrow> None
      | Some s \<Rightarrow> map_option ow_namespace (sr_owner s))"

definition error_reply :: "(gerr \<Rightarrow> api_check \<Rightarrow> bool) \<Rightarrow> gerr \<Rightarrow> 64 word host" where
  "error_reply is_err e = HOk (client_error_word (toClientError is_err e))"

definition getResource ::
    "'m guest \<Rightarrow> codec \<Rightarrow> (gerr \<Rightarrow> api_check \<Rightarrow> bool) \<Rightarrow> 'w dyn \<Rightarrow> 32 word \<Rightarrow> 32 word \<Rightarrow> 32 word \<Rightarrow> 32 word \<Rightarrow>
     runner \<Rightarrow> 'm \<Rightarrow> 'w \<Rightarrow> 64 word host \<times> 'm \<times> 'w" where
  "getResource g c is_err d gvrPtr gvrSize namePtr nameSize r m w =
     (case unmarshalProto g (cd_gvr c) gvrPtr gvrSize m of
        Inl e \<Rightarrow> (HPanic e, m, w)
      | Inr gv \<Rightarrow>
          (case isAllowed (rn_permissions r) gv ''get'' of
             Some e \<Rightarrow> (error_reply is_err e, m, w)
           | None \<Rightarrow>
               (case gm_read g namePtr nameSize m of
                  None \<Rightarrow> (HPanic (EPanic ''failed to read memory''), m, w)
                | Some nameb \<Rightarrow>
                    (case owner_namespace r of
                       None \<Rightarrow> (HPanic nil_deref, m, w)
                     | Some ns \<Rightarrow>
                         (case dy_get d gv ns (cd_text c nameb) w of
                            (Inl e, w1) \<Rightarrow> (error_reply is_err e, m, w1)
                          | (Inr res, w1) \<Rightarrow>
                              (case cd_resourceBytes c res of
                                 Inl e \<Rightarrow> (error_reply is_err e, m, w1)
                               | Inr b \<Rightarrow>
                                   (case writeByteSlice g b m of (x, m1) \<Rightarrow> (lift_host x, m1, w1))))))))"

definition deleteResource ::
    "'m guest \<Rightarrow> codec \<Rightarrow> (gerr \<Rightarrow> api_check \<Rightarrow> bool) \<Rightarrow> 'w dyn \<Rightarrow> 32 word \<Rightarrow> 32 word \<Rightarrow> 32 word \<Rightarrow> 32 word \<Rightarrow>
     runner \<Rightarrow> 'm \<Rightarrow> 'w \<Rightarrow> 64 word host \<times> 'm \<times> 'w" where
  "deleteResource g c is_err d gvrPtr gvrSize namePtr nameSize r m w =
     (case unmarshalProto g (cd_gvr c) gvrPtr gvrSize m of
        Inl e \<Rightarrow> (HPanic e, m, w)
      | Inr gv \<Rightarrow>
          (case isAllowed (rn_permissions r) gv ''delete'' of
             Some e \<Rightarrow> (error_reply is_err e, m, w)
           | None \<Rightarrow>
               (case gm_read g namePtr nameSize m of
                  None \<Rightarrow> (HPanic (EPanic ''failed to read memory''), m, w)
                | Some nameb \<Rightarrow>
                    (case owner_namespace r of
                       None \<Rightarrow> (HPanic nil_deref, m, w)
                     | Some ns \<Rightarrow>
                         (case dy_delete d gv ns (cd_text c nameb) w of
                            (Some e, w1) \<Rightarrow> (error_reply is_err e, m, w1)
                          | (None, w1) \<Rightarrow> (HOk 0, m, w1))))))"

text \<open>\<open>createResource\<close> and \<open>updateResource\<close> differ in the method and the client call only.\<close>

definition putResource ::
    "string \<Rightarrow> (gvr \<Rightarrow> string \<Rightarrow> json \<Rightarrow> 'w \<Rightarrow> (gerr + json) \<times> 'w) \<Rightarrow> 'm guest \<Rightarrow> codec \<Rightarrow>
     (gerr \<Rightarrow> api_check \<Rightarrow> bool) \<Rightarrow> 32 word \<Rightarrow> 32 word \<Rightarrow> 32 word \<Rightarrow> 32 word \<Rightarrow>
     runner \<Rightarrow> 'm \<Rightarrow> 'w \<Rightarrow> 64 word host \<times> 'm \<times> 'w" where
  "putResource meth put g c is_err gvrPtr gvrSize specPtr specSize r m w =
     (case unmarshalProto g (cd_gvr c) gvrPtr gvrSize m of
        Inl e \<Rightarrow> (HPanic e, m, w)
      | Inr gv \<Rightarrow>
          (case isAllowed (rn_permissions r) gv meth of
             Some e \<Rightarrow> (error_reply is_err e, m, w)
           | None \<Rightarrow>
               (case gm_read g specPtr specSize m of
                  None \<Rightarrow> (HPanic (EPanic ''failed to read memory''), m, w)
                | Some b \<Rightarrow>
                    (case cd_resource c b of
                       Inl e \<Rightarrow> (HPanic (EPanic ''failed to unmarshal resource''), m, w)
                     | Inr res \<Rightarrow>
                         (case owner_namespace r of
                            None \<Rightarrow> (HPanic nil_deref, m, w)
                          | Some ns \<Rightarrow>
                              (case put gv ns res w of
                                 (Inl e, w1) \<Rightarrow> (error_reply is_err e, m, w1)
                               | (Inr n, w1) \<Rightarrow>
                                   (case cd_resourceBytes c n of
                                      Inl e \<Rightarrow> (HPanic (EPanic ''failed to marshal resource''), m, w1)
                                    | Inr b' \<Rightarrow>
                                        (case writeByteSlice g b' m of (x, m1) \<Rightarrow> (lift_host x, m1, w1)))))))))"

definition createResource where
  "createResource g c is_err d = putResource ''create'' (dy_create d) g c is_err"

definition updateResource where
  "updateResource g c is_err d = putResource ''update'' (dy_update d) g c is_err"

section \<open>A guest and its calls\<close>

text \<open>The functions \<open>env\<close> exports to the guest, with their arguments.\<close>

datatype host_call =
    AddEnv "32 word" "32 word"
  | AddEnvFrom "32 word" "32 word"
  | AddLabel "32 word" "32 word"
  | AddAnnotation "32 word" "32 word"
  | AddInitContainer "32 word" "32 word"
  | AddSidecar "32 word" "32 word"
  | MergePatch "32 word" "32 word"
  | ValidationErrorCall "32 word" "32 word"
  | GetOwner
  | GetSpec
  | GetOld
  | CreateResource "32 word" "32 word" "32 word" "32 word"
  | UpdateResource "32 word" "32 word" "32 word" "32 word"
  | DeleteResource "32 word" "32 word" "32 word" "32 word"
  | GetResource "32 word" "32 word" "32 word" "32 word"

text \<open>What the host functions work on: the runner, the guest's memory and the cluster.\<close>

type_synonym ('m, 'w) host_state = "runner \<times> 'm \<times> 'w"

fun host_step ::
    "'m guest \<Rightarrow> codec \<Rightarrow> (gerr \<Rightarrow> api_check \<Rightarrow> bool) \<Rightarrow> 'w dyn \<Rightarrow> host_call \<Rightarrow> ('m, 'w) host_state \<Rightarrow>
     64 word host \<times> ('m, 'w) host_state" where
  "host_step g c is_err d (AddEnv p n) (r, m, w) = (case addEnv g c p n r m of (x, r1) \<Rightarrow> (x, r1, m, w))"
| "host_step g c is_err d (AddEnvFrom p n) (r, m, w) =
     (case addEnvFrom g c p n r m of (x, r1) \<Rightarrow> (x, r1, m, w))"
| "host_step g c is_err d (AddLabel p n) (r, m, w) =
     (case addLabel g c p n r m of (x, r1) \<Rightarrow> (x, r1, m, w))"
| "host_step g c is_err d (AddAnnotation p n) (r, m, w) =
     (case addAnnotation g c p n r m of (x, r1) \<Rightarrow> (x, r1, m, w))"
| "host_step g c is_err d (AddInitContainer p n) (r, m, w) =
     (case addInitContainer g c p n r m of (x, r1) \<Rightarrow> (x, r1, m, w))"
| "host_step g c is_err d (AddSidecar p n) (r, m, w) =
     (case addSidecar g c p n r m of (x, r1) \<Rightarrow> (x, r1, m, w))"
| "host_step g c is_err d (MergePatch p n) (r, m, w) =
     (case hostMergePatch g c p n r m of (x, r1) \<Rightarrow> (x, r1, m, w))"
| "host_step g c is_err d (ValidationErrorCall p n) (r, m, w) =
     (case hostValidationError g c p n r m of (x, r1) \<Rightarrow> (x, r1, m, w))"
| "host_step g c is_err d GetOwner (r, m, w) = (case getOwner g c r m of (x, m1) \<Rightarrow> (x, r, m1, w))"
| "host_step g c is_err d GetSpec (r, m, w) = (case getSpec g c r m of (x, m1) \<Rightarrow> (x, r, m1, w))"
| "host_step g c is_err d GetOld (r, m, w) = (case getOld g c r m of (x, m1) \<Rightarrow> (x, r, m1, w))"
| "host_step g c is_err d (CreateResource p n q k) (r, m, w) =
     (case createResource g c is_err d p n q k r m w of (x, m1, w1) \<Rightarrow> (x, r, m1, w1))"
| "host_step g c is_err d (UpdateResource p n q k) (r, m, w) =
     (case updateResource g c is_err d p n q k r m w of (x, m1, w1) \<Rightarrow> (x, r, m1, w1))"
| "host_step g c is_err d (DeleteResource p n q k) (r, m, w) =
     (case deleteResource g c is_err d p n q k r m w of (x, m1, w1) \<Rightarrow> (x, r, m1, w1))"
| "host_step g c is_err d (GetResource p n q k) (r, m, w) =
     (case getResource g c is_err d p n q k r m w of (x, m1, w1) \<Rightarrow> (x, r, m1, w1))"

text \<open>
  The code of a guest is not part of the repository. One call into it is a tree: it returns words,
  traps, or calls the host and goes on with the answer and its memory, which it may change in
  between. A tree is finite, so a guest that computes forever is not covered.
\<close>

datatype 'm prog =
    GReturn "64 word list"
  | GTrap gerr
  | GCall host_call "64 word \<Rightarrow> 'm \<Rightarrow> 'm" "64 word \<Rightarrow> 'm \<Rightarrow> 'm prog"

text \<open>
  How a call ends. The runtime recovers a panic of a host function and a trap and returns them as
  an error of the call; a host function that blocks never gives control back.
\<close>

datatype call_end = CReturn "64 word list" | CError gerr | CBlocked

primrec run_guest ::
    "'m guest \<Rightarrow> codec \<Rightarrow> (gerr \<Rightarrow> api_check \<Rightarrow> bool) \<Rightarrow> 'w dyn \<Rightarrow> 'm prog \<Rightarrow> ('m, 'w) host_state \<Rightarrow>
     call_end \<times> ('m, 'w) host_state" where
  "run_guest g c is_err d (GReturn ws) s = (CReturn ws, s)"
| "run_guest g c is_err d (GTrap e) s = (CError e, s)"
| "run_guest g c is_err d (GCall hc upd k) s =
     (case host_step g c is_err d hc s of
        (HOk v, r, m, w) \<Rightarrow> run_guest g c is_err d (k v m) (r, upd v m, w)
      | (HPanic e, s1) \<Rightarrow> (CError e, s1)
      | (HBlock, s1) \<Rightarrow> (CBlocked, s1))"

section \<open>The calls of the host\<close>

text \<open>
  A compiled module: instantiating it with environment variables gives its memory or fails
  (\<open>mod_start\<close>), and its four exported functions are programs over that memory.
\<close>

record 'm guest_module =
  mod_start :: "(string \<times> string) list \<Rightarrow> gerr + 'm"
  mod_validate :: "64 word \<Rightarrow> 'm \<Rightarrow> 'm prog"
  mod_defaulting :: "'m \<Rightarrow> 'm prog"
  mod_sync :: "'m \<Rightarrow> 'm prog"
  mod_delete :: "'m \<Rightarrow> 'm prog"

text \<open>\<open>Runner.instance\<close>: upper-case entries of the config map become environment variables.\<close>

definition runner_instance ::
    "codec \<Rightarrow> 'w dyn \<Rightarrow> 'm guest_module \<Rightarrow> runner \<Rightarrow> 'w \<Rightarrow> (gerr + 'm) \<times> 'w" where
  "runner_instance c d md r w =
     (case rn_configMap r of
        None \<Rightarrow> (mod_start md [], w)
      | Some ref \<Rightarrow>
          (case dy_get d \<lparr>gv_group = '''', gv_version = ''v1'', gv_resource = ''configmaps''\<rparr>
                  (cm_namespace ref) (cm_name ref) w of
             (Inl e, w1) \<Rightarrow> (Inl (EWrap ''get configmap'' e), w1)
           | (Inr cmu, w1) \<Rightarrow>
               (case cd_configMap c cmu of
                  Inl e \<Rightarrow> (Inl (EWrap ''convert configmap'' e), w1)
                | Inr data \<Rightarrow> (mod_start md (filter (\<lambda>kv. isUpper (fst kv)) data), w1))))"

text \<open>\<open>Runner.Validate\<close>: the collected errors are returned next to the error of the call.\<close>

definition runner_validate ::
    "'m guest \<Rightarrow> codec \<Rightarrow> (gerr \<Rightarrow> api_check \<Rightarrow> bool) \<Rightarrow> 'w dyn \<Rightarrow> 'm guest_module \<Rightarrow> validation_request \<Rightarrow>
     runner \<Rightarrow> 'w \<Rightarrow> (validation_error list \<times> gerr option) host \<times> runner \<times> 'w" where
  "runner_validate g c is_err d md req r w =
     (case runner_instance c d md r w of
        (Inl e, w1) \<Rightarrow> (HOk ([], Some e), r, w1)
      | (Inr m, w1) \<Rightarrow>
          (case run_guest g c is_err d (mod_validate md (of_int (vr_type req)) m)
                  (r\<lparr>rn_validationRequest := Some req\<rparr>, m, w1) of
             (CReturn _, r2, _, w2) \<Rightarrow> (HOk (rn_validationErrors r2, None), r2, w2)
           | (CError e, r2, _, w2) \<Rightarrow> (HOk (rn_validationErrors r2, Some e), r2, w2)
           | (CBlocked, r2, _, w2) \<Rightarrow> (HBlock, r2, w2)))"

text \<open>\<open>Runner.Defaulting\<close>.\<close>

definition runner_defaulting ::
    "'m guest \<Rightarrow> codec \<Rightarrow> (gerr \<Rightarrow> api_check \<Rightarrow> bool) \<Rightarrow> 'w dyn \<Rightarrow> 'm guest_module \<Rightarrow> sync_request \<Rightarrow>
     runner \<Rightarrow> 'w \<Rightarrow> (gerr + default_response) host \<times> runner \<times> 'w" where
  "runner_defaulting g c is_err d md req r w =
     (case runner_instance c d md r w of
        (Inl e, w1) \<Rightarrow> (HOk (Inl e), r, w1)
      | (Inr m, w1) \<Rightarrow>
          (case run_guest g c is_err d (mod_defaulting md m) (r\<lparr>rn_syncRequest := Some req\<rparr>, m, w1) of
             (CError e, r2, _, w2) \<Rightarrow> (HOk (Inl e), r2, w2)
           | (CBlocked, r2, _, w2) \<Rightarrow> (HBlock, r2, w2)
           | (CReturn [], r2, _, w2) \<Rightarrow> (HPanic (EPanic ''index out of range''), r2, w2)
           | (CReturn (x # _), r2, m2, w2) \<Rightarrow>
               (if x = 0 then (HOk (Inr \<lparr>ds_spec = RawNil\<rparr>), r2, w2)
                else (case gm_read g (unpack_ptr x) (unpack_size x) m2 of
                        None \<Rightarrow> (HOk (Inl (EMsg ''failed to read memory'')), r2, w2)
                      | Some b \<Rightarrow> (HOk (Inr \<lparr>ds_spec = cd_payload c b\<rparr>), r2, w2)))))"

text \<open>\<open>Runner.Delete\<close>: here an address out of range is a panic of the host itself.\<close>

definition runner_delete ::
    "'m guest \<Rightarrow> codec \<Rightarrow> (gerr \<Rightarrow> api_check \<Rightarrow> bool) \<Rightarrow> 'w dyn \<Rightarrow> 'm guest_module \<Rightarrow> sync_request \<Rightarrow>
     runner \<Rightarrow> 'w \<Rightarrow> (gerr + delete_response) host \<times> runner \<times> 'w" where
  "runner_delete g c is_err d md req r w =
     (case runner_instance c d md r w of
        (Inl e, w1) \<Rightarrow> (HOk (Inl e), r, w1)
      | (Inr m, w1) \<Rightarrow>
          (case run_guest g c is_err d (mod_delete md m) (r\<lparr>rn_syncRequest := Some req\<rparr>, m, w1) of
             (CError e, r2, _, w2) \<Rightarrow> (HOk (Inl e), r2, w2)
           | (CBlocked, r2, _, w2) \<Rightarrow> (HBlock, r2, w2)
           | (CReturn [], r2, _, w2) \<Rightarrow> (HPanic (EPanic ''index out of range''), r2, w2)
           | (CReturn (x # _), r2, m2, w2) \<Rightarrow>
               (if x = 0 then (HOk (Inr \<lparr>dr_error = ''''\<rparr>), r2, w2)
                else (case readByteSlice g x m2 of
                        Inl e \<Rightarrow> (HPanic e, r2, w2)
                      | Inr b \<Rightarrow>
                          (case cd_deleteResponse c b of
                             Inl e \<Rightarrow> (HOk (Inl (EWrap ''unable to unmarshal'' e)), r2, w2)
                           | Inr v \<Rightarrow> (HOk (Inr v), r2, w2))))))"

text \<open>
  \<open>Runner.Sync\<close>: the guest runs in a goroutine of its own. The result gives the messages it sends
  and how its call ends, which is what the goroutine puts into the two channels of the stream.
\<close>

definition runner_sync ::
    "'m guest \<Rightarrow> codec \<Rightarrow> (gerr \<Rightarrow> api_check \<Rightarrow> bool) \<Rightarrow> 'w dyn \<Rightarrow> 'm guest_module \<Rightarrow> sync_request \<Rightarrow>
     runner \<Rightarrow> 'w \<Rightarrow> (gerr + response list \<times> call_end) \<times> 'w" where
  "runner_sync g c is_err d md req r w =
     (let r1 = r\<lparr>rn_msgs := Some [], rn_syncRequest := Some req\<rparr>
      in case runner_instance c d md r1 w of
           (Inl e, w1) \<Rightarrow> (Inl e, w1)
         | (Inr m, w1) \<Rightarrow>
             (case run_guest g c is_err d (mod_sync md m) (r1, m, w1) of
                (e, r2, _, w2) \<Rightarrow> (Inr (case rn_msgs r2 of None \<Rightarrow> [] | Some ms \<Rightarrow> ms, e), w2)))"

section \<open>What a run of the guest keeps\<close>

text \<open>The permissions and the requests of the runner never change while a guest runs.\<close>

definition same_request :: "runner \<Rightarrow> runner \<Rightarrow> bool" where
  "same_request r r' \<longleftrightarrow> rn_permissions r' = rn_permissions r \<and> rn_syncRequest r' = rn_syncRequest r \<and>
     rn_validationRequest r' = rn_validationRequest r"

lemma send_msg_same: "send_msg x r = (y, r') \<Longrightarrow> same_request r r'"
  by (auto simp: send_msg_def same_request_def split: option.splits)

lemma same_request_simps [simp]:
  "same_request r r" "same_request r (r\<lparr>rn_validationErrors := es\<rparr>)"
  by (simp_all add: same_request_def)

lemma send_decoded_same: "send_decoded g dec f p n r m = (y, r') \<Longrightarrow> same_request r r'"
  by (auto simp: send_decoded_def split: sum.splits dest: send_msg_same)

lemma host_step_same:
  "host_step g c is_err d hc (r, m, w) = (y, r', m', w') \<Longrightarrow> same_request r r'"
  by (cases hc)
    (auto simp: add_defs hostMergePatch_def hostValidationError_def
      split: prod.splits option.splits sum.splits dest: send_decoded_same send_msg_same)

end
