(* ===== verification/Wasi_Channel.thy ===== *)
theory Wasi_Channel
  imports Wasi_Runner
begin

text \<open>
  The response stream of \<open>Runner.Sync\<close>: the guest's goroutine sends messages into a channel of
  capacity 1, then at most one error into a second channel of capacity 1, and closes the two, in
  this order. \<open>Recv\<close> selects over both channels; when both are ready, Go picks either.
\<close>

section \<open>States\<close>

datatype phase = Running | Ended | MsgsClosed | AllClosed

text \<open>What the reader sees at the end: \<open>io.EOF\<close> or the error.\<close>

datatype recv_end = RecvEOF | RecvErr gerr

record stream =
  ss_todo :: "response list"
  ss_end :: "gerr option"
  ss_phase :: phase
  ss_buf :: "response list"
  ss_errs :: "gerr list"
  ss_got :: "response list"
  ss_result :: "recv_end option"

text \<open>The guest is going to send \<open>ms\<close> and to end with \<open>e\<close>.\<close>

definition stream_start :: "response list \<Rightarrow> gerr option \<Rightarrow> stream" where
  "stream_start ms e = \<lparr>ss_todo = ms, ss_end = e, ss_phase = Running, ss_buf = [], ss_errs = [],
     ss_got = [], ss_result = None\<rparr>"

section \<open>Steps\<close>

text \<open>
  The first five rules are the goroutine of \<open>Sync\<close>, the other four the cases of the select in
  \<open>Recv\<close>, which the reader calls until it gets an error. \<open>ss_phase\<close> says which channels are
  closed.
\<close>

inductive stream_step :: "stream \<Rightarrow> stream \<Rightarrow> bool" where
  send: "ss_phase s = Running \<Longrightarrow> ss_todo s = m # ms \<Longrightarrow> ss_buf s = [] \<Longrightarrow>
    stream_step s (s\<lparr>ss_todo := ms, ss_buf := [m]\<rparr>)"
| fail: "ss_phase s = Running \<Longrightarrow> ss_todo s = [] \<Longrightarrow> ss_end s = Some e \<Longrightarrow>
    stream_step s (s\<lparr>ss_errs := [e], ss_phase := Ended\<rparr>)"
| succeed: "ss_phase s = Running \<Longrightarrow> ss_todo s = [] \<Longrightarrow> ss_end s = None \<Longrightarrow>
    stream_step s (s\<lparr>ss_phase := Ended\<rparr>)"
| close_msgs: "ss_phase s = Ended \<Longrightarrow> stream_step s (s\<lparr>ss_phase := MsgsClosed\<rparr>)"
| close_errs: "ss_phase s = MsgsClosed \<Longrightarrow> stream_step s (s\<lparr>ss_phase := AllClosed\<rparr>)"
| recv_msg: "ss_result s = None \<Longrightarrow> ss_buf s = m # b \<Longrightarrow>
    stream_step s (s\<lparr>ss_buf := b, ss_got := ss_got s @ [m]\<rparr>)"
| recv_msgs_closed: "ss_result s = None \<Longrightarrow> ss_buf s = [] \<Longrightarrow> ss_phase s \<in> {MsgsClosed, AllClosed} \<Longrightarrow>
    stream_step s (s\<lparr>ss_result := Some RecvEOF\<rparr>)"
| recv_err: "ss_result s = None \<Longrightarrow> ss_errs s = e # es \<Longrightarrow>
    stream_step s (s\<lparr>ss_errs := es, ss_result := Some (RecvErr e)\<rparr>)"
| recv_errs_closed: "ss_result s = None \<Longrightarrow> ss_errs s = [] \<Longrightarrow> ss_phase s = AllClosed \<Longrightarrow>
    stream_step s (s\<lparr>ss_result := Some RecvEOF\<rparr>)"

inductive_cases stream_stepE: "stream_step s s'"

inductive stream_reach :: "response list \<Rightarrow> gerr option \<Rightarrow> stream \<Rightarrow> bool" for ms e where
  start: "stream_reach ms e (stream_start ms e)"
| step: "stream_reach ms e s \<Longrightarrow> stream_step s s' \<Longrightarrow> stream_reach ms e s'"

section \<open>Invariant\<close>

definition stream_inv :: "response list \<Rightarrow> gerr option \<Rightarrow> stream \<Rightarrow> bool" where
  "stream_inv ms e s \<longleftrightarrow>
     ss_got s @ ss_buf s @ ss_todo s = ms \<and> ss_end s = e \<and> length (ss_buf s) \<le> 1 \<and>
     (ss_phase s \<noteq> Running \<longrightarrow> ss_todo s = []) \<and>
     (ss_result s = None \<longrightarrow> ss_errs s = (if ss_phase s = Running then [] else case e of None \<Rightarrow> [] | Some x \<Rightarrow> [x])) \<and>
     set (ss_errs s) \<subseteq> set_option e \<and>
     (ss_result s \<noteq> None \<longrightarrow> ss_phase s \<noteq> Running) \<and>
     (\<forall>x. ss_result s = Some (RecvErr x) \<longrightarrow> e = Some x)"

lemma stream_inv_start: "stream_inv ms e (stream_start ms e)"
  by (simp add: stream_inv_def stream_start_def)

lemma stream_inv_step: "stream_inv ms e s \<Longrightarrow> stream_step s s' \<Longrightarrow> stream_inv ms e s'"
  by (erule stream_stepE) (auto simp: stream_inv_def split: option.splits if_splits, metis)

lemma stream_reach_inv: "stream_reach ms e s \<Longrightarrow> stream_inv ms e s"
  by (induction rule: stream_reach.induct) (auto intro: stream_inv_start stream_inv_step)

text \<open>
  C21: What the reader has received is always a beginning of what the guest sent, in order and
  without repetition; when the stream has ended at most one message is missing; and an error it
  reports is the one the guest's call ended with.
\<close>

theorem stream_delivers_prefix:
  assumes "stream_reach ms e s"
  shows "\<exists>lost. ms = ss_got s @ lost \<and> (ss_result s \<noteq> None \<longrightarrow> length lost \<le> 1) \<and>
    (\<forall>x. ss_result s = Some (RecvErr x) \<longrightarrow> e = Some x)"
  using stream_reach_inv[OF assms]
  by (intro exI[of _ "ss_buf s @ ss_todo s"]) (auto simp: stream_inv_def)

section \<open>The stream ends\<close>

fun phase_left :: "phase \<Rightarrow> nat" where
  "phase_left Running = 3"
| "phase_left Ended = 2"
| "phase_left MsgsClosed = 1"
| "phase_left AllClosed = 0"

definition stream_left :: "stream \<Rightarrow> nat" where
  "stream_left s = 2 * length (ss_todo s) + length (ss_buf s) + phase_left (ss_phase s) +
     (if ss_result s = None then 1 else 0)"

lemma stream_left_step: "stream_step s s' \<Longrightarrow> stream_left s' < stream_left s"
  by (erule stream_stepE) (auto simp: stream_left_def)

lemma stream_progress: "stream_inv ms e s \<Longrightarrow> ss_result s = None \<Longrightarrow> \<exists>s'. stream_step s s'"
proof (cases "ss_phase s")
  case Running
  assume inv: "stream_inv ms e s" and r: "ss_result s = None"
  show ?thesis
  proof (cases "ss_buf s")
    case (Cons m b)
    with r show ?thesis by (blast intro: recv_msg)
  next
    case Nil
    with Running show ?thesis
      by (cases "ss_todo s"; cases "ss_end s") (blast intro: send fail succeed)+
  qed
qed (blast intro: close_msgs close_errs recv_msg recv_msgs_closed dest: neq_Nil_conv[THEN iffD1])+


section \<open>What the select loses\<close>

lemma stream_reach_sent:
  "stream_reach (xs @ ys) e (stream_start (xs @ ys) e\<lparr>ss_todo := ys, ss_got := xs\<rparr>)"
proof (induction xs arbitrary: ys rule: rev_induct)
  case Nil
  show ?case using stream_reach.start[of "ys" e] by (simp add: stream_start_def)
next
  case (snoc x xs)
  let ?s = "\<lambda>todo buf got. stream_start (xs @ x # ys) e\<lparr>ss_todo := todo, ss_buf := buf, ss_got := got\<rparr>"
  have "stream_reach (xs @ x # ys) e (?s (x # ys) [] xs)"
    using snoc[of "x # ys"] by (simp add: stream_start_def)
  then have "stream_reach (xs @ x # ys) e (?s ys [x] xs)"
    by (rule stream_reach.step) (use send[of "?s (x # ys) [] xs" x ys] in \<open>simp add: stream_start_def\<close>)
  then have "stream_reach (xs @ x # ys) e (?s ys [] (xs @ [x]))"
    by (rule stream_reach.step) (use recv_msg[of "?s ys [x] xs" x "[]"] in \<open>simp add: stream_start_def\<close>)
  then show ?case by (simp add: stream_start_def)
qed

text \<open>
  The last message of a successful sync can be lost: when it is still in the channel at the
  time the second channel is closed, \<open>Recv\<close> may pick the closed channel and report the end.
\<close>

theorem last_message_lost:
  "\<exists>s. stream_reach (xs @ [x]) None s \<and> ss_result s = Some RecvEOF \<and> ss_got s = xs"
proof -
  let ?s = "\<lambda>todo buf ph res. stream_start (xs @ [x]) None
      \<lparr>ss_todo := todo, ss_buf := buf, ss_phase := ph, ss_got := xs, ss_result := res\<rparr>"
  have "stream_reach (xs @ [x]) None (?s [x] [] Running None)"
    using stream_reach_sent[of xs "[x]" None] by (simp add: stream_start_def)
  then have "stream_reach (xs @ [x]) None (?s [] [x] Running None)"
    by (rule stream_reach.step) (use send[of "?s [x] [] Running None" x "[]"] in \<open>simp add: stream_start_def\<close>)
  then have "stream_reach (xs @ [x]) None (?s [] [x] Ended None)"
    by (rule stream_reach.step) (use succeed[of "?s [] [x] Running None"] in \<open>simp add: stream_start_def\<close>)
  then have "stream_reach (xs @ [x]) None (?s [] [x] MsgsClosed None)"
    by (rule stream_reach.step) (use close_msgs[of "?s [] [x] Ended None"] in \<open>simp add: stream_start_def\<close>)
  then have "stream_reach (xs @ [x]) None (?s [] [x] AllClosed None)"
    by (rule stream_reach.step) (use close_errs[of "?s [] [x] MsgsClosed None"] in \<open>simp add: stream_start_def\<close>)
  then have "stream_reach (xs @ [x]) None (?s [] [x] AllClosed (Some RecvEOF))"
    by (rule stream_reach.step) (use recv_errs_closed[of "?s [] [x] AllClosed None"] in \<open>simp add: stream_start_def\<close>)
  then show ?thesis by (intro exI[of _ "?s [] [x] AllClosed (Some RecvEOF)"]) (simp add: stream_start_def)
qed

text \<open>
  The error of a failed sync can be swallowed: the message channel is closed before the reader
  has looked at the error channel, \<open>Recv\<close> may pick it, and the failed call looks like a success
  that delivered everything.
\<close>

theorem sync_error_swallowed:
  "\<exists>s. stream_reach xs (Some e) s \<and> ss_result s = Some RecvEOF \<and> ss_got s = xs"
proof -
  let ?s = "\<lambda>errs ph res. stream_start xs (Some e)
      \<lparr>ss_todo := [], ss_errs := errs, ss_phase := ph, ss_got := xs, ss_result := res\<rparr>"
  have "stream_reach xs (Some e) (?s [] Running None)"
    using stream_reach_sent[of xs "[]" "Some e"] by (simp add: stream_start_def)
  then have "stream_reach xs (Some e) (?s [e] Ended None)"
    by (rule stream_reach.step) (use fail[of "?s [] Running None" e] in \<open>simp add: stream_start_def\<close>)
  then have "stream_reach xs (Some e) (?s [e] MsgsClosed None)"
    by (rule stream_reach.step) (use close_msgs[of "?s [e] Ended None"] in \<open>simp add: stream_start_def\<close>)
  then have "stream_reach xs (Some e) (?s [e] MsgsClosed (Some RecvEOF))"
    by (rule stream_reach.step) (use recv_msgs_closed[of "?s [e] MsgsClosed None"] in \<open>simp add: stream_start_def\<close>)
  then show ?thesis by (intro exI[of _ "?s [e] MsgsClosed (Some RecvEOF)"]) (simp add: stream_start_def)
qed

section \<open>Concrete case\<close>

theorem stream_delivers_prefix_witness:
  "\<exists>lost. [RNone, RNone] = ss_got (stream_start [RNone, RNone] None\<lparr>ss_todo := [RNone], ss_got := [RNone]\<rparr>) @ lost"
  using stream_delivers_prefix[OF stream_reach_sent[of "[RNone]" "[RNone]" None]] by auto


end
