(* ===== verification/Wasi_Extension.thy ===== *)
theory Wasi_Extension
  imports Wasi_Channel
begin

text \<open>
  \<open>internal/waruntime/controller.go\<close>, the cache of compiled modules, and
  \<open>internal/extension/wasi_extension.go\<close>, an extension backed by such a module. Compiling is a
  parameter.
\<close>

section \<open>The cache of modules\<close>

record 'p loaded =
  ld_version :: string
  ld_module :: 'p
  ld_permissions :: "string list option"
  ld_configMap :: "config_map_ref option"

type_synonym 'p wasi_controller = "(string, 'p loaded) gomap"

text \<open>The runtime's operations on modules: compile, list the exports, close.\<close>

record 'p engine =
  en_compile :: "byte list \<Rightarrow> gerr + 'p"
  en_exports :: "'p \<Rightarrow> exports"
  en_close :: "'p \<Rightarrow> gerr option"
  en_typeName :: "value_type \<Rightarrow> string"

text \<open>\<open>Controller.getModule\<close> and \<open>Controller.NewRunner\<close>; a runner starts without a request.\<close>

definition getModule :: "'p wasi_controller \<Rightarrow> string \<Rightarrow> 'p loaded option" where
  "getModule ctl name = mget ctl name"

definition newRunner :: "'p wasi_controller \<Rightarrow> string \<Rightarrow> gerr + 'p \<times> runner" where
  "newRunner ctl name =
     (case getModule ctl name of
        None \<Rightarrow> Inl (EWrap name (EMsg ''extension not found''))
      | Some ext \<Rightarrow>
          Inr (ld_module ext,
            \<lparr>rn_name = name, rn_version = ld_version ext, rn_validationRequest = None,
             rn_syncRequest = None, rn_permissions = ld_permissions ext,
             rn_configMap = ld_configMap ext, rn_msgs = None, rn_validationErrors = []\<rparr>))"

text \<open>\<open>Controller.Load\<close>.\<close>

definition controller_load ::
    "'p engine \<Rightarrow> string \<Rightarrow> string \<Rightarrow> byte list \<Rightarrow> string list option \<Rightarrow> config_map_ref option \<Rightarrow>
     'p wasi_controller \<Rightarrow> gerr option \<times> 'p wasi_controller" where
  "controller_load en name version module perms cm ctl =
     (let old = getModule ctl name
      in if old \<noteq> None \<and> ld_version (the old) = version then (None, ctl)
         else (case en_compile en module of
                 Inl e \<Rightarrow> (Some e, ctl)
               | Inr compiled \<Rightarrow>
                   (case validate_module (en_exports en compiled) of
                      Some me \<Rightarrow> (Some (EMsg (module_error_text (en_typeName en) me)), ctl)
                    | None \<Rightarrow>
                        (let new = mset_key name \<lparr>ld_version = version, ld_module = compiled,
                                     ld_permissions = perms, ld_configMap = cm\<rparr> ctl
                         in case old of
                              None \<Rightarrow> (None, new)
                            | Some o1 \<Rightarrow>
                                (case en_close en (ld_module o1) of
                                   Some e \<Rightarrow> (Some e, ctl)
                                 | None \<Rightarrow> (None, new))))))"

text \<open>A module in the cache has passed the check of its exports.\<close>

definition cache_ok :: "'p engine \<Rightarrow> 'p wasi_controller \<Rightarrow> bool" where
  "cache_ok en ctl \<longleftrightarrow> (\<forall>name ld. mget ctl name = Some ld \<longrightarrow> validate_module (en_exports en (ld_module ld)) = None)"

section \<open>Initialising an extension\<close>

text \<open>
  \<open>json.Unmarshal(raw, &properties{})\<close>: Go matches the member name \<open>properties\<close> without regard
  to case, merges repeated objects into the map, and takes null for a nil map. Only the keys are
  used. A non-object is an error.
\<close>

definition lower_char :: "char \<Rightarrow> char" where
  "lower_char c = (if is_upper_letter c then char_of ((of_char c :: nat) + 32) else c)"

fun collect_properties :: "(string \<times> json) list \<Rightarrow> (string, json) gomap \<Rightarrow> bool \<Rightarrow> (string, json) gomap \<times> bool" where
  "collect_properties [] cur bad = (cur, bad)"
| "collect_properties ((k, v) # kvs) cur bad =
     (if map lower_char k = ''properties''
      then (case v of
              JNull \<Rightarrow> collect_properties kvs [] bad
            | JObj m \<Rightarrow> collect_properties kvs (merge_into cur m) bad
            | _ \<Rightarrow> collect_properties kvs cur True)
      else collect_properties kvs cur bad)"

definition root_keys :: "raw \<Rightarrow> gerr + string list" where
  "root_keys b =
     (case b of
        RawNil \<Rightarrow> Inl (EMsg ''unexpected end of JSON input'')
      | RawBad _ \<Rightarrow> Inl (EMsg ''invalid character'')
      | RawJSON JNull \<Rightarrow> Inr []
      | RawJSON (JObj kvs) \<Rightarrow>
          (case collect_properties kvs [] False of
             (m, bad) \<Rightarrow> if bad then Inl (EMsg ''json: cannot unmarshal into Go struct field'')
                         else Inr (map fst m))
      | RawJSON _ \<Rightarrow> Inl (EMsg ''json: cannot unmarshal into Go value''))"

text \<open>\<open>filepath.Ext\<close>: from the last dot of the last path element on.\<close>

fun ext_rev :: "string \<Rightarrow> string \<Rightarrow> string" where
  "ext_rev [] acc = []"
| "ext_rev (c # cs) acc =
     (if c = CHR ''/'' then [] else if c = CHR ''.'' then c # acc else ext_rev cs (c # acc))"

definition path_ext :: "string \<Rightarrow> string" where
  "path_ext p = ext_rev (rev p) []"

text \<open>
  \<open>initDocs\<close>: the layer is a gzipped tar archive, which a parameter unpacks into its entries (name
  and content, or the error of reading it), followed by an error or the end.
\<close>

record tar_entry =
  te_name :: string
  te_content :: "gerr + byte list"

fun read_docs :: "tar_entry list \<Rightarrow> gerr option \<Rightarrow> byte list list \<Rightarrow> gerr option \<times> byte list list" where
  "read_docs [] final pages = (final, pages)"
| "read_docs (en # es) final pages =
     (if path_ext (te_name en) \<noteq> ''.md'' then read_docs es final pages
      else (case te_content en of
              Inl e \<Rightarrow> (Some e, pages)
            | Inr b \<Rightarrow> read_docs es final (pages @ [b])))"

definition MediaTypeWASI :: string where "MediaTypeWASI = ''application/vnd.com.suffiks.wasi.v1''"
definition MediaTypeDocs :: string where "MediaTypeDocs = ''application/vnd.com.suffiks.docs.layer.v1+tar''"

type_synonym layers = "(string, byte list) gomap"

definition init_docs ::
    "(byte list \<Rightarrow> gerr + tar_entry list \<times> gerr option) \<Rightarrow> layers \<Rightarrow> gerr option \<times> byte list list" where
  "init_docs untar files =
     (case mget files MediaTypeDocs of
        None \<Rightarrow> (None, [])
      | Some b \<Rightarrow>
          (case untar b of
             Inl e \<Rightarrow> (Some e, [])
           | Inr (es, final) \<Rightarrow> read_docs es final []))"

text \<open>\<open>WASI\<close>, without the shared \<open>instance\<close> field (below).\<close>

record wasi_ext =
  we_extension :: extension
  we_pages :: "byte list list"
  we_sourceSpec :: "string list"

text \<open>\<open>NewWASI\<close> and \<open>WASI.init\<close>: the module is loaded under the name of the extension.\<close>

definition wasi_init ::
    "'p engine \<Rightarrow> (byte list \<Rightarrow> gerr + tar_entry list \<times> gerr option) \<Rightarrow> extension \<Rightarrow> ext_wasi \<Rightarrow> layers \<Rightarrow>
     'p wasi_controller \<Rightarrow> (gerr + wasi_ext) \<times> 'p wasi_controller" where
  "wasi_init en untar ext w files ctl =
     (case root_keys (es_schema (ex_spec ext)) of
        Inl e \<Rightarrow> (Inl e, ctl)
      | Inr keys \<Rightarrow>
          (case controller_load en (ex_name ext) (image_tag w)
                  (case mget files MediaTypeWASI of None \<Rightarrow> [] | Some b \<Rightarrow> b)
                  (Some (permissions_of (wc_resources w))) (wc_configMap w) ctl of
             (Some e, ctl1) \<Rightarrow> (Inl (EWrap ''WASI.init: error loading wasi module'' e), ctl1)
           | (None, ctl1) \<Rightarrow>
               (case init_docs untar files of
                  (Some e, _) \<Rightarrow> (Inl (EWrap ''WASI.init: error loading docs'' e), ctl1)
                | (None, pages) \<Rightarrow>
                    (Inr \<lparr>we_extension = ext, we_pages = pages, we_sourceSpec = keys\<rparr>, ctl1))))"

section \<open>The cache and its runners\<close>

lemma controller_load_cases:
  assumes "controller_load en name v b perms cm ctl = (None, ctl')"
  obtains (same) ld where "mget ctl name = Some ld" "ld_version ld = v" "ctl' = ctl"
  | (new) p where "en_compile en b = Inr p" "validate_module (en_exports en p) = None"
      "ctl' = mset_key name \<lparr>ld_version = v, ld_module = p, ld_permissions = perms, ld_configMap = cm\<rparr> ctl"
  using assms
  by (auto simp: controller_load_def Let_def getModule_def split: if_splits sum.splits option.splits)

lemma controller_load_fail:
  "controller_load en name v b perms cm ctl = (Some e, ctl') \<Longrightarrow> ctl' = ctl"
  by (auto simp: controller_load_def Let_def split: if_splits sum.splits option.splits)

text \<open>
  Loading keeps the cache sound: every module a runner can be made of exports the functions the
  host calls, a failed load changes nothing, and other extensions' modules are untouched.
\<close>

theorem load_keeps_cache_ok:
  assumes "cache_ok en ctl" "controller_load en name v b perms cm ctl = (err, ctl')"
  shows "cache_ok en ctl' \<and> (err \<noteq> None \<longrightarrow> ctl' = ctl) \<and>
    (\<forall>other. other \<noteq> name \<longrightarrow> newRunner ctl' other = newRunner ctl other)"
proof (cases err)
  case None
  with assms(2) have "controller_load en name v b perms cm ctl = (None, ctl')" by simp
  then show ?thesis
    by (cases rule: controller_load_cases)
      (use assms(1) None in \<open>auto simp: cache_ok_def mget_update newRunner_def getModule_def\<close>)
next
  case (Some e)
  with assms controller_load_fail[of en name v b perms cm ctl e ctl'] show ?thesis by auto
qed

text \<open>
  After a successful load of another version a runner of that name runs the new module with the
  new permissions and config map, and starts without a request, a channel or errors.
\<close>

theorem load_then_run:
  assumes "controller_load en name v b perms cm ctl = (None, ctl')"
    and "\<forall>ld. mget ctl name = Some ld \<longrightarrow> ld_version ld \<noteq> v"
  shows "\<exists>p r. en_compile en b = Inr p \<and> newRunner ctl' name = Inr (p, r) \<and> rn_version r = v \<and>
    rn_permissions r = perms \<and> rn_configMap r = cm \<and> rn_syncRequest r = None \<and>
    rn_validationRequest r = None \<and> rn_msgs r = None \<and> rn_validationErrors r = []"
  using assms(1)
  by (cases rule: controller_load_cases)
    (use assms(2) in \<open>auto simp: newRunner_def getModule_def mget_update\<close>)

lemma wasi_init_load:
  assumes "wasi_init en untar ext w files ctl = (Inr we, ctl')"
  obtains b where "controller_load en (ex_name ext) (image_tag w) b
    (Some (permissions_of (wc_resources w))) (wc_configMap w) ctl = (None, ctl')"
  using assms by (auto simp: wasi_init_def split: sum.splits prod.splits option.splits)

text \<open>
  Changing the resources of an extension has no effect while its image and tag stay the same:
  after the extension is initialised again, a guest keeps exactly the permissions it was first
  loaded with, also those the new version no longer declares.
\<close>

theorem permissions_go_stale:
  assumes "mget ctl (ex_name ext) = Some ld" "ld_version ld = image_tag w"
    and "wasi_init en untar ext w files ctl = (Inr we, ctl')"
    and "newRunner ctl' (ex_name ext) = Inr (p, r)"
  shows "isAllowed (rn_permissions r) gv meth = isAllowed (ld_permissions ld) gv meth \<and>
    p = ld_module ld \<and> rn_configMap r = ld_configMap ld"
proof -
  from assms(3) obtain b where load: "controller_load en (ex_name ext) (image_tag w) b
      (Some (permissions_of (wc_resources w))) (wc_configMap w) ctl = (None, ctl')"
    by (rule wasi_init_load)
  have "ctl' = ctl"
    using load assms(1,2) by (simp add: controller_load_def getModule_def)
  with assms(1,4) show ?thesis by (auto simp: newRunner_def getModule_def)
qed

section \<open>Calls of one extension at the same time\<close>

text \<open>
  Every call of an extension (\<open>Default\<close>, \<open>Validate\<close>, \<open>Sync\<close>, \<open>Delete\<close>) first stores a new
  runner in the field \<open>instance\<close> of the shared \<open>WASI\<close> value and then calls the runner it finds in
  that field. There is no lock. Threads and runners are numbered.
\<close>

datatype thread = NotStarted | Stored nat | Calling nat

record calls =
  cl_instance :: "nat option"
  cl_next :: nat
  cl_threads :: "nat \<Rightarrow> thread"

definition calls_start :: calls where
  "calls_start = \<lparr>cl_instance = None, cl_next = 0, cl_threads = (\<lambda>_. NotStarted)\<rparr>"

inductive calls_step :: "calls \<Rightarrow> calls \<Rightarrow> bool" where
  store: "cl_threads s t = NotStarted \<Longrightarrow>
    calls_step s (s\<lparr>cl_instance := Some (cl_next s), cl_next := Suc (cl_next s),
                    cl_threads := (cl_threads s)(t := Stored (cl_next s))\<rparr>)"
| call: "cl_threads s t = Stored own \<Longrightarrow> cl_instance s = Some r \<Longrightarrow>
    calls_step s (s\<lparr>cl_threads := (cl_threads s)(t := Calling r)\<rparr>)"

inductive calls_reach :: "calls \<Rightarrow> bool" where
  start: "calls_reach calls_start"
| step: "calls_reach s \<Longrightarrow> calls_step s s' \<Longrightarrow> calls_reach s'"

inductive_simps calls_step_simp: "calls_step s s'"

text \<open>
  Two calls of one WASI extension that overlap can end up on the same runner, although each made
  its own: one runner then serves two requests, and the guest of one call reads the other's owner
  and spec.
\<close>

theorem overlapping_calls_share_runner:
  "\<exists>s r. calls_reach s \<and> cl_threads s 0 = Calling r \<and> cl_threads s 1 = Calling r \<and> cl_next s = 2"
proof -
  define s1 where "s1 = calls_start\<lparr>cl_instance := Some 0, cl_next := 1,
    cl_threads := (\<lambda>_. NotStarted)(0 := Stored 0)\<rparr>"
  define s2 where "s2 = s1\<lparr>cl_instance := Some 1, cl_next := 2,
    cl_threads := (cl_threads s1)(1 := Stored 1)\<rparr>"
  define s3 where "s3 = s2\<lparr>cl_threads := (cl_threads s2)(0 := Calling 1)\<rparr>"
  define s4 where "s4 = s3\<lparr>cl_threads := (cl_threads s3)(1 := Calling 1)\<rparr>"
  have "calls_step calls_start s1"
    using store[of calls_start 0] by (simp add: calls_start_def s1_def)
  moreover have "calls_step s1 s2"
    using store[of s1 1] by (simp add: calls_start_def s1_def s2_def numeral_2_eq_2)
  moreover have "calls_step s2 s3"
    using call[of s2 0 0 1] by (simp add: calls_start_def s1_def s2_def s3_def)
  moreover have "calls_step s3 s4"
    using call[of s3 1 1 1] by (simp add: calls_start_def s1_def s2_def s3_def s4_def)
  ultimately have "calls_reach s4"
    by (meson calls_reach.start calls_reach.step)
  then show ?thesis
    by (intro exI[of _ s4] exI[of _ 1]) (simp add: s4_def s3_def s2_def s1_def)
qed

section \<open>Concrete cases\<close>

definition ex_exports :: exports where
  "ex_exports = map (\<lambda>s. (fd_name s, fd_args s, fd_returns s)) requiredFunctions"

definition ex_engine :: "string engine" where
  "ex_engine = \<lparr>en_compile = (\<lambda>b. Inr ''module''), en_exports = (\<lambda>p. ex_exports),
     en_close = (\<lambda>p. None), en_typeName = (\<lambda>t. '''')\<rparr>"

lemma ex_exports_ok: "validate_module ex_exports = None"
  by (simp add: validate_module_def ex_exports_def requiredFunctions_def equalTypes_def
      ValueTypeI32_def ValueTypeI64_def)

theorem load_keeps_cache_ok_witness:
  "cache_ok ex_engine (snd (controller_load ex_engine ''x'' ''img:1'' [] None None []))"
  using load_keeps_cache_ok[where en = ex_engine and ctl = "[]" and name = "''x''" and v = "''img:1''"
      and b = "[]" and perms = None and cm = None, OF _ prod.collapse[symmetric]]
  by (simp add: cache_ok_def)

theorem load_then_run_witness:
  "\<exists>r. newRunner (snd (controller_load ex_engine ''x'' ''img:1'' [] None None [])) ''x'' = Inr (''module'', r)"
proof -
  have "controller_load ex_engine ''x'' ''img:1'' [] None None [] =
      (None, snd (controller_load ex_engine ''x'' ''img:1'' [] None None []))"
    by (simp add: controller_load_def getModule_def ex_engine_def ex_exports_ok Let_def)
  from load_then_run[OF this] show ?thesis by (auto simp: ex_engine_def)
qed

definition ex_wasi :: ext_wasi where
  "ex_wasi = \<lparr>wc_image = ''img'', wc_tag = ''1'', wc_resources = [], wc_configMap = None\<rparr>"

definition ex_wasi_extension :: extension where
  "ex_wasi_extension = \<lparr>ex_meta = zero_meta\<lparr>om_name := ''x''\<rparr>,
     ex_spec = \<lparr>es_targets = [''Application''], es_schema = RawJSON JNull,
       es_controller = \<lparr>cs_grpc = None, cs_wasi = Some ex_wasi\<rparr>,
       es_webhooks = \<lparr>wh_validation = False, wh_defaulting = False\<rparr>, es_always = True\<rparr>,
     ex_status = StatusNone\<rparr>"

definition ex_cached :: "string loaded" where
  "ex_cached = \<lparr>ld_version = ''img:1'', ld_module = ''module'',
     ld_permissions = Some [''networking.k8s.io/v1/ingresses.delete''], ld_configMap = None\<rparr>"

theorem permissions_go_stale_witness:
  "\<exists>r. newRunner (snd (wasi_init ex_engine (\<lambda>b. Inl EEOF) ex_wasi_extension ex_wasi [] [(''x'', ex_cached)])) ''x''
       = Inr (''module'', r) \<and>
     isAllowed (rn_permissions r) \<lparr>gv_group = ''networking.k8s.io'', gv_version = ''v1'',
       gv_resource = ''ingresses''\<rparr> ''delete'' = None"
proof -
  let ?ctl = "[(''x'', ex_cached)]"
  have init: "wasi_init ex_engine (\<lambda>b. Inl EEOF) ex_wasi_extension ex_wasi [] ?ctl =
      (Inr \<lparr>we_extension = ex_wasi_extension, we_pages = [], we_sourceSpec = []\<rparr>, ?ctl)"
    by (simp add: wasi_init_def root_keys_def ex_wasi_extension_def zero_meta_def controller_load_def
        getModule_def ex_cached_def ex_wasi_def image_tag_def init_docs_def)
  obtain r where run: "newRunner ?ctl ''x'' = Inr (''module'', r)"
    by (simp add: newRunner_def getModule_def ex_cached_def)
  have name: "ex_name ex_wasi_extension = ''x''" by (simp add: ex_wasi_extension_def)
  have "isAllowed (rn_permissions r) gv meth = isAllowed (ld_permissions ex_cached) gv meth" for gv meth
    using permissions_go_stale[OF _ _ init, of ex_cached "''module''" r gv meth] run
    by (simp add: name ex_cached_def ex_wasi_def image_tag_def)
  then have "isAllowed (rn_permissions r) \<lparr>gv_group = ''networking.k8s.io'', gv_version = ''v1'',
      gv_resource = ''ingresses''\<rparr> ''delete'' = None"
    by (simp add: isAllowed_def[of "ld_permissions ex_cached"]) (simp add: ex_cached_def)
  with run init show ?thesis by auto
qed

end
