(* ===== verification/Ext_Manager.thy ===== *)
theory Ext_Manager
  imports Wasi_Extension Api_Facts
begin

text \<open>
  \<open>internal/extension/ext_manager.go\<close> with \<open>grpc_extension.go\<close>: the extensions known to the
  process and, per target kind, the schema generator they are merged into. Every operation runs
  under the manager's locks, so it is one step here. Dialling a gRPC service and loading an image
  are parameters.
\<close>

section \<open>State\<close>

datatype backend = BGrpc string | BWasi wasi_ext

text \<open>A value of the interface \<open>Extension\<close>: its resource, its root keys and what is behind it.\<close>

record managed =
  mg_ext :: extension
  mg_rootKeys :: "string list"
  mg_backend :: backend

record 'p ext_manager =
  em_spec :: "(string, generator) gomap"
  em_extensions :: "(string, managed) gomap"
  em_wasi :: "'p wasi_controller"

text \<open>What the manager calls of other packages.\<close>

record 'p manager_env =
  mv_dec :: "raw \<Rightarrow> gerr + schema"
  mv_dial :: "string \<Rightarrow> gerr option"
  mv_loader :: "string \<Rightarrow> string \<Rightarrow> gerr + layers"
  mv_engine :: "'p engine"
  mv_untar :: "byte list \<Rightarrow> gerr + tar_entry list \<times> gerr option"

section \<open>Construction\<close>

text \<open>
  \<open>NewExtensionManager\<close>: the files of a directory tree in walking order, each the error of the
  walk or a path with the content; the name of the kind loses the prefix \<open>Base\<close>.
\<close>

definition trim_base :: "string \<Rightarrow> string" where
  "trim_base s = (if take 4 s = ''Base'' then drop 4 s else s)"

fun load_bases ::
    "('b \<Rightarrow> gerr + crd_file) \<Rightarrow> (gerr + string \<times> (gerr + 'b)) list \<Rightarrow> (string, generator) gomap \<Rightarrow>
     gerr option \<times> (string, generator) gomap" where
  "load_bases parse [] spec = (None, spec)"
| "load_bases parse (Inl e # fs) spec = (Some e, spec)"
| "load_bases parse (Inr (path, content) # fs) spec =
     (if path_ext path \<noteq> ''.yaml'' then load_bases parse fs spec
      else (case from_yaml parse content of
              Inl e \<Rightarrow> (Some e, spec)
            | Inr g \<Rightarrow> load_bases parse fs (mset_key (trim_base (g_kind g)) g spec)))"

definition new_manager ::
    "('b \<Rightarrow> gerr + crd_file) \<Rightarrow> (gerr + string \<times> (gerr + 'b)) list \<Rightarrow> gerr option \<times> 'p ext_manager" where
  "new_manager parse fs =
     (case load_bases parse fs [] of
        (err, spec) \<Rightarrow> (err, \<lparr>em_spec = spec, em_extensions = [], em_wasi = []\<rparr>))"

section \<open>Adding\<close>

definition not_a_target :: "string \<Rightarrow> gerr" where
  "not_a_target t = EMsg (t @ '' not a valid target'')"

text \<open>\<open>GRPC.init\<close>.\<close>

definition grpc_init :: "extension \<Rightarrow> ext_grpc \<Rightarrow> gerr + managed" where
  "grpc_init ext gc =
     (case root_keys (es_schema (ex_spec ext)) of
        Inl e \<Rightarrow> Inl e
      | Inr keys \<Rightarrow> Inr \<lparr>mg_ext = ext, mg_rootKeys = keys, mg_backend = BGrpc (grpc_target gc)\<rparr>)"

definition addGRPC ::
    "'p manager_env \<Rightarrow> extension \<Rightarrow> ext_grpc \<Rightarrow> string \<Rightarrow> 'p ext_manager \<Rightarrow> gerr option \<times> 'p ext_manager" where
  "addGRPC mv ext gc target m =
     (case mv_dial mv (grpc_target gc) of
        Some e \<Rightarrow> (Some (EWrap ''ExtensionManager.add: grpc dial error'' e), m)
      | None \<Rightarrow>
          (case mget (em_spec m) target of
             None \<Rightarrow> (Some (not_a_target target), m)
           | Some g \<Rightarrow>
               (case generator_add (mv_dec mv) g (ex_name ext) (es_schema (ex_spec ext)) of
                  (Some e, g1) \<Rightarrow> (Some e, m\<lparr>em_spec := mset_key target g1 (em_spec m)\<rparr>)
                | (None, g1) \<Rightarrow>
                    (let m1 = m\<lparr>em_spec := mset_key target g1 (em_spec m)\<rparr>
                     in case grpc_init ext gc of
                          Inl e \<Rightarrow> (Some e, m1)
                        | Inr wext \<Rightarrow>
                            (None, m1\<lparr>em_extensions := mset_key (ex_name ext) wext (em_extensions m1)\<rparr>)))))"

definition addWASI ::
    "'p manager_env \<Rightarrow> extension \<Rightarrow> ext_wasi \<Rightarrow> string \<Rightarrow> 'p ext_manager \<Rightarrow> gerr option \<times> 'p ext_manager" where
  "addWASI mv ext wc target m =
     (case mv_loader mv (wc_image wc) (wc_tag wc) of
        Inl e \<Rightarrow> (Some (EWrap ''ExtensionManager.add: oci get error'' e), m)
      | Inr files \<Rightarrow>
          (case mget (em_spec m) target of
             None \<Rightarrow> (Some (not_a_target target), m)
           | Some g \<Rightarrow>
               (case generator_add (mv_dec mv) g (ex_name ext) (es_schema (ex_spec ext)) of
                  (Some e, g1) \<Rightarrow> (Some e, m\<lparr>em_spec := mset_key target g1 (em_spec m)\<rparr>)
                | (None, g1) \<Rightarrow>
                    (let m1 = m\<lparr>em_spec := mset_key target g1 (em_spec m)\<rparr>
                     in case wasi_init (mv_engine mv) (mv_untar mv) ext wc files (em_wasi m1) of
                          (Inl e, ctl) \<Rightarrow> (Some e, m1\<lparr>em_wasi := ctl\<rparr>)
                        | (Inr we, ctl) \<Rightarrow>
                            (None, m1\<lparr>em_wasi := ctl, em_extensions := mset_key (ex_name ext)
                               \<lparr>mg_ext = ext, mg_rootKeys = we_sourceSpec we, mg_backend = BWasi we\<rparr>
                               (em_extensions m1)\<rparr>)))))"

text \<open>\<open>ExtensionManager.add\<close> and \<open>Add\<close>: the targets in order, up to the first error.\<close>

definition add_target ::
    "'p manager_env \<Rightarrow> extension \<Rightarrow> string \<Rightarrow> 'p ext_manager \<Rightarrow> gerr option \<times> 'p ext_manager" where
  "add_target mv ext target m =
     (case cs_grpc (es_controller (ex_spec ext)) of
        Some gc \<Rightarrow> addGRPC mv ext gc target m
      | None \<Rightarrow>
          (case cs_wasi (es_controller (ex_spec ext)) of
             Some wc \<Rightarrow> addWASI mv ext wc target m
           | None \<Rightarrow> (Some (EMsg ''ExtensionManager.add: no controller specified''), m)))"

fun add_targets ::
    "'p manager_env \<Rightarrow> extension \<Rightarrow> string list \<Rightarrow> 'p ext_manager \<Rightarrow> gerr option \<times> 'p ext_manager" where
  "add_targets mv ext [] m = (None, m)"
| "add_targets mv ext (t # ts) m =
     (case add_target mv ext t m of
        (Some e, m1) \<Rightarrow> (Some e, m1)
      | (None, m1) \<Rightarrow> add_targets mv ext ts m1)"

definition manager_add ::
    "'p manager_env \<Rightarrow> extension \<Rightarrow> 'p ext_manager \<Rightarrow> gerr option \<times> 'p ext_manager" where
  "manager_add mv ext m = add_targets mv ext (es_targets (ex_spec ext)) m"

section \<open>Removing\<close>

fun remove_targets ::
    "(raw \<Rightarrow> gerr + schema) \<Rightarrow> string \<Rightarrow> string list \<Rightarrow> (string, generator) gomap \<Rightarrow>
     gerr option \<times> (string, generator) gomap" where
  "remove_targets dec name [] spec = (None, spec)"
| "remove_targets dec name (t # ts) spec =
     (case mget spec t of
        None \<Rightarrow> (Some (not_a_target t), spec)
      | Some g \<Rightarrow>
          (case generator_remove dec g name of
             (Some e, g1) \<Rightarrow> (Some e, mset_key t g1 spec)
           | (None, g1) \<Rightarrow> remove_targets dec name ts (mset_key t g1 spec)))"

definition manager_remove ::
    "'p manager_env \<Rightarrow> extension \<Rightarrow> 'p ext_manager \<Rightarrow> gerr option \<times> 'p ext_manager" where
  "manager_remove mv ext m =
     (case remove_targets (mv_dec mv) (ex_name ext) (es_targets (ex_spec ext)) (em_spec m) of
        (Some e, spec) \<Rightarrow> (Some e, m\<lparr>em_spec := spec\<rparr>)
      | (None, spec) \<Rightarrow>
          (None, m\<lparr>em_spec := spec, em_extensions := mdel (ex_name ext) (em_extensions m)\<rparr>))"

section \<open>Queries\<close>

text \<open>\<open>Schema\<close>: nil for an unknown target.\<close>

definition manager_schema :: "'p ext_manager \<Rightarrow> string \<Rightarrow> schema option" where
  "manager_schema m target =
     (case mget (em_spec m) target of None \<Rightarrow> None | Some g \<Rightarrow> generator_schema g)"

definition extensions_for :: "'p ext_manager \<Rightarrow> string \<Rightarrow> managed list" where
  "extensions_for m kind =
     filter (\<lambda>v. kind \<in> set (es_targets (ex_spec (mg_ext v)))) (map snd (em_extensions m))"

fun dedup :: "managed list \<Rightarrow> string list \<Rightarrow> managed list" where
  "dedup [] added = []"
| "dedup (v # vs) added =
     (if ex_name (mg_ext v) \<in> set added then dedup vs added
      else v # dedup vs (ex_name (mg_ext v) # added))"

definition all_extensions :: "'p ext_manager \<Rightarrow> managed list" where
  "all_extensions m = dedup (map snd (em_extensions m)) []"

section \<open>The generators as a store of schemas\<close>

text \<open>What the manager relies on of a schema generator.\<close>

locale schema_store =
  fixes store_add :: "'g \<Rightarrow> string \<Rightarrow> raw \<Rightarrow> gerr option \<times> 'g"
    and store_remove :: "'g \<Rightarrow> string \<Rightarrow> gerr option \<times> 'g"
    and applied :: "'g \<Rightarrow> string set"
  assumes add_ok: "store_add g n r = (None, g') \<Longrightarrow> applied g' = insert n (applied g)"
    and add_frame: "store_add g n r = (e, g') \<Longrightarrow> applied g' - {n} = applied g - {n}"
    and remove_ok: "store_remove g n = (None, g') \<Longrightarrow> applied g' = applied g - {n}"
    and remove_frame: "store_remove g n = (e, g') \<Longrightarrow> applied g' - {n} = applied g - {n}"
begin

lemma add_then_remove:
  "store_add g n r = (None, g1) \<Longrightarrow> store_remove g1 n = (None, g2) \<Longrightarrow> applied g2 = applied g - {n}"
  using add_ok remove_ok by fastforce

lemma other_applied:
  "store_add g n r = (e, g') \<Longrightarrow> k \<noteq> n \<Longrightarrow> k \<in> applied g' \<longleftrightarrow> k \<in> applied g"
  using add_frame by fastforce

end

lemma generator_remove_applied:
  "generator_remove dec g n = (e, g') \<Longrightarrow>
   mkeys (g_applied g') - {n} = mkeys (g_applied g) - {n} \<and>
   (e = None \<longrightarrow> mkeys (g_applied g') = mkeys (g_applied g) - {n})"
  by (auto simp: generator_remove_def Let_def mget_None_iff split: option.splits sum.splits if_splits)

lemma generator_add_applied:
  "generator_add dec g n r = (e, g') \<Longrightarrow>
   mkeys (g_applied g') - {n} = mkeys (g_applied g) - {n} \<and>
   (e = None \<longrightarrow> mkeys (g_applied g') = insert n (mkeys (g_applied g)))"
proof -
  assume add: "generator_add dec g n r = (e, g')"
  obtain e1 g1 where first: "(if mget (g_applied g) n \<noteq> None then generator_remove dec g n else (None, g)) = (e1, g1)"
    by (metis surj_pair)
  then have g1: "mkeys (g_applied g1) - {n} = mkeys (g_applied g) - {n}"
    by (auto split: if_splits dest!: generator_remove_applied)
  show ?thesis
  proof (cases e1)
    case (Some x)
    with add first g1 show ?thesis by (auto simp: generator_add_def)
  next
    case None
    have rest: "mkeys (g_applied g') = mkeys (g_applied g1) \<or>
        mkeys (g_applied g') = insert n (mkeys (g_applied g1))"
      "e = None \<Longrightarrow> mkeys (g_applied g') = insert n (mkeys (g_applied g1))"
      using add unfolding generator_add_def first None
      by (auto simp: Let_def split: prod.splits option.splits sum.splits if_splits)
    with g1 show ?thesis by blast
  qed
qed

interpretation gen_store: schema_store "generator_add dec" "generator_remove dec" "\<lambda>g. mkeys (g_applied g)" for dec
  by unfold_locales (auto dest: generator_add_applied generator_remove_applied)

end
