(* ===== verification/Ext_Manager_Facts.thy ===== *)
theory Ext_Manager_Facts
  imports Ext_Manager
begin

text \<open>
  The registry kept by the extension manager: what adding and removing do to the extensions that
  are called for a kind, and to the schemas of the targets.
\<close>

section \<open>One target\<close>

definition applied_of :: "(string, generator) gomap \<Rightarrow> string \<Rightarrow> string set" where
  "applied_of spec target = (case mget spec target of None \<Rightarrow> {} | Some g \<Rightarrow> mkeys (g_applied g))"

abbreviation applied_in :: "'p ext_manager \<Rightarrow> string \<Rightarrow> string set" where
  "applied_in m target \<equiv> applied_of (em_spec m) target"

lemma applied_of_update [simp]:
  "applied_of (mset_key t g spec) t' = (if t' = t then mkeys (g_applied g) else applied_of spec t')"
  by (simp add: applied_of_def mget_update)

lemma applied_of_Some [simp]: "mget spec t = Some g \<Longrightarrow> applied_of spec t = mkeys (g_applied g)"
  by (simp add: applied_of_def)

text \<open>
  What a call of \<open>add\<close> for one target can have done: nothing, or the generator of the target was
  changed and an extension perhaps registered.
\<close>

definition add_changed ::
    "'p manager_env \<Rightarrow> extension \<Rightarrow> string \<Rightarrow> 'p ext_manager \<Rightarrow> gerr option \<Rightarrow> 'p ext_manager \<Rightarrow> bool" where
  "add_changed mv ext t m err m' \<longleftrightarrow>
     (\<exists>g e g1. mget (em_spec m) t = Some g \<and>
        generator_add (mv_dec mv) g (ex_name ext) (es_schema (ex_spec ext)) = (e, g1) \<and>
        em_spec m' = mset_key t g1 (em_spec m) \<and>
        (err = None \<longrightarrow> e = None) \<and>
        (if err = None
         then \<exists>w. em_extensions m' = mset_key (ex_name ext) w (em_extensions m) \<and> mg_ext w = ext \<and>
           root_keys (es_schema (ex_spec ext)) = Inr (mg_rootKeys w)
         else em_extensions m' = em_extensions m))"

lemma addGRPC_effect:
  "addGRPC mv ext gc t m = (err, m') \<Longrightarrow> (err \<noteq> None \<and> m' = m) \<or> add_changed mv ext t m err m'"
proof -
  assume add: "addGRPC mv ext gc t m = (err, m')"
  show ?thesis
  proof (cases "mv_dial mv (grpc_target gc) = None \<and> mget (em_spec m) t \<noteq> None")
    case False
    with add show ?thesis by (auto simp: addGRPC_def split: option.splits)
  next
    case True
    then obtain g where g: "mget (em_spec m) t = Some g" by blast
    obtain e g1 where ga: "generator_add (mv_dec mv) g (ex_name ext) (es_schema (ex_spec ext)) = (e, g1)"
      by (metis surj_pair)
    from True add g ga have "add_changed mv ext t m err m'"
      by (cases e; cases "root_keys (es_schema (ex_spec ext))")
        (auto simp: addGRPC_def grpc_init_def Let_def add_changed_def, (rule exI, rule conjI, rule refl, simp)?)
    then show ?thesis ..
  qed
qed

lemma wasi_init_keys:
  "wasi_init en untar ext wc files ctl = (Inr we, ctl') \<Longrightarrow>
   root_keys (es_schema (ex_spec ext)) = Inr (we_sourceSpec we)"
  by (auto simp: wasi_init_def split: sum.splits prod.splits option.splits)

lemma addWASI_effect:
  "addWASI mv ext wc t m = (err, m') \<Longrightarrow> (err \<noteq> None \<and> m' = m) \<or> add_changed mv ext t m err m'"
proof -
  assume add: "addWASI mv ext wc t m = (err, m')"
  show ?thesis
  proof (cases "mv_loader mv (wc_image wc) (wc_tag wc)")
    case (Inl e)
    with add show ?thesis by (auto simp: addWASI_def)
  next
    case (Inr files)
    show ?thesis
    proof (cases "mget (em_spec m) t")
      case None
      with add Inr show ?thesis by (auto simp: addWASI_def)
    next
      case (Some g)
      obtain e g1 where ga: "generator_add (mv_dec mv) g (ex_name ext) (es_schema (ex_spec ext)) = (e, g1)"
        by (metis surj_pair)
      obtain i ctl where wi: "wasi_init (mv_engine mv) (mv_untar mv) ext wc files (em_wasi m) = (i, ctl)"
        by (metis surj_pair)
      have keys: "root_keys (es_schema (ex_spec ext)) = Inr (we_sourceSpec we)" if "i = Inr we" for we
        using wi that wasi_init_keys by blast
      from add Inr Some ga wi keys have "add_changed mv ext t m err m'"
        by (cases e; cases i)
          (auto simp: addWASI_def Let_def add_changed_def, (rule exI, rule conjI, rule refl, simp)?)
      then show ?thesis ..
    qed
  qed
qed

lemma add_target_effect:
  "add_target mv ext t m = (err, m') \<Longrightarrow> (err \<noteq> None \<and> m' = m) \<or> add_changed mv ext t m err m'"
  using addGRPC_effect addWASI_effect by (fastforce simp: add_target_def split: option.splits)

lemma add_changed_frame:
  assumes "add_changed mv ext t m err m'"
  shows "t' \<noteq> t \<Longrightarrow> mget (em_spec m') t' = mget (em_spec m) t'"
    and "n \<noteq> ex_name ext \<Longrightarrow> mget (em_extensions m') n = mget (em_extensions m) n"
    and "applied_in m' t' - {ex_name ext} = applied_in m t' - {ex_name ext}"
    and "err = None \<Longrightarrow> ex_name ext \<in> applied_in m' t"
    and "err = None \<Longrightarrow> \<exists>w. mget (em_extensions m') (ex_name ext) = Some w \<and> mg_ext w = ext \<and>
      root_keys (es_schema (ex_spec ext)) = Inr (mg_rootKeys w)"
proof -
  from assms obtain g e g1 where g: "mget (em_spec m) t = Some g"
    and ga: "generator_add (mv_dec mv) g (ex_name ext) (es_schema (ex_spec ext)) = (e, g1)"
    and spec: "em_spec m' = mset_key t g1 (em_spec m)" and ok: "err = None \<longrightarrow> e = None"
    and exts: "if err = None
         then \<exists>w. em_extensions m' = mset_key (ex_name ext) w (em_extensions m) \<and> mg_ext w = ext \<and>
           root_keys (es_schema (ex_spec ext)) = Inr (mg_rootKeys w)
         else em_extensions m' = em_extensions m"
    unfolding add_changed_def by blast
  show "t' \<noteq> t \<Longrightarrow> mget (em_spec m') t' = mget (em_spec m) t'" by (simp add: spec mget_update)
  show "n \<noteq> ex_name ext \<Longrightarrow> mget (em_extensions m') n = mget (em_extensions m) n"
    using exts by (auto simp: mget_update split: if_splits)
  show "applied_in m' t' - {ex_name ext} = applied_in m t' - {ex_name ext}"
    using gen_store.add_frame[OF ga] g by (simp add: spec)
  show "err = None \<Longrightarrow> ex_name ext \<in> applied_in m' t"
    using ok ga by (simp add: spec gen_store.add_ok)
  show "err = None \<Longrightarrow> \<exists>w. mget (em_extensions m') (ex_name ext) = Some w \<and> mg_ext w = ext \<and>
      root_keys (es_schema (ex_spec ext)) = Inr (mg_rootKeys w)"
    using exts by (auto simp: mget_update)
qed

section \<open>All targets\<close>

lemma add_targets_frame:
  assumes "add_targets mv ext ts m = (err, m')"
  shows "(\<forall>t. t \<notin> set ts \<longrightarrow> mget (em_spec m') t = mget (em_spec m) t) \<and>
    (\<forall>n. n \<noteq> ex_name ext \<longrightarrow> mget (em_extensions m') n = mget (em_extensions m) n) \<and>
    (\<forall>t. applied_in m' t - {ex_name ext} = applied_in m t - {ex_name ext})"
  using assms
proof (induction ts arbitrary: m)
  case Nil
  then show ?case by simp
next
  case (Cons t ts)
  obtain e1 m1 where one: "add_target mv ext t m = (e1, m1)" by (metis surj_pair)
  have frame: "(\<forall>t'. t' \<noteq> t \<longrightarrow> mget (em_spec m1) t' = mget (em_spec m) t') \<and>
    (\<forall>n. n \<noteq> ex_name ext \<longrightarrow> mget (em_extensions m1) n = mget (em_extensions m) n) \<and>
    (\<forall>t'. applied_in m1 t' - {ex_name ext} = applied_in m t' - {ex_name ext})"
    using add_target_effect[OF one]
  proof
    assume "add_changed mv ext t m e1 m1"
    from add_changed_frame(1-3)[OF this] show ?thesis by blast
  qed simp
  show ?case
  proof (cases e1)
    case None
    with one Cons.prems have "add_targets mv ext ts m1 = (err, m')" by simp
    from Cons.IH[OF this] frame show ?thesis by simp
  next
    case (Some e)
    with one Cons.prems frame show ?thesis by simp
  qed
qed

lemma add_targets_keeps:
  assumes "add_targets mv ext ts m = (None, m')" "ex_name ext \<in> applied_in m t"
  shows "ex_name ext \<in> applied_in m' t"
  using assms
proof (induction ts arbitrary: m)
  case (Cons t1 ts)
  obtain m1 where one: "add_target mv ext t1 m = (None, m1)" and rest: "add_targets mv ext ts m1 = (None, m')"
    using Cons.prems(1) by (auto split: prod.splits option.splits)
  then have eff: "add_changed mv ext t1 m None m1" using add_target_effect by blast
  have "ex_name ext \<in> applied_in m1 t"
    using add_changed_frame(1)[OF eff, of t] add_changed_frame(4)[OF eff] Cons.prems(2)
    by (cases "t = t1") (simp_all add: applied_of_def)
  then show ?case by (rule Cons.IH[OF rest])
qed simp

lemma add_targets_ok:
  assumes "add_targets mv ext ts m = (None, m')" "ts \<noteq> []"
  shows "(\<exists>w. mget (em_extensions m') (ex_name ext) = Some w \<and> mg_ext w = ext \<and>
      root_keys (es_schema (ex_spec ext)) = Inr (mg_rootKeys w)) \<and>
    (\<forall>t \<in> set ts. ex_name ext \<in> applied_in m' t)"
  using assms
proof (induction ts arbitrary: m)
  case Nil
  then show ?case by simp
next
  case (Cons t ts)
  obtain m1 where one: "add_target mv ext t m = (None, m1)" and rest: "add_targets mv ext ts m1 = (None, m')"
    using Cons.prems by (auto split: prod.splits option.splits)
  then have eff: "add_changed mv ext t m None m1" using add_target_effect by blast
  from add_targets_keeps[OF rest add_changed_frame(4)[OF eff refl]]
  have here: "ex_name ext \<in> applied_in m' t" .
  show ?case
  proof (cases "ts = []")
    case True
    with rest here add_changed_frame(5)[OF eff refl] show ?thesis by simp
  next
    case False
    with Cons.IH[OF rest] here show ?thesis by simp
  qed
qed

lemma in_extensions_for:
  "gomap_ok (em_extensions m) \<Longrightarrow>
   v \<in> set (extensions_for m kind) \<longleftrightarrow>
   (\<exists>n. mget (em_extensions m) n = Some v) \<and> kind \<in> set (es_targets (ex_spec (mg_ext v)))"
  by (force simp: extensions_for_def image_iff gomap_ok_def dest: mget_in_set)

text \<open>
  After a successful \<open>Add\<close> of an extension with targets, the extension is called for exactly
  the kinds it targets, with the new specification and the root keys of its schema; its schema is
  applied in all of its targets; and every other extension is registered as before.
\<close>

theorem add_registers:
  assumes "manager_add mv ext m = (None, m')" "es_targets (ex_spec ext) \<noteq> []"
  shows "(\<exists>w. mget (em_extensions m') (ex_name ext) = Some w \<and> mg_ext w = ext \<and>
      root_keys (es_schema (ex_spec ext)) = Inr (mg_rootKeys w)) \<and>
    (\<forall>t \<in> set (es_targets (ex_spec ext)). ex_name ext \<in> applied_in m' t) \<and>
    (\<forall>n. n \<noteq> ex_name ext \<longrightarrow> mget (em_extensions m') n = mget (em_extensions m) n) \<and>
    (\<forall>t. applied_in m' t - {ex_name ext} = applied_in m t - {ex_name ext})"
  using add_targets_ok[of mv ext "es_targets (ex_spec ext)" m m']
    add_targets_frame[of mv ext "es_targets (ex_spec ext)" m None m'] assms
  by (simp add: manager_add_def)

section \<open>Removing\<close>

lemma remove_targets_frame:
  assumes "remove_targets dec name ts spec = (err, spec')"
  shows "(\<forall>t. t \<notin> set ts \<longrightarrow> mget spec' t = mget spec t) \<and>
    (\<forall>t. applied_of spec' t - {name} = applied_of spec t - {name}) \<and>
    (err = None \<longrightarrow> (\<forall>t. t \<in> set ts \<or> name \<notin> applied_of spec t \<longrightarrow> name \<notin> applied_of spec' t))"
  using assms
proof (induction ts arbitrary: spec)
  case Nil
  then show ?case by simp
next
  case (Cons t ts)
  show ?case
  proof (cases "mget spec t")
    case None
    with Cons.prems show ?thesis by auto
  next
    case (Some g)
    obtain e1 g1 where one: "generator_remove dec g name = (e1, g1)" by (metis surj_pair)
    note keys = gen_store.remove_frame[OF one]
    show ?thesis
    proof (cases e1)
      case (Some x)
      with Cons.prems \<open>mget spec t = Some g\<close> one
      have "err \<noteq> None" "spec' = mset_key t g1 spec" by auto
      moreover have "applied_of (mset_key t g1 spec) t' - {name} = applied_of spec t' - {name}" for t'
        using keys \<open>mget spec t = Some g\<close> by simp
      moreover have "\<forall>t'. t' \<notin> set (t # ts) \<longrightarrow> mget (mset_key t g1 spec) t' = mget spec t'"
        by (simp add: mget_update)
      ultimately show ?thesis by blast
    next
      case None
      with Cons.prems Some one have rest: "remove_targets dec name ts (mset_key t g1 spec) = (err, spec')"
        by simp
      have gone: "name \<notin> mkeys (g_applied g1)"
        using gen_store.remove_ok[OF one[unfolded None]] by simp
      note IH = Cons.IH[OF rest, THEN conjunct1] Cons.IH[OF rest, THEN conjunct2, THEN conjunct1]
        Cons.IH[OF rest, THEN conjunct2, THEN conjunct2]
      have "\<forall>t'. t' \<notin> set (t # ts) \<longrightarrow> mget spec' t' = mget spec t'"
        using IH(1) by (simp add: mget_update)
      moreover have "applied_of spec' t' - {name} = applied_of spec t' - {name}" for t'
        using IH(2)[rule_format, of t'] keys Some by (cases "t' = t") simp_all
      moreover have "name \<notin> applied_of spec' t'"
        if "err = None" "t' \<in> set (t # ts) \<or> name \<notin> applied_of spec t'" for t'
        using IH(3) gone that by (cases "t' = t") auto
      ultimately show ?thesis by blast
    qed
  qed
qed

text \<open>
  After a successful \<open>Remove\<close> no kind calls the extension any more, its schema is applied in
  none of the targets it named, and every other extension and its schemas are as before.
\<close>

theorem remove_unregisters:
  assumes "manager_remove mv ext m = (None, m')"
  shows "mget (em_extensions m') (ex_name ext) = None \<and>
    (\<forall>t \<in> set (es_targets (ex_spec ext)). ex_name ext \<notin> applied_in m' t) \<and>
    (\<forall>n. n \<noteq> ex_name ext \<longrightarrow> mget (em_extensions m') n = mget (em_extensions m) n) \<and>
    (\<forall>t. applied_in m' t - {ex_name ext} = applied_in m t - {ex_name ext})"
proof -
  obtain spec where rt: "remove_targets (mv_dec mv) (ex_name ext) (es_targets (ex_spec ext)) (em_spec m) = (None, spec)"
    and m': "m' = m\<lparr>em_spec := spec, em_extensions := mdel (ex_name ext) (em_extensions m)\<rparr>"
    using assms by (auto simp: manager_remove_def split: prod.splits option.splits)
  from remove_targets_frame[OF rt] show ?thesis by (simp add: m' mget_delete)
qed

text \<open>
  An extension that gives up a target leaves its schema there for good: neither adding its new
  version nor removing it touches a target it no longer names.
\<close>

theorem dropped_target_keeps_schema:
  assumes "t \<notin> set (es_targets (ex_spec ext))"
    and "manager_add mv ext m = (e1, m1)" "manager_remove mv ext m1 = (e2, m2)"
  shows "manager_schema m2 t = manager_schema m t \<and> applied_in m2 t = applied_in m t"
proof -
  obtain e spec where rt: "remove_targets (mv_dec mv) (ex_name ext) (es_targets (ex_spec ext)) (em_spec m1) = (e, spec)"
    by (metis surj_pair)
  have "em_spec m2 = spec" using assms(3) rt by (cases e) (auto simp: manager_remove_def)
  then have "mget (em_spec m2) t = mget (em_spec m1) t"
    using remove_targets_frame[OF rt] assms(1) by blast
  also have "\<dots> = mget (em_spec m) t"
    using add_targets_frame[OF assms(2)[unfolded manager_add_def]] assms(1) by blast
  finally show ?thesis by (simp add: manager_schema_def applied_of_def)
qed

section \<open>The registry as the controllers see it\<close>

definition manager_ok :: "'p ext_manager \<Rightarrow> bool" where
  "manager_ok m \<longleftrightarrow> gomap_ok (em_extensions m) \<and>
     (\<forall>n v. mget (em_extensions m) n = Some v \<longrightarrow> ex_name (mg_ext v) = n)"

lemma manager_ok_new [simp]: "manager_ok (snd (new_manager parse fs))"
  by (simp add: manager_ok_def new_manager_def split: prod.splits)

lemma add_target_ok: "add_target mv ext t m = (err, m') \<Longrightarrow> manager_ok m \<Longrightarrow> manager_ok m'"
  using add_target_effect[of mv ext t m err m']
  by (auto simp: add_changed_def manager_ok_def mget_update split: if_splits)

lemma add_targets_manager_ok: "add_targets mv ext ts m = (err, m') \<Longrightarrow> manager_ok m \<Longrightarrow> manager_ok m'"
  by (induction ts arbitrary: m) (auto split: prod.splits option.splits dest: add_target_ok)

lemma manager_add_ok: "manager_add mv ext m = (err, m') \<Longrightarrow> manager_ok m \<Longrightarrow> manager_ok m'"
  unfolding manager_add_def by (rule add_targets_manager_ok)

lemma manager_remove_ok: "manager_remove mv ext m = (err, m') \<Longrightarrow> manager_ok m \<Longrightarrow> manager_ok m'"
  by (auto simp: manager_remove_def manager_ok_def mget_delete split: prod.splits option.splits if_splits)

lemma for_name:
  "manager_ok m \<Longrightarrow> v \<in> set (extensions_for m kind) \<longleftrightarrow>
   mget (em_extensions m) (ex_name (mg_ext v)) = Some v \<and> kind \<in> set (es_targets (ex_spec (mg_ext v)))"
  by (auto simp: in_extensions_for manager_ok_def)

text \<open>What a controller relies on of the registry.\<close>

locale extension_registry =
  fixes reg_ok :: "'m \<Rightarrow> bool"
    and reg_for :: "'m \<Rightarrow> string \<Rightarrow> managed list"
    and reg_add :: "extension \<Rightarrow> 'm \<Rightarrow> gerr option \<times> 'm"
    and reg_remove :: "extension \<Rightarrow> 'm \<Rightarrow> gerr option \<times> 'm"
  assumes add_keeps_ok: "reg_ok m \<Longrightarrow> reg_ok (snd (reg_add ext m))"
    and remove_keeps_ok: "reg_ok m \<Longrightarrow> reg_ok (snd (reg_remove ext m))"
    and for_targets: "reg_ok m \<Longrightarrow> v \<in> set (reg_for m kind) \<Longrightarrow> kind \<in> set (es_targets (ex_spec (mg_ext v)))"
    and for_unique: "reg_ok m \<Longrightarrow> v \<in> set (reg_for m kind) \<Longrightarrow> v' \<in> set (reg_for m kind') \<Longrightarrow>
      ex_name (mg_ext v) = ex_name (mg_ext v') \<Longrightarrow> v = v'"
    and add_there: "reg_ok m \<Longrightarrow> fst (reg_add ext m) = None \<Longrightarrow> kind \<in> set (es_targets (ex_spec ext)) \<Longrightarrow>
      \<exists>v \<in> set (reg_for (snd (reg_add ext m)) kind). mg_ext v = ext"
    and remove_gone: "reg_ok m \<Longrightarrow> fst (reg_remove ext m) = None \<Longrightarrow>
      v \<in> set (reg_for (snd (reg_remove ext m)) kind) \<Longrightarrow> ex_name (mg_ext v) \<noteq> ex_name ext"
begin

lemma add_replaces:
  assumes "reg_ok m" "fst (reg_add ext m) = None" "es_targets (ex_spec ext) \<noteq> []"
    and "v \<in> set (reg_for (snd (reg_add ext m)) kind)" "ex_name (mg_ext v) = ex_name ext"
  shows "mg_ext v = ext"
proof -
  obtain t where "t \<in> set (es_targets (ex_spec ext))" using assms(3) by (cases "es_targets (ex_spec ext)") auto
  with add_there[OF assms(1,2)] obtain v' where "v' \<in> set (reg_for (snd (reg_add ext m)) t)" "mg_ext v' = ext"
    by blast
  with for_unique[OF add_keeps_ok[OF assms(1)] assms(4)] assms(5) show ?thesis by metis
qed

lemma add_only_targets:
  assumes "reg_ok m" "fst (reg_add ext m) = None" "es_targets (ex_spec ext) \<noteq> []"
  shows "(\<exists>v \<in> set (reg_for (snd (reg_add ext m)) kind). ex_name (mg_ext v) = ex_name ext) \<longleftrightarrow>
    kind \<in> set (es_targets (ex_spec ext))"
  using add_there[OF assms(1,2)] add_replaces[OF assms] for_targets[OF add_keeps_ok[OF assms(1)]]
  by metis

end

interpretation mgr: extension_registry manager_ok extensions_for "manager_add mv" "manager_remove mv" for mv
proof unfold_locales
  fix m :: "'a ext_manager" and ext
  assume ok: "manager_ok m"
  show ok_add: "manager_ok (snd (manager_add mv ext m))"
    using manager_add_ok ok by (metis prod.collapse)
  show ok_rem: "manager_ok (snd (manager_remove mv ext m))"
    using manager_remove_ok ok by (metis prod.collapse)
  show "kind \<in> set (es_targets (ex_spec (mg_ext v)))" if "v \<in> set (extensions_for m kind)" for v kind
    using that ok by (simp add: for_name)
  show "v = v'" if "v \<in> set (extensions_for m kind)" "v' \<in> set (extensions_for m kind')"
    "ex_name (mg_ext v) = ex_name (mg_ext v')" for v v' kind kind'
    using that ok by (simp add: for_name)
  show "\<exists>v \<in> set (extensions_for (snd (manager_add mv ext m)) kind). mg_ext v = ext"
    if "fst (manager_add mv ext m) = None" "kind \<in> set (es_targets (ex_spec ext))" for kind
  proof -
    have add: "manager_add mv ext m = (None, snd (manager_add mv ext m))"
      using that(1) by (metis prod.collapse)
    have "es_targets (ex_spec ext) \<noteq> []" using that(2) by auto
    from add_targets_ok[OF add[unfolded manager_add_def] this] obtain w
      where "mget (em_extensions (snd (manager_add mv ext m))) (ex_name ext) = Some w" "mg_ext w = ext"
      by (auto simp: manager_add_def)
    with that(2) show ?thesis by (intro bexI[of _ w]) (simp_all add: for_name[OF ok_add])
  qed
  show "ex_name (mg_ext v) \<noteq> ex_name ext"
    if rem: "fst (manager_remove mv ext m) = None"
      and v: "v \<in> set (extensions_for (snd (manager_remove mv ext m)) kind)" for v kind
  proof -
    obtain spec where "snd (manager_remove mv ext m) =
        m\<lparr>em_spec := spec, em_extensions := mdel (ex_name ext) (em_extensions m)\<rparr>"
      using rem by (auto simp: manager_remove_def split: prod.splits option.splits)
    then have "em_extensions (snd (manager_remove mv ext m)) = mdel (ex_name ext) (em_extensions m)" by simp
    with v show ?thesis by (auto simp only: for_name[OF ok_rem] mget_delete split: if_splits) auto
  qed
qed


text \<open>
  The webhook and the manager disagree: an extension without any controller passes the
  validating webhook, and adding it then always fails and changes nothing.
\<close>

theorem admitted_but_not_added:
  assumes "es_controller (ex_spec ext) = \<lparr>cs_grpc = None, cs_wasi = None\<rparr>"
    and "es_targets (ex_spec ext) \<noteq> []" "set (es_targets (ex_spec ext)) \<subseteq> {''Application'', ''Work''}"
    and "dec (es_schema (ex_spec ext)) = Inr props" "s_type props = ''object''"
    and "props_of props \<noteq> [] \<or> es_always (ex_spec ext)"
  shows "validateExtension dec raw_text getter ext = None \<and>
    manager_add mv ext m = (Some (EMsg ''ExtensionManager.add: no controller specified''), m)"
proof
  have "validateSpecTarget ext = None" using assms(3) by (auto simp: validateSpecTarget_None)
  moreover have "validateSpecOpenAPIV3Schema dec raw_text ext = None"
    using assms(4-6) by (auto simp: validateSpecOpenAPIV3Schema_None)
  moreover have "validateWASIImage getter ext = None" using assms(1) by (simp add: validateWASIImage_def)
  ultimately show "validateExtension dec raw_text getter ext = None"
    by (simp add: validateExtension_def validateSpec_def List.map_filter_def)
  show "manager_add mv ext m = (Some (EMsg ''ExtensionManager.add: no controller specified''), m)"
    using assms(1,2) by (cases "es_targets (ex_spec ext)") (simp_all add: manager_add_def add_target_def)
qed

lemma generator_add_failed_applied:
  assumes "generator_remove dec g n = (None, g0)" "n \<in> mkeys (g_applied g)"
    and "generator_add dec g n r = (Some e, g1)" "\<not> is_panic e"
  shows "n \<notin> mkeys (g_applied g1)"
proof -
  have n: "mget (g_applied g) n \<noteq> None" using assms(2) by (simp add: mget_None_iff del: not_None_eq)
  have gone: "n \<notin> mkeys (g_applied g0)" using gen_store.remove_ok[OF assms(1)] by simp
  show ?thesis
    using assms(3,4) gone n unfolding generator_add_def
    by (auto simp: assms(1) Let_def split: option.splits sum.splits prod.splits if_splits)
qed

text \<open>
  A failed update half-removes an extension: when the new schema of a registered extension does
  not merge, the manager has already taken the old schema out, yet it goes on answering with the
  old version for every kind.
\<close>

theorem failed_update_keeps_calling:
  assumes "cs_grpc (es_controller (ex_spec ext)) = Some gc" "mv_dial mv (grpc_target gc) = None"
    and "es_targets (ex_spec ext) = t # ts" "mget (em_spec m) t = Some g"
    and "ex_name ext \<in> applied_in m t" "generator_remove (mv_dec mv) g (ex_name ext) = (None, g0)"
    and "generator_add (mv_dec mv) g (ex_name ext) (es_schema (ex_spec ext)) = (Some e, g1)" "\<not> is_panic e"
  shows "\<exists>m'. manager_add mv ext m = (Some e, m') \<and> extensions_for m' = extensions_for m \<and>
    ex_name ext \<notin> applied_in m' t"
proof (intro exI conjI)
  let ?m = "m\<lparr>em_spec := mset_key t g1 (em_spec m)\<rparr>"
  show "manager_add mv ext m = (Some e, ?m)"
    using assms(1-4,7) by (simp add: manager_add_def add_target_def addGRPC_def)
  show "extensions_for ?m = extensions_for m" by (simp add: extensions_for_def fun_eq_iff)
  show "ex_name ext \<notin> applied_in ?m t"
    using generator_add_failed_applied[OF assms(6) _ assms(7,8)] assms(4,5) by simp
qed

section \<open>Concrete cases\<close>

definition ex_menv :: "string manager_env" where
  "ex_menv = \<lparr>mv_dec = (\<lambda>_. Inr ex_flat), mv_dial = (\<lambda>t. None), mv_loader = (\<lambda>i t. Inl EEOF),
     mv_engine = ex_engine, mv_untar = (\<lambda>b. Inl EEOF)\<rparr>"

definition ex_manager :: "string ext_manager" where
  "ex_manager = \<lparr>em_spec = [(''Application'', ex_generator)], em_extensions = [], em_wasi = []\<rparr>"

definition ex_ingress :: extension where
  "ex_ingress = ex_extension\<lparr>ex_spec := (ex_spec ex_extension)
     \<lparr>es_schema := RawJSON (JObj [(''properties'', JObj [(''a'', JNull)])])\<rparr>\<rparr>"

definition ex_managed :: managed where
  "ex_managed = \<lparr>mg_ext = ex_ingress, mg_rootKeys = [''a''], mg_backend = BGrpc ''ing.system:4269''\<rparr>"

lemma ex_ingress_simps [simp]:
  "ex_name ex_ingress = ''ingress''" "es_targets (ex_spec ex_ingress) = [''Application'']"
  "cs_grpc (es_controller (ex_spec ex_ingress)) = Some \<lparr>gc_namespace = ''system'', gc_service = ''ing'', gc_port = 4269\<rparr>"
  by (simp_all add: ex_ingress_def ex_extension_def)

lemma ex_generator_add:
  "generator_add (\<lambda>_. Inr ex_flat) ex_generator ''ingress'' r = (None, snd (generator_add (\<lambda>_. Inr ex_flat) ex_generator ''ingress'' r))"
  by (simp add: generator_add_def ex_generator_def ex_flat_def ex_leaf_def spec_of_def props_of_def Let_def)

lemma ex_manager_add: "manager_add ex_menv ex_ingress ex_manager = (None, snd (manager_add ex_menv ex_ingress ex_manager))"
proof -
  have init: "grpc_init ex_ingress gc = Inr \<lparr>mg_ext = ex_ingress, mg_rootKeys = [''a''], mg_backend = BGrpc (grpc_target gc)\<rparr>" for gc
    by (simp add: grpc_init_def ex_ingress_def ex_extension_def root_keys_def lower_char_def is_upper_letter_def)
  show ?thesis
    unfolding manager_add_def add_target_def ex_ingress_simps add_targets.simps addGRPC_def init
    using ex_generator_add[of "es_schema (ex_spec ex_ingress)"]
    by (auto simp: ex_menv_def ex_manager_def Let_def split: prod.splits option.splits)
qed

theorem add_registers_witness:
  "\<exists>w. mget (em_extensions (snd (manager_add ex_menv ex_ingress ex_manager))) ''ingress'' = Some w \<and> mg_ext w = ex_ingress"
  using add_registers[OF ex_manager_add] by auto


theorem remove_unregisters_witness:
  "mget (em_extensions (snd (manager_remove ex_menv ex_ingress ex_manager))) ''ingress'' = None"
proof -
  have "manager_remove ex_menv ex_ingress ex_manager =
      (None, snd (manager_remove ex_menv ex_ingress ex_manager))"
    by (simp add: manager_remove_def ex_manager_def generator_remove_def ex_generator_def)
  from remove_unregisters[OF this] show ?thesis by simp
qed

theorem dropped_target_keeps_schema_witness:
  "manager_schema (snd (manager_remove ex_menv ex_ingress (snd (manager_add ex_menv ex_ingress ex_manager)))) ''Work'' =
   manager_schema ex_manager ''Work''"
  using dropped_target_keeps_schema[where t = "''Work''" and ext = ex_ingress and mv = ex_menv and m = ex_manager,
      OF _ prod.collapse[symmetric] prod.collapse[symmetric]]
  by simp

theorem admitted_but_not_added_witness:
  "validateExtension (\<lambda>_. Inr ex_flat) (\<lambda>_. '''') (\<lambda>_ _. Inl '''')
     (ex_ingress\<lparr>ex_spec := (ex_spec ex_ingress)\<lparr>es_controller := \<lparr>cs_grpc = None, cs_wasi = None\<rparr>\<rparr>\<rparr>) = None"
  using admitted_but_not_added[where ext = "ex_ingress\<lparr>ex_spec := (ex_spec ex_ingress)
      \<lparr>es_controller := \<lparr>cs_grpc = None, cs_wasi = None\<rparr>\<rparr>\<rparr>" and dec = "\<lambda>_. Inr ex_flat" and props = ex_flat
      and raw_text = "\<lambda>_. ''''" and getter = "\<lambda>_ _. Inl ''''" and mv = ex_menv and m = ex_manager]
  by (simp add: ex_flat_def)

text \<open>The generator with the extension applied, and a new version whose property is taken.\<close>

definition ex_applied :: "string ext_manager" where
  "ex_applied = \<lparr>em_spec = [(''Application'', ex_generator\<lparr>g_applied := [(''ingress'', RawNil)]\<rparr>)],
     em_extensions = [(''ingress'', ex_managed)], em_wasi = []\<rparr>"

definition ex_menv2 :: "string manager_env" where
  "ex_menv2 = ex_menv\<lparr>mv_dec := (\<lambda>b. if b = RawNil then Inr (Schema ''object'' (Some []) (JObj [])) else Inr ex_conflict)\<rparr>"

theorem failed_update_keeps_calling_witness:
  "\<exists>e m'. manager_add ex_menv2 ex_ingress ex_applied = (Some e, m') \<and>
     extensions_for m' = extensions_for ex_applied \<and> ''ingress'' \<notin> applied_in m' ''Application''"
proof -
  let ?g = "ex_generator\<lparr>g_applied := [(''ingress'', RawNil)]\<rparr>"
  let ?n = "ex_name ex_ingress"
  have rem: "generator_remove (mv_dec ex_menv2) ?g ?n = (None, snd (generator_remove (mv_dec ex_menv2) ?g ?n))"
    by (simp add: generator_remove_def ex_menv2_def ex_generator_def Let_def)
  have add: "generator_add (mv_dec ex_menv2) ?g ?n (es_schema (ex_spec ex_ingress)) =
      (Some (EAlreadyDefined ''image''), snd (generator_add (mv_dec ex_menv2) ?g ?n (es_schema (ex_spec ex_ingress))))"
    by (simp add: generator_add_def generator_remove_def ex_menv2_def ex_generator_def ex_ingress_def
        ex_extension_def ex_conflict_def ex_leaf_def spec_of_def props_of_def set_prop_def drop_empty_objects_def
        empty_object_def Let_def)
  show ?thesis
    using failed_update_keeps_calling[where mv = ex_menv2 and ext = ex_ingress and m = ex_applied and t = "''Application''"
        and ts = "[]" and g = ?g, OF _ _ _ _ _ rem add]
    by (auto simp: ex_applied_def ex_menv2_def ex_menv_def)
qed

end
