(* ===== verification/Changeset.thy ===== *)
theory Changeset
  imports Protocol
begin

text \<open>
  \<open>internal/extension/changeset.go\<close>: the changes that the extensions of one object ask for are
  collected in a \<open>Changeset\<close> shared by all their goroutines (each \<open>Add\<close> runs under its
  lock, so it is one atomic step), and \<open>Apply\<close> writes them into a Kubernetes object.
\<close>

section \<open>State\<close>

text \<open>\<open>v1.EnvFromSource\<close>: two pointers to a name with its \<open>Optional\<close> flag.\<close>

record env_from_source =
  fs_configMapRef :: "(string \<times> bool) option"
  fs_secretRef :: "(string \<times> bool) option"

record changeset =
  cg_environment :: "(string \<times> string) list"
  cg_labels :: "(string, string) gomap"
  cg_annotations :: "(string, string) gomap"
  cg_envFrom :: "env_from_source list"
  cg_mergePatch :: raw
  cg_initContainers :: "json list"
  cg_sidecars :: "json list"

definition empty_changeset :: changeset where
  "empty_changeset = \<lparr>cg_environment = [], cg_labels = [], cg_annotations = [], cg_envFrom = [],
     cg_mergePatch = RawNil, cg_initContainers = [], cg_sidecars = []\<rparr>"

section \<open>Add\<close>

text \<open>\<open>AddMergePatch\<close>; \<open>mmp\<close> is \<open>jsonpatch.MergeMergePatches\<close>.\<close>

definition AddMergePatch ::
    "(raw \<Rightarrow> raw \<Rightarrow> gerr + raw) \<Rightarrow> raw \<Rightarrow> changeset \<Rightarrow> gerr option \<times> changeset" where
  "AddMergePatch mmp patch c =
     (if \<not> raw_nonempty patch then (None, c)
      else if \<not> raw_nonempty (cg_mergePatch c) then (None, c\<lparr>cg_mergePatch := patch\<rparr>)
      else (case mmp (cg_mergePatch c) patch of
              Inl e \<Rightarrow> (Some e, c)
            | Inr combined \<Rightarrow> (None, c\<lparr>cg_mergePatch := combined\<rparr>)))"

text \<open>
  \<open>Changeset.Add\<close>; \<open>conv\<close> decodes the JSON of a protocol container into the API's
  \<open>Container\<close> type, and the code panics when that fails.
\<close>

fun changeset_add ::
    "(json \<Rightarrow> gerr + json) \<Rightarrow> (raw \<Rightarrow> raw \<Rightarrow> gerr + raw) \<Rightarrow> response \<Rightarrow> changeset \<Rightarrow>
     gerr option \<times> changeset" where
  "changeset_add conv mmp (RMergePatch p) c = AddMergePatch mmp p c"
| "changeset_add conv mmp (REnv kv) c =
     (None, c\<lparr>cg_environment := cg_environment c @ [(kv_name kv, kv_value kv)]\<rparr>)"
| "changeset_add conv mmp (RAnnotation kv) c =
     (None, c\<lparr>cg_annotations := mset_key (kv_name kv) (kv_value kv) (cg_annotations c)\<rparr>)"
| "changeset_add conv mmp (RLabel kv) c =
     (None, c\<lparr>cg_labels := mset_key (kv_name kv) (kv_value kv) (cg_labels c)\<rparr>)"
| "changeset_add conv mmp (REnvFrom ef) c =
     (if em_type ef = EFT_SECRET
      then (None, c\<lparr>cg_envFrom := cg_envFrom c @
              [\<lparr>fs_configMapRef = None, fs_secretRef = Some (em_name ef, em_optional ef)\<rparr>]\<rparr>)
      else if em_type ef = EFT_CONFIGMAP
      then (None, c\<lparr>cg_envFrom := cg_envFrom c @
              [\<lparr>fs_configMapRef = Some (em_name ef, em_optional ef), fs_secretRef = None\<rparr>]\<rparr>)
      else (Some (EMsg ''unknown envfrom type''), c))"
| "changeset_add conv mmp (RContainer j) c =
     (case conv j of
        Inl e \<Rightarrow> (Some (EPanic ''container''), c)
      | Inr k \<Rightarrow> (None, c\<lparr>cg_sidecars := cg_sidecars c @ [k]\<rparr>))"
| "changeset_add conv mmp (RInitContainer j) c =
     (case conv j of
        Inl e \<Rightarrow> (Some (EPanic ''container''), c)
      | Inr k \<Rightarrow> (None, c\<lparr>cg_initContainers := cg_initContainers c @ [k]\<rparr>))"
| "changeset_add conv mmp RNone c = (Some (EMsg ''unexpected response type''), c)"

text \<open>A run of additions, stopping at the first error, as the reader of a stream does.\<close>

fun changeset_add_all ::
    "(json \<Rightarrow> gerr + json) \<Rightarrow> (raw \<Rightarrow> raw \<Rightarrow> gerr + raw) \<Rightarrow> response list \<Rightarrow> changeset \<Rightarrow>
     gerr option \<times> changeset" where
  "changeset_add_all conv mmp [] c = (None, c)"
| "changeset_add_all conv mmp (r # rs) c =
     (case changeset_add conv mmp r c of
        (Some e, c') \<Rightarrow> (Some e, c')
      | (None, c') \<Rightarrow> changeset_add_all conv mmp rs c')"

section \<open>Apply\<close>

text \<open>
  \<open>client.Object\<close>: the methods of the interface that \<open>Apply\<close> calls, with the JSON encoder
  and decoder of the object's type. Decoding writes into the object it is given: members the
  text does not mention keep their value.
\<close>

record 'o object_ops =
  oo_getLabels :: "'o \<Rightarrow> (string, string) gomap"
  oo_setLabels :: "(string, string) gomap \<Rightarrow> 'o \<Rightarrow> 'o"
  oo_getAnnotations :: "'o \<Rightarrow> (string, string) gomap"
  oo_setAnnotations :: "(string, string) gomap \<Rightarrow> 'o \<Rightarrow> 'o"
  oo_marshal :: "'o \<Rightarrow> gerr + raw"
  oo_unmarshal :: "raw \<Rightarrow> 'o \<Rightarrow> gerr option \<times> 'o"

text \<open>\<open>Changeset.Apply\<close>; \<open>mp\<close> is \<open>jsonpatch.MergePatch\<close>.\<close>

definition changeset_apply ::
    "(raw \<Rightarrow> raw \<Rightarrow> gerr + raw) \<Rightarrow> 'o object_ops \<Rightarrow> changeset \<Rightarrow> 'o \<Rightarrow> gerr option \<times> 'o" where
  "changeset_apply mp ops c v =
     (let v1 = oo_setLabels ops (mergeMaps [oo_getLabels ops v, cg_labels c]) v;
          v2 = oo_setAnnotations ops (mergeMaps [oo_getAnnotations ops v1, cg_annotations c]) v1
      in if raw_nonempty (cg_mergePatch c)
         then (case oo_marshal ops v2 of
                 Inl e \<Rightarrow> (Some (EWrap ''applyChangeset unmarshal'' e), v2)
               | Inr b \<Rightarrow>
                   (case mp b (cg_mergePatch c) of
                      Inl e \<Rightarrow> (Some (EWrap ''applyChangeset mergePatch'' e), v2)
                    | Inr out \<Rightarrow>
                        (case oo_unmarshal ops out v2 of
                           (Some e, v3) \<Rightarrow> (Some (EWrap ''applyChangeset unmarshal'' e), v3)
                         | (None, v3) \<Rightarrow> (None, v3))))
         else (None, v2))"

section \<open>What a run of additions collects\<close>

text \<open>The parts of a response list, in order.\<close>

definition envs_of :: "response list \<Rightarrow> (string \<times> string) list" where
  "envs_of rs = List.map_filter
     (\<lambda>r. case r of REnv kv \<Rightarrow> Some (kv_name kv, kv_value kv) | _ \<Rightarrow> None) rs"

definition labels_of :: "response list \<Rightarrow> (string \<times> string) list" where
  "labels_of rs = List.map_filter
     (\<lambda>r. case r of RLabel kv \<Rightarrow> Some (kv_name kv, kv_value kv) | _ \<Rightarrow> None) rs"

definition annotations_of :: "response list \<Rightarrow> (string \<times> string) list" where
  "annotations_of rs = List.map_filter
     (\<lambda>r. case r of RAnnotation kv \<Rightarrow> Some (kv_name kv, kv_value kv) | _ \<Rightarrow> None) rs"

definition envFrom_source :: "env_from_msg \<Rightarrow> env_from_source" where
  "envFrom_source ef =
     (if em_type ef = EFT_SECRET
      then \<lparr>fs_configMapRef = None, fs_secretRef = Some (em_name ef, em_optional ef)\<rparr>
      else \<lparr>fs_configMapRef = Some (em_name ef, em_optional ef), fs_secretRef = None\<rparr>)"

definition envFroms_of :: "response list \<Rightarrow> env_from_source list" where
  "envFroms_of rs = List.map_filter
     (\<lambda>r. case r of REnvFrom ef \<Rightarrow> Some (envFrom_source ef) | _ \<Rightarrow> None) rs"

lemmas parts_of_defs =
  envs_of_def labels_of_def annotations_of_def envFroms_of_def List.map_filter_def

lemma map_add_upd: "m(k \<mapsto> v) ++ map_of l = m ++ map_of (l @ [(k, v)])"
  by (simp add: fun_eq_iff map_add_def split: option.splits)

lemma add_step_ok:
  "changeset_add conv mmp r c = (None, c') \<Longrightarrow>
   cg_environment c' = cg_environment c @ envs_of [r] \<and>
   cg_envFrom c' = cg_envFrom c @ envFroms_of [r] \<and>
   mget (cg_labels c') = mget (cg_labels c) ++ map_of (labels_of [r]) \<and>
   mget (cg_annotations c') = mget (cg_annotations c) ++ map_of (annotations_of [r])"
  by (cases r)
     (auto simp: parts_of_defs AddMergePatch_def envFrom_source_def mget_update
           split: sum.splits if_splits)

lemma parts_of_Cons:
  "envs_of (r # rs) = envs_of [r] @ envs_of rs"
  "envFroms_of (r # rs) = envFroms_of [r] @ envFroms_of rs"
  "labels_of (r # rs) = labels_of [r] @ labels_of rs"
  "annotations_of (r # rs) = annotations_of [r] @ annotations_of rs"
  by (simp_all add: parts_of_defs)

lemma parts_of_Nil [simp]:
  "envs_of [] = []" "envFroms_of [] = []" "labels_of [] = []" "annotations_of [] = []"
  by (simp_all add: parts_of_defs)

lemma add_all_collects:
  "changeset_add_all conv mmp rs c = (None, c') \<Longrightarrow>
   cg_environment c' = cg_environment c @ envs_of rs \<and>
   cg_envFrom c' = cg_envFrom c @ envFroms_of rs \<and>
   mget (cg_labels c') = mget (cg_labels c) ++ map_of (rev (labels_of rs)) \<and>
   mget (cg_annotations c') = mget (cg_annotations c) ++ map_of (rev (annotations_of rs))"
proof (induction rs arbitrary: c)
  case Nil
  then show ?case by simp
next
  case (Cons r rs)
  from Cons.prems obtain c1 where step: "changeset_add conv mmp r c = (None, c1)"
    and rest: "changeset_add_all conv mmp rs c1 = (None, c')"
    by (auto split: prod.splits option.splits)
  have short: "map_of (rev (labels_of [r])) = map_of (labels_of [r])"
    "map_of (rev (annotations_of [r])) = map_of (annotations_of [r])"
    by (simp_all add: parts_of_defs)
  show ?case
    using add_step_ok[OF step] Cons.IH[OF rest] short
    by (simp add: parts_of_Cons[of r rs])
qed

lemma add_all_append:
  "changeset_add_all conv mmp (xs @ ys) c =
     (case changeset_add_all conv mmp xs c of
        (Some e, c') \<Rightarrow> (Some e, c')
      | (None, c') \<Rightarrow> changeset_add_all conv mmp ys c')"
  by (induction xs arbitrary: c) (auto split: prod.splits option.splits)

section \<open>Two extensions at once\<close>

text \<open>
  Two streams are read by two goroutines, so the responses reach the changeset in some
  interleaving of the two lists.
\<close>

lemma map_filter_shuffles:
  "zs \<in> shuffles xs ys \<Longrightarrow> List.map_filter f zs \<in> shuffles (List.map_filter f xs) (List.map_filter f ys)"
proof (induction zs arbitrary: xs ys)
  case Nil
  then show ?case by (auto simp: List.map_filter_def)
next
  case (Cons z zs)
  then consider xs' where "xs = z # xs'" "zs \<in> shuffles xs' ys"
    | ys' where "ys = z # ys'" "zs \<in> shuffles xs ys'"
    by (auto simp: Cons_in_shuffles_iff neq_Nil_conv)
  then show ?case
  proof cases
    case 1
    then show ?thesis using Cons.IH[OF 1(2)]
      by (auto simp: map_filter_simps Cons_in_shuffles_leftI split: option.splits)
  next
    case 2
    then show ?thesis using Cons.IH[OF 2(2)]
      by (auto simp: map_filter_simps Cons_in_shuffles_rightI split: option.splits)
  qed
qed

lemma map_of_rev_shuffles:
  "zs \<in> shuffles xs ys \<Longrightarrow> fst ` set xs \<inter> fst ` set ys = {} \<Longrightarrow>
   map_of (rev zs) = map_of (rev (xs @ ys))"
proof (induction zs arbitrary: xs ys)
  case Nil
  then show ?case by simp
next
  case (Cons z zs)
  obtain k v where z: "z = (k, v)" by (cases z)
  from Cons.prems(1) consider xs' where "xs = z # xs'" "zs \<in> shuffles xs' ys"
    | ys' where "ys = z # ys'" "zs \<in> shuffles xs ys'"
    by (auto simp: Cons_in_shuffles_iff neq_Nil_conv)
  then show ?case
  proof cases
    case 1
    with Cons.prems(2) have "map_of (rev zs) = map_of (rev (xs' @ ys))"
      by (intro Cons.IH) auto
    with 1 show ?thesis by simp
  next
    case 2
    with Cons.prems(2) have IH: "map_of (rev zs) = map_of (rev (xs @ ys'))"
      by (intro Cons.IH) auto
    have "map_of (rev xs) k = None"
      using Cons.prems(2) 2(1) z by (auto simp: map_of_eq_None_iff)
    then have "map_of [z] ++ (map_of (rev xs) ++ map_of (rev ys')) =
               map_of (rev xs) ++ (map_of [z] ++ map_of (rev ys'))"
      by (auto simp: z fun_eq_iff map_add_def split: option.splits)
    with IH 2 show ?thesis by (simp add: map_add_comm)
  qed
qed

text \<open>
  Adding a list of responses without an error collects exactly what they say: the environment
  and the envFrom sources in the order received, and for every label and annotation name the
  value of the last response that set it, else what was there before.
\<close>

theorem changeset_collects:
  assumes "changeset_add_all conv mmp rs c = (None, c')"
  shows "cg_environment c' = cg_environment c @ envs_of rs \<and>
    cg_envFrom c' = cg_envFrom c @ envFroms_of rs \<and>
    mget (cg_labels c') = mget (cg_labels c) ++ map_of (rev (labels_of rs)) \<and>
    mget (cg_annotations c') = mget (cg_annotations c) ++ map_of (rev (annotations_of rs))"
  using add_all_collects[OF assms] .

text \<open>
  C20: Two extensions that set different label names and different annotation names may run at the
  same time: however their responses are interleaved, the labels and annotations collected are
  those of running one after the other, and the environment holds the same entries.
\<close>

theorem concurrent_extensions_commute:
  assumes "rs \<in> shuffles xs ys"
    and "fst ` set (labels_of xs) \<inter> fst ` set (labels_of ys) = {}"
    and "fst ` set (annotations_of xs) \<inter> fst ` set (annotations_of ys) = {}"
    and "changeset_add_all conv mmp rs c = (None, c1)"
    and "changeset_add_all conv mmp (xs @ ys) c = (None, c2)"
  shows "mget (cg_labels c1) = mget (cg_labels c2) \<and>
    mget (cg_annotations c1) = mget (cg_annotations c2) \<and>
    mset (cg_environment c1) = mset (cg_environment c2) \<and>
    mset (cg_envFrom c1) = mset (cg_envFrom c2)"
proof -
  have parts: "labels_of (xs @ ys) = labels_of xs @ labels_of ys"
    "annotations_of (xs @ ys) = annotations_of xs @ annotations_of ys"
    by (simp_all add: parts_of_defs)
  have "labels_of rs \<in> shuffles (labels_of xs) (labels_of ys)"
    "annotations_of rs \<in> shuffles (annotations_of xs) (annotations_of ys)"
    using map_filter_shuffles[OF assms(1)] by (simp_all add: labels_of_def annotations_of_def)
  then have maps: "map_of (rev (labels_of rs)) = map_of (rev (labels_of (xs @ ys)))"
    "map_of (rev (annotations_of rs)) = map_of (rev (annotations_of (xs @ ys)))"
    unfolding parts using assms(2,3) by (simp_all only: map_of_rev_shuffles)
  have "mset rs = mset (xs @ ys)" using assms(1) by (simp add: mset_shuffles)
  then have "mset (envs_of rs) = mset (envs_of (xs @ ys))"
    "mset (envFroms_of rs) = mset (envFroms_of (xs @ ys))"
    unfolding envs_of_def envFroms_of_def
    by (simp_all only: List.map_filter_def mset_map mset_filter)
  with add_all_collects[OF assms(4)] add_all_collects[OF assms(5)] maps show ?thesis by simp
qed

text \<open>
  The merge patches of all extensions are combined before they are applied. Under the law
  that the JSON merge patch library documents for combining (one combined patch does what the
  two do in turn), applying the collected patch to a document has the effect of applying each
  extension's patch, in the order they arrived.
\<close>

theorem merge_patches_compose:
  assumes law: "\<And>p q pq d. mmp p q = Inr pq \<Longrightarrow>
      raw_nonempty pq \<and> mp d pq = (case mp d p of Inl e \<Rightarrow> Inl e | Inr d' \<Rightarrow> mp d' q)"
    and ne: "\<forall>p \<in> set ps. raw_nonempty p" "ps \<noteq> []"
    and run: "changeset_add_all conv mmp (map RMergePatch ps) empty_changeset = (None, c)"
  shows "mp d (cg_mergePatch c) =
    fold (\<lambda>p r. case r of Inl e \<Rightarrow> Inl e | Inr d' \<Rightarrow> mp d' p) ps (Inr d)"
proof -
  have stuck: "fold (\<lambda>p r. case r of Inl e \<Rightarrow> Inl e | Inr d' \<Rightarrow> mp d' p) qs (Inl e) = Inl e" for qs e
    by (induction qs) auto
  have go: "mp d (cg_mergePatch c) =
      fold (\<lambda>p r. case r of Inl e \<Rightarrow> Inl e | Inr d' \<Rightarrow> mp d' p) qs (mp d (cg_mergePatch c0))"
    if "changeset_add_all conv mmp (map RMergePatch qs) c0 = (None, c)"
      "raw_nonempty (cg_mergePatch c0)" "\<forall>p \<in> set qs. raw_nonempty p" for qs c0
    using that
  proof (induction qs arbitrary: c0)
    case Nil
    then show ?case by simp
  next
    case (Cons q qs)
    then obtain pq where pq: "mmp (cg_mergePatch c0) q = Inr pq"
      and rest: "changeset_add_all conv mmp (map RMergePatch qs) (c0\<lparr>cg_mergePatch := pq\<rparr>) = (None, c)"
      by (auto simp: AddMergePatch_def split: prod.splits option.splits sum.splits if_splits)
    from law[OF pq] have "raw_nonempty pq" by simp
    with Cons.IH[OF rest] Cons.prems law[OF pq, of d] show ?case
      by (simp add: stuck)
  qed
  obtain p qs where ps: "ps = p # qs" using ne(2) by (cases ps) auto
  with run ne have "changeset_add_all conv mmp (map RMergePatch qs)
      (empty_changeset\<lparr>cg_mergePatch := p\<rparr>) = (None, c)"
    by (simp add: AddMergePatch_def empty_changeset_def raw_nonempty_def)
  from go[OF this] ne ps show ?thesis by simp
qed

section \<open>Objects a changeset is applied to\<close>

text \<open>
  What \<open>Apply\<close> relies on of an object: the metadata accessors are independent fields.
\<close>

locale kube_object =
  fixes ops :: "'o object_ops"
  assumes get_set_labels: "oo_getLabels ops (oo_setLabels ops m v) = m"
    and get_set_annotations: "oo_getAnnotations ops (oo_setAnnotations ops m v) = m"
    and labels_set_annotations: "oo_getLabels ops (oo_setAnnotations ops m v) = oo_getLabels ops v"
    and annotations_set_labels: "oo_getAnnotations ops (oo_setLabels ops m v) = oo_getAnnotations ops v"
begin

lemma apply_meta:
  assumes "cg_mergePatch c = RawNil"
  shows "changeset_apply mp ops c v =
    (None, oo_setAnnotations ops (mergeMaps [oo_getAnnotations ops v, cg_annotations c])
             (oo_setLabels ops (mergeMaps [oo_getLabels ops v, cg_labels c]) v))"
  using assms
  by (simp add: changeset_apply_def Let_def raw_nonempty_def annotations_set_labels)

lemma apply_lookup:
  assumes "cg_mergePatch c = RawNil" "gomap_ok (oo_getLabels ops v)" "gomap_ok (cg_labels c)"
    "gomap_ok (oo_getAnnotations ops v)" "gomap_ok (cg_annotations c)"
    "changeset_apply mp ops c v = (err, v')"
  shows "err = None"
    "mget (oo_getLabels ops v') = mget (oo_getLabels ops v) ++ mget (cg_labels c)"
    "mget (oo_getAnnotations ops v') = mget (oo_getAnnotations ops v) ++ mget (cg_annotations c)"
  using assms
  by (auto simp: apply_meta get_set_labels get_set_annotations labels_set_annotations
      mget_mergeMaps2)

lemma apply_empty:
  assumes "cg_labels c = []" "cg_annotations c = []" "cg_mergePatch c = RawNil"
    "gomap_ok (oo_getLabels ops v)" "gomap_ok (oo_getAnnotations ops v)"
    "changeset_apply mp ops c v = (err, v')"
  shows "mget (oo_getLabels ops v') = mget (oo_getLabels ops v) \<and>
    mget (oo_getAnnotations ops v') = mget (oo_getAnnotations ops v)"
  using apply_lookup(2,3)[OF assms(3,4) _ assms(5) _ assms(6)] assms(1,2) by simp

end

section \<open>Concrete cases\<close>

definition ex_env :: "string \<Rightarrow> response" where
  "ex_env n = REnv \<lparr>kv_name = n, kv_value = ''1''\<rparr>"

definition ex_label :: "string \<Rightarrow> string \<Rightarrow> response" where
  "ex_label n v = RLabel \<lparr>kv_name = n, kv_value = v\<rparr>"

theorem changeset_collects_witness:
  "let c = snd (changeset_add_all Inr (\<lambda>p q. Inr q) [ex_label ''a'' ''1'', ex_label ''a'' ''2'', ex_env ''E'']
              empty_changeset)
   in cg_environment c = [(''E'', ''1'')] \<and> mget (cg_labels c) ''a'' = Some ''2''"
  using changeset_collects[where conv = Inr and mmp = "\<lambda>p q. Inr q" and c = empty_changeset
      and rs = "[ex_label ''a'' ''1'', ex_label ''a'' ''2'', ex_env ''E'']"
      and c' = "snd (changeset_add_all Inr (\<lambda>p q. Inr q)
        [ex_label ''a'' ''1'', ex_label ''a'' ''2'', ex_env ''E''] empty_changeset)"]
  by (simp add: ex_env_def ex_label_def empty_changeset_def parts_of_defs)

theorem concurrent_extensions_commute_witness:
  "mget (cg_labels (snd (changeset_add_all Inr (\<lambda>p q. Inr q)
      [ex_label ''b'' ''2'', ex_label ''a'' ''1''] empty_changeset))) =
   mget (cg_labels (snd (changeset_add_all Inr (\<lambda>p q. Inr q)
      ([ex_label ''a'' ''1''] @ [ex_label ''b'' ''2'']) empty_changeset)))"
  using concurrent_extensions_commute[where xs = "[ex_label ''a'' ''1'']" and ys = "[ex_label ''b'' ''2'']"
      and rs = "[ex_label ''b'' ''2'', ex_label ''a'' ''1'']" and conv = Inr and mmp = "\<lambda>p q. Inr q"
      and c = empty_changeset
      and ?c1.0 = "snd (changeset_add_all Inr (\<lambda>p q. Inr q)
        [ex_label ''b'' ''2'', ex_label ''a'' ''1''] empty_changeset)"
      and ?c2.0 = "snd (changeset_add_all Inr (\<lambda>p q. Inr q)
        ([ex_label ''a'' ''1''] @ [ex_label ''b'' ''2'']) empty_changeset)"]
  by (simp add: ex_label_def parts_of_defs empty_changeset_def)

text \<open>A patch algebra in which the law holds: a document is a list, a patch appends to it.\<close>

fun ex_patch :: "raw \<Rightarrow> raw \<Rightarrow> gerr + raw" where
  "ex_patch (RawJSON (JArr d)) (RawJSON (JArr p)) = Inr (RawJSON (JArr (d @ p)))"
| "ex_patch _ _ = Inl (EMsg ''bad patch'')"

lemma ex_patch_law:
  "ex_patch p q = Inr pq \<Longrightarrow>
   raw_nonempty pq \<and> ex_patch d pq = (case ex_patch d p of Inl e \<Rightarrow> Inl e | Inr d' \<Rightarrow> ex_patch d' q)"
  by (induction p q rule: ex_patch.induct; induction d pq rule: ex_patch.induct)
     (auto simp: raw_nonempty_def)

theorem merge_patches_compose_witness:
  "ex_patch (RawJSON (JArr [])) (cg_mergePatch (snd (changeset_add_all Inr ex_patch
      (map RMergePatch [RawJSON (JArr [JNum 1]), RawJSON (JArr [JNum 2])]) empty_changeset))) =
   Inr (RawJSON (JArr [JNum 1, JNum 2]))"
proof -
  let ?ps = "[RawJSON (JArr [JNum 1]), RawJSON (JArr [JNum 2])]"
  have run: "changeset_add_all Inr ex_patch (map RMergePatch ?ps) empty_changeset =
      (None, snd (changeset_add_all Inr ex_patch (map RMergePatch ?ps) empty_changeset))"
    by (simp add: AddMergePatch_def empty_changeset_def raw_nonempty_def)
  show ?thesis
    using merge_patches_compose[where mmp = ex_patch and mp = ex_patch and ps = ?ps,
        OF ex_patch_law _ _ run, of "RawJSON (JArr [])"]
    by (simp add: raw_nonempty_def)
qed

end
