(* ===== verification/Kube.thy ===== *)
theory Kube
  imports Changeset
begin

text \<open>
  The Kubernetes objects the controllers write, with the fields they set, and the operations of
  the API client. The API server is not part of the repository: its operations are the fields of
  the record \<open>kube\<close>, functions on a world \<open>'w\<close> of the caller's choice.
\<close>

section \<open>Objects\<close>

text \<open>\<open>corev1.EnvVar\<close>: a value or the path of a pod field (\<open>ValueFrom.FieldRef.FieldPath\<close>).\<close>

record pod_env =
  pe_name :: string
  pe_value :: string
  pe_fieldPath :: "string option"

text \<open>\<open>int32\<close> fields keep their width.\<close>

record container_port =
  cp_name :: string
  cp_containerPort :: "32 word"

text \<open>\<open>corev1.ResourceRequirements\<close>: the two resource lists, as maps from resource to quantity.\<close>

record pod_resources =
  pr_limits :: "(string, string) gomap"
  pr_requests :: "(string, string) gomap"

record pod_container =
  pc_name :: string
  pc_image :: string
  pc_command :: "string list"
  pc_ports :: "container_port list"
  pc_resources :: pod_resources
  pc_env :: "pod_env list"
  pc_envFrom :: "env_from_source list"

text \<open>
  \<open>appsv1.Deployment\<close>: metadata, the pod template, and the two status values the code reads.
\<close>

record deployment =
  dp_meta :: obj_meta
  dp_replicas :: "32 word"
  dp_selector :: "(string, string) gomap"
  dp_podLabels :: "(string, string) gomap"
  dp_podAnnotations :: "(string, string) gomap"
  dp_initContainers :: "json list"
  dp_containers :: "pod_container list"
  dp_availableReplicas :: "32 word"

record service_port =
  sp_name :: string
  sp_port :: "32 word"
  sp_targetPort :: "32 word"

record service =
  sv_meta :: obj_meta
  sv_ports :: "service_port list"
  sv_selector :: "(string, string) gomap"

definition zero_deployment :: deployment where
  "zero_deployment = \<lparr>dp_meta = zero_meta, dp_replicas = 0, dp_selector = [], dp_podLabels = [],
     dp_podAnnotations = [], dp_initContainers = [], dp_containers = [], dp_availableReplicas = 0\<rparr>"

text \<open>A namespaced name, \<open>client.ObjectKeyFromObject\<close>.\<close>

type_synonym obj_key = "string \<times> string"

definition object_key :: "obj_meta \<Rightarrow> obj_key" where
  "object_key m = (om_namespace m, om_name m)"

section \<open>The API client\<close>

record 'w kube =
  k_setOwner :: "application \<Rightarrow> deployment \<Rightarrow> gerr option \<times> deployment"
  k_getDeployment :: "obj_key \<Rightarrow> 'w \<Rightarrow> (gerr + deployment) \<times> 'w"
  k_createDeployment :: "deployment \<Rightarrow> 'w \<Rightarrow> gerr option \<times> 'w"
  k_updateDeployment :: "deployment \<Rightarrow> 'w \<Rightarrow> gerr option \<times> 'w"
  k_deleteDeployment :: "obj_key \<Rightarrow> 'w \<Rightarrow> gerr option \<times> 'w"
  k_getService :: "obj_key \<Rightarrow> 'w \<Rightarrow> (gerr + service) \<times> 'w"
  k_createService :: "service \<Rightarrow> 'w \<Rightarrow> gerr option \<times> 'w"
  k_updateService :: "service \<Rightarrow> 'w \<Rightarrow> gerr option \<times> 'w"
  k_deleteService :: "obj_key \<Rightarrow> 'w \<Rightarrow> gerr option \<times> 'w"

section \<open>Objects as targets of a changeset\<close>

text \<open>
  The accessors of \<open>metav1.ObjectMeta\<close>, which both kinds of object embed. The JSON codec of a
  type belongs to the API machinery and is a parameter.
\<close>

definition deployment_ops ::
    "(deployment \<Rightarrow> gerr + raw) \<Rightarrow> (raw \<Rightarrow> deployment \<Rightarrow> gerr option \<times> deployment) \<Rightarrow>
     deployment object_ops" where
  "deployment_ops enc dec =
     \<lparr>oo_getLabels = (\<lambda>d. om_labels (dp_meta d)),
      oo_setLabels = (\<lambda>m d. d\<lparr>dp_meta := (dp_meta d)\<lparr>om_labels := m\<rparr>\<rparr>),
      oo_getAnnotations = (\<lambda>d. om_annotations (dp_meta d)),
      oo_setAnnotations = (\<lambda>m d. d\<lparr>dp_meta := (dp_meta d)\<lparr>om_annotations := m\<rparr>\<rparr>),
      oo_marshal = enc, oo_unmarshal = dec\<rparr>"

definition application_ops ::
    "(application \<Rightarrow> gerr + raw) \<Rightarrow> (raw \<Rightarrow> application \<Rightarrow> gerr option \<times> application) \<Rightarrow>
     application object_ops" where
  "application_ops enc dec =
     \<lparr>oo_getLabels = (\<lambda>a. om_labels (ap_meta a)),
      oo_setLabels = (\<lambda>m a. a\<lparr>ap_meta := (ap_meta a)\<lparr>om_labels := m\<rparr>\<rparr>),
      oo_getAnnotations = (\<lambda>a. om_annotations (ap_meta a)),
      oo_setAnnotations = (\<lambda>m a. a\<lparr>ap_meta := (ap_meta a)\<lparr>om_annotations := m\<rparr>\<rparr>),
      oo_marshal = enc, oo_unmarshal = dec\<rparr>"

interpretation depl_obj: kube_object "deployment_ops enc dec" for enc dec
  by unfold_locales (auto simp: deployment_ops_def)

interpretation app_obj: kube_object "application_ops enc dec" for enc dec
  by unfold_locales (auto simp: application_ops_def)

end
