(* ===== verification/Ext_Controller.thy ===== *)
theory Ext_Controller
  imports Ext_Manager_Facts Kube
begin

text \<open>
  \<open>internal/controller/ext_controller.go\<close>: calling the extensions of an object. Every extension is
  called in a goroutine of its own. \<open>delete\<close>, \<open>Default\<close> and \<open>Validate\<close> collect the outcomes under
  a lock, so their result is determined by the order in which the goroutines finish: the list of
  extensions is given in that order. \<open>Sync\<close> shares a changeset and appends errors without a lock,
  and is modelled step by step in the next theory.
\<close>

section \<open>Objects and extensions\<close>

text \<open>The interface \<open>Object\<close>: its kind, metadata and the bytes of its spec.\<close>

record ctl_object =
  co_kind :: string
  co_apiVersion :: string
  co_meta :: obj_meta
  co_spec :: raw

text \<open>
  An argument of interface type: the nil interface, a typed nil pointer (whose \<open>GetSpec\<close> is nil),
  or an object.
\<close>

datatype obj_arg = NilIface | TypedNil | AnObject ctl_object

fun arg_spec :: "obj_arg \<Rightarrow> raw" where
  "arg_spec (AnObject ob) = co_spec ob"
| "arg_spec _ = RawNil"

definition app_object :: "application \<Rightarrow> ctl_object" where
  "app_object a = \<lparr>co_kind = ap_kind a, co_apiVersion = ap_apiVersion a, co_meta = ap_meta a,
     co_spec = get_spec (Some a)\<rparr>"

text \<open>
  What an extension answers. A stream is the messages it delivers and how it ends; for a WASI
  extension these are the outcomes of the response channel.
\<close>

record behaviour =
  bh_sync :: "managed \<Rightarrow> sync_request option \<Rightarrow> gerr + response list \<times> recv_end"
  bh_validate :: "managed \<Rightarrow> validation_request \<Rightarrow> gerr + validation_response"
  bh_default :: "managed \<Rightarrow> sync_request option \<Rightarrow> gerr + default_response"
  bh_delete :: "managed \<Rightarrow> sync_request option \<Rightarrow> gerr + delete_response"

abbreviation mg_name :: "managed \<Rightarrow> string" where
  "mg_name x \<equiv> ex_name (mg_ext x)"

abbreviation mg_spec :: "managed \<Rightarrow> ext_spec" where
  "mg_spec x \<equiv> ex_spec (mg_ext x)"

section \<open>The request for one extension\<close>

definition owner_of :: "ctl_object \<Rightarrow> owner" where
  "owner_of ob = \<lparr>ow_kind = co_kind ob, ow_name = om_name (co_meta ob),
     ow_namespace = om_namespace (co_meta ob), ow_apiVersion = co_apiVersion ob,
     ow_uid = om_uid (co_meta ob), ow_labels = om_labels (co_meta ob),
     ow_annotations = om_annotations (co_meta ob), ow_revisionID = itoa (om_generation (co_meta ob))\<rparr>"

text \<open>
  \<open>createOrUpdateRequest\<close>: nothing for a nil spec; otherwise the members of the spec that are root
  keys of the extension. The object is only looked at when there is a spec, so a nil pointer with a
  spec would be a dereference.
\<close>

definition createOrUpdateRequest ::
    "obj_arg \<Rightarrow> (string, json) gomap option \<Rightarrow> managed \<Rightarrow> gerr + sync_request option" where
  "createOrUpdateRequest arg v x =
     (case v of
        None \<Rightarrow> Inr None
      | Some m \<Rightarrow>
          (case arg of
             AnObject ob \<Rightarrow>
               (let data = filter (\<lambda>kv. fst kv \<in> set (mg_rootKeys x)) m
                in Inr (Some \<lparr>sr_owner = Some (owner_of ob),
                              sr_spec = if data = [] then RawNil else marshal_map data\<rparr>))
           | _ \<Rightarrow> Inl (EPanic ''nil pointer dereference'')))"

text \<open>
  The filter of \<open>Sync\<close> and \<open>Delete\<close>; a nil request is dereferenced unless the extension is always
  called. The filter of \<open>DeleteExtension\<close> looks at the name.
\<close>

definition runs_always_or_spec :: "managed \<Rightarrow> sync_request option \<Rightarrow> gerr + bool" where
  "runs_always_or_spec x cu =
     (if es_always (mg_spec x) then Inr True
      else (case cu of
              None \<Rightarrow> Inl (EPanic ''nil pointer dereference'')
            | Some r \<Rightarrow> Inr (raw_nonempty (sr_spec r))))"

definition runs_named :: "string \<Rightarrow> managed \<Rightarrow> sync_request option \<Rightarrow> gerr + bool" where
  "runs_named name x cu = Inr (mg_name x = name)"

section \<open>Delete\<close>

definition run_delete ::
    "behaviour \<Rightarrow> (managed \<Rightarrow> sync_request option \<Rightarrow> gerr + bool) \<Rightarrow> obj_arg \<Rightarrow> (string, json) gomap option \<Rightarrow>
     managed \<Rightarrow> gerr + delete_response option" where
  "run_delete bh runf arg v x =
     (case createOrUpdateRequest arg v x of
        Inl e \<Rightarrow> Inl e
      | Inr ur \<Rightarrow>
          (case runf x ur of
             Inl e \<Rightarrow> Inl e
           | Inr False \<Rightarrow> Inr None
           | Inr True \<Rightarrow> (case bh_delete bh x ur of Inl e \<Rightarrow> Inl e | Inr r \<Rightarrow> Inr (Some r))))"

text \<open>The outcomes of the goroutines, errors and values apart.\<close>

definition errors_of :: "(gerr + 'a) list \<Rightarrow> gerr list" where
  "errors_of rs = List.map_filter (\<lambda>r. case r of Inl e \<Rightarrow> Some e | Inr _ \<Rightarrow> None) rs"

definition values_of :: "(gerr + 'a) list \<Rightarrow> 'a list" where
  "values_of rs = List.map_filter (\<lambda>r. case r of Inl _ \<Rightarrow> None | Inr v \<Rightarrow> Some v) rs"

definition ctl_delete ::
    "behaviour \<Rightarrow> (managed \<Rightarrow> sync_request option \<Rightarrow> gerr + bool) \<Rightarrow> ctl_object \<Rightarrow> managed list \<Rightarrow>
     gerr + delete_response option list" where
  "ctl_delete bh runf ob exts =
     (case unmarshal_map (co_spec ob) of
        Inl e \<Rightarrow> Inl e
      | Inr v \<Rightarrow>
          (let outs = map (run_delete bh runf (AnObject ob) v) exts
           in if length (errors_of outs) > 0 then Inl (EMulti (errors_of outs)) else Inr (values_of outs)))"

text \<open>\<open>Delete\<close> and \<open>DeleteExtension\<close> drop the responses.\<close>

definition controller_delete :: "behaviour \<Rightarrow> ctl_object \<Rightarrow> managed list \<Rightarrow> gerr option" where
  "controller_delete bh ob exts =
     (case ctl_delete bh runs_always_or_spec ob exts of Inl e \<Rightarrow> Some e | Inr _ \<Rightarrow> None)"

definition delete_extension :: "behaviour \<Rightarrow> ctl_object \<Rightarrow> string \<Rightarrow> managed list \<Rightarrow> gerr option" where
  "delete_extension bh ob name exts =
     (case ctl_delete bh (runs_named name) ob exts of Inl e \<Rightarrow> Some e | Inr _ \<Rightarrow> None)"

section \<open>Default\<close>

definition defaulter ::
    "behaviour \<Rightarrow> obj_arg \<Rightarrow> (string, json) gomap option \<Rightarrow> managed \<Rightarrow> gerr + default_response" where
  "defaulter bh arg v x =
     (case createOrUpdateRequest arg v x of
        Inl e \<Rightarrow> Inl e
      | Inr req \<Rightarrow> bh_default bh x req)"

text \<open>The responses are returned next to the errors.\<close>

definition controller_default ::
    "behaviour \<Rightarrow> ctl_object \<Rightarrow> managed list \<Rightarrow> gerr option \<times> default_response list" where
  "controller_default bh ob exts =
     (case unmarshal_map (co_spec ob) of
        Inl e \<Rightarrow> (Some e, [])
      | Inr v \<Rightarrow>
          (let outs = map (defaulter bh (AnObject ob) v)
                 (filter (\<lambda>x. wh_defaulting (es_webhooks (mg_spec x))) exts)
           in (if length (errors_of outs) > 0 then Some (EMulti (errors_of outs)) else None, values_of outs)))"

section \<open>Validate\<close>

definition field_invalid :: "validation_error \<Rightarrow> field_error" where
  "field_invalid e = \<lparr>fe_path = ''spec'' # split_on (CHR ''.'') (ve_path e), fe_value = ve_value e,
     fe_detail = ve_detail e\<rparr>"

text \<open>
  \<open>validate\<close> for one extension. The result is an error value also when there is nothing to report:
  an empty \<open>FieldErrsWrapper\<close> is not nil.
\<close>

definition validate_one ::
    "behaviour \<Rightarrow> validation_type \<Rightarrow> obj_arg \<Rightarrow> obj_arg \<Rightarrow> (string, json) gomap option \<Rightarrow>
     (string, json) gomap option \<Rightarrow> managed \<Rightarrow> gerr option" where
  "validate_one bh typ newO oldO newV oldV x =
     (case (if newO \<noteq> NilIface then createOrUpdateRequest newO newV x else Inr None) of
        Inl e \<Rightarrow> Some e
      | Inr s \<Rightarrow>
          (case (if oldO \<noteq> NilIface then createOrUpdateRequest oldO oldV x else Inr None) of
             Inl e \<Rightarrow> Some e
           | Inr old \<Rightarrow>
               (if s = None \<and> old = None then None
                else (case bh_validate bh x \<lparr>vr_type = typ, vr_sync = s, vr_old = old\<rparr> of
                        Inl e \<Rightarrow> Some e
                      | Inr resp \<Rightarrow> Some (EFieldErrs (map field_invalid (vs_errors resp)))))))"

fun field_errs_of :: "gerr option \<Rightarrow> field_error list" where
  "field_errs_of (Some (EFieldErrs fs)) = fs"
| "field_errs_of _ = []"

fun other_err_of :: "gerr option \<Rightarrow> gerr option" where
  "other_err_of (Some (EFieldErrs fs)) = None"
| "other_err_of r = r"

text \<open>
  \<open>Validate\<close>: the object the extensions are looked up for is the new one if it has a spec, else the
  old one; if neither has, the nil interface is dereferenced. \<open>exts\<close> gives the extensions of a kind
  in the order they finish.
\<close>

definition controller_validate ::
    "behaviour \<Rightarrow> validation_type \<Rightarrow> obj_arg \<Rightarrow> obj_arg \<Rightarrow> (string \<Rightarrow> managed list) \<Rightarrow> gerr option" where
  "controller_validate bh typ newO oldO exts =
     (case (if raw_nonempty (arg_spec newO) then unmarshal_map (arg_spec newO) else Inr None) of
        Inl e \<Rightarrow> Some e
      | Inr newV \<Rightarrow>
          (case (if raw_nonempty (arg_spec oldO) then unmarshal_map (arg_spec oldO) else Inr None) of
             Inl e \<Rightarrow> Some e
           | Inr oldV \<Rightarrow>
               (case (if raw_nonempty (arg_spec newO) then newO
                      else if raw_nonempty (arg_spec oldO) then oldO else NilIface) of
                  AnObject ob \<Rightarrow>
                    (let outs = map (validate_one bh typ newO oldO newV oldV)
                           (filter (\<lambda>x. wh_validation (es_webhooks (mg_spec x))) (exts (co_kind ob)));
                         errs = List.map_filter other_err_of outs;
                         all_errs = concat (map field_errs_of outs)
                     in if length errs > 0 then Some (EMulti errs)
                        else if all_errs = [] then None
                        else Some (EFieldErrs all_errs))
                | _ \<Rightarrow> Some (EPanic ''nil pointer dereference''))))"

section \<open>Texts of the errors\<close>

text \<open>\<open>MultiError.Error\<close> and \<open>FieldErrsWrapper.Error\<close>, given the texts of the parts.\<close>

definition multi_error_text :: "string list \<Rightarrow> string" where
  "multi_error_text errs =
     (if length errs = 0 then ''''
      else itoa_nat (length errs) @ '' error(s) occurred:'' @
           concat (map (\<lambda>e. CHR 0x0A # ''* '' @ e) errs))"

definition field_errs_text :: "string list \<Rightarrow> string" where
  "field_errs_text errs = ''Field errors:'' @ [CHR 0x0A] @ concat (map (\<lambda>e. '' - '' @ e @ [CHR 0x0A]) errs)"

section \<open>What an extension is told\<close>

definition request_of :: "ctl_object \<Rightarrow> (string, json) gomap \<Rightarrow> managed \<Rightarrow> sync_request" where
  "request_of ob m x = \<lparr>sr_owner = Some (owner_of ob),
     sr_spec = if mkeys m \<inter> set (mg_rootKeys x) = {} then RawNil
               else marshal_map (filter (\<lambda>kv. fst kv \<in> set (mg_rootKeys x)) m)\<rparr>"

lemma request_of_eq: "createOrUpdateRequest (AnObject ob) (Some m) x = Inr (Some (request_of ob m x))"
proof -
  have "filter (\<lambda>kv. fst kv \<in> set (mg_rootKeys x)) m = [] \<longleftrightarrow> mkeys m \<inter> set (mg_rootKeys x) = {}"
    by (auto simp: filter_empty_conv mkeys_def)
  then show ?thesis by (simp add: createOrUpdateRequest_def request_of_def Let_def)
qed

lemma filter_restrict:
  "gomap_ok m \<Longrightarrow> mget (filter (\<lambda>kv. fst kv \<in> K) m) k = (if k \<in> K then mget m k else None)"
  by (induction m) (auto simp: mget_None_iff)


section \<open>Outcomes\<close>

lemma errors_of_Nil_iff: "errors_of rs = [] \<longleftrightarrow> (\<forall>r \<in> set rs. \<exists>v. r = Inr v)"
  by (induction rs) (auto simp: errors_of_def map_filter_simps split: sum.splits)

text \<open>
  Deleting an object succeeds exactly when every extension that should run answers its call: the
  text an extension puts into the \<open>Error\<close> field of its answer is never looked at, so a deletion
  reported as failed in this way counts as done.
\<close>

theorem delete_ignores_reported_error:
  assumes "unmarshal_map (co_spec ob) = Inr (Some m)"
  shows "controller_delete bh ob exts = None \<longleftrightarrow>
    (\<forall>x \<in> set exts. es_always (mg_spec x) \<or> mkeys m \<inter> set (mg_rootKeys x) \<noteq> {} \<longrightarrow>
       (\<exists>ur resp. createOrUpdateRequest (AnObject ob) (Some m) x = Inr ur \<and> bh_delete bh x ur = Inr resp))"
proof -
  have one: "(\<exists>v. run_delete bh runs_always_or_spec (AnObject ob) (Some m) x = Inr v) \<longleftrightarrow>
      (es_always (mg_spec x) \<or> mkeys m \<inter> set (mg_rootKeys x) \<noteq> {} \<longrightarrow>
        (\<exists>ur resp. createOrUpdateRequest (AnObject ob) (Some m) x = Inr ur \<and> bh_delete bh x ur = Inr resp))"
    for x
  proof -
    have "raw_nonempty (sr_spec (request_of ob m x)) \<longleftrightarrow> mkeys m \<inter> set (mg_rootKeys x) \<noteq> {}"
      by (simp add: request_of_def raw_nonempty_def marshal_map_def)
    then show ?thesis
      by (auto simp: run_delete_def request_of_eq runs_always_or_spec_def split: sum.splits bool.splits)
  qed
  have "controller_delete bh ob exts = None \<longleftrightarrow>
      errors_of (map (run_delete bh runs_always_or_spec (AnObject ob) (Some m)) exts) = []"
    using assms by (simp add: controller_delete_def ctl_delete_def Let_def)
  also have "\<dots> \<longleftrightarrow> (\<forall>x \<in> set exts. \<exists>v. run_delete bh runs_always_or_spec (AnObject ob) (Some m) x = Inr v)"
    by (simp add: errors_of_Nil_iff)
  finally show ?thesis by (simp only: one)
qed

text \<open>
  An extension that was uninstalled can no longer clean up: after the manager has removed it, the
  call that should delete it for an object reaches nobody and reports success.
\<close>

theorem uninstalled_extension_never_deletes:
  assumes "manager_ok m" "manager_remove mv ext m = (None, m')" "gomap_ok (em_extensions m')"
    and "unmarshal_map (co_spec ob) = Inr (Some v)"
  shows "delete_extension bh ob (ex_name ext) (extensions_for m' (co_kind ob)) = None \<and>
    delete_extension (bh\<lparr>bh_delete := f\<rparr>) ob (ex_name ext) (extensions_for m' (co_kind ob)) = None"
proof -
  have gone: "mg_name x \<noteq> ex_name ext" if listed: "x \<in> set (extensions_for m' kind)" for x kind
  proof -
    obtain spec where "m' = m\<lparr>em_spec := spec, em_extensions := mdel (ex_name ext) (em_extensions m)\<rparr>"
      using assms(2) by (auto simp: manager_remove_def split: prod.splits option.splits)
    then have "em_extensions m' = mdel (ex_name ext) (em_extensions m)" by simp
    moreover obtain n where "(n, x) \<in> set (em_extensions m')"
      using listed by (auto simp: extensions_for_def)
    ultimately have "mget (em_extensions m) n = Some x" "n \<noteq> ex_name ext"
      using assms(1,3) in_set_mget[of "em_extensions m'" n x]
      by (auto simp: mget_delete split: if_splits)
    then show ?thesis using assms(1) by (auto simp: manager_ok_def)
  qed
  have "run_delete b (runs_named (ex_name ext)) (AnObject ob) (Some v) x = Inr None"
    if "x \<in> set (extensions_for m' (co_kind ob))" for x b
    using gone[OF that] by (simp add: run_delete_def createOrUpdateRequest_def runs_named_def Let_def)
  then have "errors_of (map (run_delete b (runs_named (ex_name ext)) (AnObject ob) (Some v))
      (extensions_for m' (co_kind ob))) = []" for b
    by (auto simp: errors_of_Nil_iff)
  then show ?thesis using assms(4) by (simp add: delete_extension_def ctl_delete_def Let_def)
qed

section \<open>Validation\<close>

definition validators :: "managed list \<Rightarrow> managed list" where
  "validators exts = filter (\<lambda>x. wh_validation (es_webhooks (mg_spec x))) exts"

lemma other_err_None: "other_err_of r = None \<longleftrightarrow> r = None \<or> (\<exists>fs. r = Some (EFieldErrs fs))"
  by (cases r rule: other_err_of.cases) auto

lemma map_filter_Nil_iff: "List.map_filter f xs = [] \<longleftrightarrow> (\<forall>x \<in> set xs. f x = None)"
  by (induction xs) (auto simp: map_filter_simps split: option.splits)

text \<open>
  An object passes the extensions' validation exactly when every extension of its kind that asks
  to validate answers without any error; and if all of them answer, what is rejected is reported as
  the field errors of all extensions together, each below \<open>spec\<close>.
\<close>

lemma validation_outcome:
  assumes "co_spec ob \<noteq> RawNil" "unmarshal_map (co_spec ob) = Inr (Some m)"
    and "\<forall>x \<in> set (validators (exts (co_kind ob))). \<exists>ur resp.
      createOrUpdateRequest (AnObject ob) (Some m) x = Inr (Some ur) \<and>
      bh_validate bh x \<lparr>vr_type = vt, vr_sync = Some ur, vr_old = None\<rparr> = Inr resp \<and> answer x = vs_errors resp"
  shows "controller_validate bh vt (AnObject ob) TypedNil exts =
    (let errs = concat (map (map field_invalid \<circ> answer) (validators (exts (co_kind ob))))
     in if errs = [] then None else Some (EFieldErrs errs))"
proof -
  have one: "validate_one bh vt (AnObject ob) TypedNil (Some m) None x = Some (EFieldErrs (map field_invalid (answer x)))"
    if "x \<in> set (validators (exts (co_kind ob)))" for x
    using assms(3) that
    by (auto simp: validate_one_def createOrUpdateRequest_def[of TypedNil] split: sum.splits)
  have outs: "map (validate_one bh vt (AnObject ob) TypedNil (Some m) None) (validators (exts (co_kind ob))) =
      map (\<lambda>x. Some (EFieldErrs (map field_invalid (answer x)))) (validators (exts (co_kind ob)))"
    using one by (simp cong: map_cong)
  have none: "List.map_filter other_err_of (map (\<lambda>x. Some (EFieldErrs (g x))) xs) = []"
    for g :: "managed \<Rightarrow> field_error list" and xs
    by (simp add: map_filter_Nil_iff)
  have fields: "concat (map field_errs_of (map (\<lambda>x. Some (EFieldErrs (g x))) xs)) = concat (map g xs)"
    for g :: "managed \<Rightarrow> field_error list" and xs
    by (induction xs) auto
  show ?thesis
    using assms(1,2)
    by (simp add: controller_validate_def raw_nonempty_def Let_def outs[unfolded validators_def] none
        fields[unfolded map_map] fields validators_def comp_def del: map_map)
qed

section \<open>Concrete cases\<close>

definition ex_object :: ctl_object where
  "ex_object = \<lparr>co_kind = ''Application'', co_apiVersion = ''suffiks.com/v1'',
     co_meta = zero_meta\<lparr>om_name := ''web'', om_namespace := ''ns''\<rparr>,
     co_spec = RawJSON (JObj [(''image'', JStr ''img''), (''a'', JStr ''x'')])\<rparr>"

definition ex_behaviour :: behaviour where
  "ex_behaviour = \<lparr>bh_sync = (\<lambda>x r. Inr ([], RecvEOF)),
     bh_validate = (\<lambda>x r. Inr \<lparr>vs_errors = [\<lparr>ve_path = ''a.b'', ve_detail = ''bad'', ve_value = ''x''\<rparr>]\<rparr>),
     bh_default = (\<lambda>x r. Inr \<lparr>ds_spec = RawNil\<rparr>), bh_delete = (\<lambda>x r. Inr \<lparr>dr_error = ''still in use''\<rparr>)\<rparr>"

abbreviation ex_spec_map :: "(string, json) gomap" where
  "ex_spec_map \<equiv> [(''image'', JStr ''img''), (''a'', JStr ''x'')]"

lemma ex_object_spec: "unmarshal_map (co_spec ex_object) = Inr (Some ex_spec_map)"
  by (simp add: ex_object_def obj_map_ok)


theorem delete_ignores_reported_error_witness:
  "controller_delete ex_behaviour ex_object [ex_managed] = None"
  using delete_ignores_reported_error[OF ex_object_spec, of ex_behaviour "[ex_managed]"]
  by (simp add: request_of_eq ex_behaviour_def)

theorem uninstalled_extension_never_deletes_witness:
  "delete_extension ex_behaviour ex_object ''ingress''
     (extensions_for (snd (manager_remove ex_menv ex_ingress ex_manager)) ''Application'') = None"
proof -
  have rem: "manager_remove ex_menv ex_ingress ex_manager = (None, snd (manager_remove ex_menv ex_ingress ex_manager))"
    by (simp add: manager_remove_def ex_manager_def generator_remove_def ex_generator_def)
  have "manager_ok ex_manager" by (simp add: manager_ok_def ex_manager_def)
  from uninstalled_extension_never_deletes[OF this rem _ ex_object_spec, of ex_behaviour]
  show ?thesis
    by (simp add: ex_object_def manager_remove_def ex_manager_def generator_remove_def ex_generator_def)
qed

end
