(* ===== verification/Ext_Sync.thy ===== *)
theory Ext_Sync
  imports Ext_Controller
begin

text \<open>
  \<open>ExtensionController.Sync\<close>: one goroutine per extension reads the stream of that extension into
  the shared changeset. \<open>Changeset.Add\<close> and \<open>lockedList.Add\<close> hold a lock and are one step each;
  \<open>errs = append(errs, err)\<close> in \<open>run\<close> holds none and is two steps, a load and a store.
\<close>

section \<open>States\<close>

text \<open>
  A goroutine: not started, reading (with what its stream still holds and how that ends), failed and
  about to append its error, about to store the list it has loaded, done (with its outcome), or panicked: \<open>GPanicked\<close> has
  no step, so the \<open>WaitGroup\<close> is never released (in the code the process ends there).
\<close>

datatype gor =
    GStart managed
  | GReading "response list" recv_end
  | GFailed gerr
  | GStoring gerr "gerr list"
  | GDone "gerr option"
  | GPanicked gerr

text \<open>\<open>rs_log\<close> records, for the proofs only, which goroutine added which response.\<close>

record run_state =
  rs_changeset :: changeset
  rs_ran :: "string list"
  rs_errs :: "gerr list"
  rs_gors :: "gor list"
  rs_log :: "(nat \<times> response) list"

definition run_start :: "managed list \<Rightarrow> run_state" where
  "run_start exts = \<lparr>rs_changeset = empty_changeset, rs_ran = [], rs_errs = [],
     rs_gors = map GStart exts, rs_log = []\<rparr>"

section \<open>Steps\<close>

text \<open>
  The beginning of \<open>runExtension\<close>: whether the name of the extension is recorded, and what the
  goroutine does next.
\<close>

definition fail_with :: "gerr \<Rightarrow> gor" where
  "fail_with e = (if is_panic e then GPanicked e else GFailed e)"

definition begin_ext ::
    "behaviour \<Rightarrow> ctl_object \<Rightarrow> (string, json) gomap option \<Rightarrow> managed \<Rightarrow> bool \<times> gor" where
  "begin_ext bh ob v x =
     (case createOrUpdateRequest (AnObject ob) v x of
        Inl e \<Rightarrow> (False, fail_with e)
      | Inr ur \<Rightarrow>
          (case runs_always_or_spec x ur of
             Inl e \<Rightarrow> (False, fail_with e)
           | Inr False \<Rightarrow> (False, GDone None)
           | Inr True \<Rightarrow>
               (True, case bh_sync bh x ur of Inl e \<Rightarrow> fail_with e | Inr (rs, e) \<Rightarrow> GReading rs e)))"

inductive run_step ::
    "(json \<Rightarrow> gerr + json) \<Rightarrow> (raw \<Rightarrow> raw \<Rightarrow> gerr + raw) \<Rightarrow> behaviour \<Rightarrow> ctl_object \<Rightarrow>
     (string, json) gomap option \<Rightarrow> run_state \<Rightarrow> run_state \<Rightarrow> bool" for conv mmp bh ob v where
  begin_run: "i < length (rs_gors s) \<Longrightarrow> rs_gors s ! i = GStart x \<Longrightarrow> begin_ext bh ob v x = (rn, g) \<Longrightarrow>
    run_step conv mmp bh ob v s (s\<lparr>rs_ran := (if rn then rs_ran s @ [mg_name x] else rs_ran s),
                                   rs_gors := (rs_gors s)[i := g]\<rparr>)"
| read: "i < length (rs_gors s) \<Longrightarrow> rs_gors s ! i = GReading (r # rs) e \<Longrightarrow>
    changeset_add conv mmp r (rs_changeset s) = (None, cs) \<Longrightarrow>
    run_step conv mmp bh ob v s (s\<lparr>rs_changeset := cs, rs_gors := (rs_gors s)[i := GReading rs e],
                                   rs_log := rs_log s @ [(i, r)]\<rparr>)"
| read_fail: "i < length (rs_gors s) \<Longrightarrow> rs_gors s ! i = GReading (r # rs) e \<Longrightarrow>
    changeset_add conv mmp r (rs_changeset s) = (Some err, cs) \<Longrightarrow>
    run_step conv mmp bh ob v s (s\<lparr>rs_changeset := cs, rs_gors := (rs_gors s)[i := fail_with err]\<rparr>)"
| eof: "i < length (rs_gors s) \<Longrightarrow> rs_gors s ! i = GReading [] RecvEOF \<Longrightarrow>
    run_step conv mmp bh ob v s (s\<lparr>rs_gors := (rs_gors s)[i := GDone None]\<rparr>)"
| stream_err: "i < length (rs_gors s) \<Longrightarrow> rs_gors s ! i = GReading [] (RecvErr err) \<Longrightarrow>
    run_step conv mmp bh ob v s (s\<lparr>rs_gors := (rs_gors s)[i := fail_with err]\<rparr>)"
| load_errs: "i < length (rs_gors s) \<Longrightarrow> rs_gors s ! i = GFailed err \<Longrightarrow>
    run_step conv mmp bh ob v s (s\<lparr>rs_gors := (rs_gors s)[i := GStoring err (rs_errs s)]\<rparr>)"
| store_errs: "i < length (rs_gors s) \<Longrightarrow> rs_gors s ! i = GStoring err loaded \<Longrightarrow>
    run_step conv mmp bh ob v s (s\<lparr>rs_errs := loaded @ [err], rs_gors := (rs_gors s)[i := GDone (Some err)]\<rparr>)"

inductive_cases run_stepE: "run_step conv mmp bh ob v s s'"

inductive run_reach ::
    "(json \<Rightarrow> gerr + json) \<Rightarrow> (raw \<Rightarrow> raw \<Rightarrow> gerr + raw) \<Rightarrow> behaviour \<Rightarrow> ctl_object \<Rightarrow>
     (string, json) gomap option \<Rightarrow> managed list \<Rightarrow> run_state \<Rightarrow> bool" for conv mmp bh ob v exts where
  start: "run_reach conv mmp bh ob v exts (run_start exts)"
| step: "run_reach conv mmp bh ob v exts s \<Longrightarrow> run_step conv mmp bh ob v s s' \<Longrightarrow>
    run_reach conv mmp bh ob v exts s'"

text \<open>\<open>wg.Wait()\<close> returns when all goroutines are done.\<close>

definition run_done :: "run_state \<Rightarrow> bool" where
  "run_done s \<longleftrightarrow> (\<forall>g \<in> set (rs_gors s). \<exists>o1. g = GDone o1)"

text \<open>The result of \<open>run\<close>: the error, the changeset and the names of the extensions that ran.\<close>

definition run_result :: "run_state \<Rightarrow> gerr option \<times> changeset \<times> string list" where
  "run_result s = (if length (rs_errs s) > 0 then Some (EMulti (rs_errs s)) else None,
     rs_changeset s, rs_ran s)"

section \<open>Invariant\<close>

definition stream_of :: "behaviour \<Rightarrow> ctl_object \<Rightarrow> (string, json) gomap option \<Rightarrow> managed \<Rightarrow> response list" where
  "stream_of bh ob v x = (case snd (begin_ext bh ob v x) of GReading rs e \<Rightarrow> rs | _ \<Rightarrow> [])"

definition consumed :: "run_state \<Rightarrow> nat \<Rightarrow> response list" where
  "consumed s i = map snd (filter (\<lambda>p. fst p = i) (rs_log s))"

lemma fail_with_simps [simp]:
  "fail_with e \<noteq> GDone o1" "GDone o1 \<noteq> fail_with e" "fail_with e \<noteq> GStoring e1 l"
  "fail_with e \<noteq> GReading rs re" "fail_with e \<noteq> GStart x"
  by (simp_all add: fail_with_def)

text \<open>What is left of goroutine \<open>i\<close>, as far as its state tells.\<close>

fun gor_ok :: "managed \<Rightarrow> response list \<Rightarrow> response list \<Rightarrow> gor \<Rightarrow> bool" where
  "gor_ok x all got (GStart y) = (y = x \<and> got = [])"
| "gor_ok x all got (GReading rs e) = (all = got @ rs)"
| "gor_ok x all got (GDone None) = (all = got)"
| "gor_ok x all got _ = True"

definition log_inv ::
    "(json \<Rightarrow> gerr + json) \<Rightarrow> (raw \<Rightarrow> raw \<Rightarrow> gerr + raw) \<Rightarrow> behaviour \<Rightarrow> ctl_object \<Rightarrow>
     (string, json) gomap option \<Rightarrow> managed list \<Rightarrow> run_state \<Rightarrow> bool" where
  "log_inv conv mmp bh ob v exts s \<longleftrightarrow>
     length (rs_gors s) = length exts \<and>
     changeset_add_all conv mmp (map snd (rs_log s)) empty_changeset = (None, rs_changeset s) \<and>
     (\<forall>i < length exts. gor_ok (exts ! i) (stream_of bh ob v (exts ! i)) (consumed s i) (rs_gors s ! i))"

lemma fail_with_ok [simp]: "gor_ok x all got (fail_with e)"
  by (simp add: fail_with_def)

lemma changeset_add_error_keeps: "changeset_add conv mmp r c = (Some e, c') \<Longrightarrow> c' = c"
  by (cases r) (auto simp: AddMergePatch_def split: sum.splits if_splits)

lemma begin_gor_ok:
  "begin_ext bh ob v x = (rn, g) \<Longrightarrow> gor_ok x (stream_of bh ob v x) [] g"
  by (auto simp: stream_of_def begin_ext_def split: sum.splits bool.splits prod.splits)

lemma log_inv_start: "log_inv conv mmp bh ob v exts (run_start exts)"
  by (simp add: log_inv_def run_start_def consumed_def)

lemma log_inv_step:
  assumes "run_step conv mmp bh ob v s s'" "log_inv conv mmp bh ob v exts s"
  shows "log_inv conv mmp bh ob v exts s'"
  using assms(1)
proof cases
  case (begin_run i x rn g)
  have "gor_ok (exts ! i) (stream_of bh ob v (exts ! i)) (consumed s i) g"
    using assms(2) begin_run(2,3) begin_gor_ok[OF begin_run(4)] by (auto simp: log_inv_def)
  with assms(2) begin_run show ?thesis
    by (auto simp: log_inv_def consumed_def nth_list_update)
next
  case (read i r rs e cs)
  with assms(2) show ?thesis
    by (auto simp: log_inv_def consumed_def nth_list_update add_all_append)
next
  case (read_fail i r rs e err cs)
  with assms(2) changeset_add_error_keeps[OF read_fail(4)] show ?thesis
    by (auto simp: log_inv_def consumed_def nth_list_update)
next
  case (eof i)
  then have "gor_ok (exts ! i) (stream_of bh ob v (exts ! i)) (consumed s i) (GReading [] RecvEOF)"
    using assms(2) by (auto simp: log_inv_def)
  with assms(2) eof show ?thesis by (auto simp: log_inv_def consumed_def nth_list_update)
qed (use assms(2) in \<open>auto simp: log_inv_def consumed_def nth_list_update\<close>)

lemma run_reach_log: "run_reach conv mmp bh ob v exts s \<Longrightarrow> log_inv conv mmp bh ob v exts s"
  by (induction rule: run_reach.induct) (auto intro: log_inv_start log_inv_step)

text \<open>Errors: what is stored or about to be stored are errors of goroutines that failed.\<close>

fun gor_err :: "gor \<Rightarrow> gerr set" where
  "gor_err (GFailed e) = {e}"
| "gor_err (GStoring e l) = {e}"
| "gor_err (GDone (Some e)) = {e}"
| "gor_err (GPanicked e) = {e}"
| "gor_err (GDone None) = {}"
| "gor_err (GStart x) = {}"
| "gor_err (GReading rs re) = {}"

lemma gor_err_fail_with [simp]: "gor_err (fail_with e) = {e}"
  by (simp add: fail_with_def)

definition gor_errs :: "gor list \<Rightarrow> gerr set" where
  "gor_errs gs = {e. \<exists>i < length gs. e \<in> gor_err (gs ! i)}"

definition errs_inv :: "run_state \<Rightarrow> bool" where
  "errs_inv s \<longleftrightarrow>
     (rs_errs s \<noteq> [] \<longleftrightarrow> (\<exists>i < length (rs_gors s). \<exists>e. rs_gors s ! i = GDone (Some e))) \<and>
     set (rs_errs s) \<subseteq> gor_errs (rs_gors s) \<and>
     (\<forall>i < length (rs_gors s). \<forall>e l. rs_gors s ! i = GStoring e l \<longrightarrow> set l \<subseteq> gor_errs (rs_gors s))"

lemma errs_inv_start: "errs_inv (run_start exts)"
  by (auto simp: errs_inv_def run_start_def)

text \<open>Replacing a goroutine by one with no less errors keeps the set of errors.\<close>

lemma gor_errs_mono:
  assumes "i < length gs" "gor_err (gs ! i) \<subseteq> gor_err g"
  shows "gor_errs gs \<subseteq> gor_errs (gs[i := g])"
proof
  fix e assume "e \<in> gor_errs gs"
  then obtain j where "j < length gs" "e \<in> gor_err (gs ! j)" by (auto simp: gor_errs_def)
  with assms have "j < length (gs[i := g])" "e \<in> gor_err (gs[i := g] ! j)"
    by (auto simp: nth_list_update)
  then show "e \<in> gor_errs (gs[i := g])" unfolding gor_errs_def by blast
qed

lemma errs_inv_replace:
  assumes inv: "errs_inv s" and i: "i < length (rs_gors s)"
    and sub: "gor_err (rs_gors s ! i) \<subseteq> gor_err g"
    and new: "\<And>e. g \<noteq> GDone (Some e)" "\<And>e l. g = GStoring e l \<Longrightarrow> l = rs_errs s"
    and old: "\<And>e. rs_gors s ! i \<noteq> GDone (Some e)"
    and s': "rs_gors s' = (rs_gors s)[i := g]" "rs_errs s' = rs_errs s"
  shows "errs_inv s'"
proof -
  note mono = gor_errs_mono[OF i sub]
  have dn: "(rs_gors s)[i := g] ! j = GDone (Some e) \<longleftrightarrow> rs_gors s ! j = GDone (Some e)"
    if "j < length (rs_gors s)" for j e
    using that i new(1) old by (cases "j = i") auto
  have "set l \<subseteq> gor_errs ((rs_gors s)[i := g])"
    if "j < length (rs_gors s)" "(rs_gors s)[i := g] ! j = GStoring e l" for j e l
  proof (cases "j = i")
    case True
    with that i new(2) have "l = rs_errs s" by simp
    with inv mono show ?thesis by (auto simp: errs_inv_def)
  next
    case False
    with that inv have "set l \<subseteq> gor_errs (rs_gors s)" unfolding errs_inv_def by (metis nth_list_update_neq)
    with mono show ?thesis by blast
  qed
  with inv mono show ?thesis
    unfolding errs_inv_def s' by (simp add: dn cong: conj_cong) blast
qed

lemma begin_not_failed_done:
  "begin_ext bh ob v x = (rn, g) \<Longrightarrow> g \<noteq> GDone (Some e) \<and> g \<noteq> GStoring e1 l"
  by (auto simp: begin_ext_def split: sum.splits bool.splits prod.splits)

lemma errs_inv_store:
  assumes inv: "errs_inv s" and i: "i < length (rs_gors s)" and g: "rs_gors s ! i = GStoring err loaded"
  shows "errs_inv (s\<lparr>rs_errs := loaded @ [err], rs_gors := (rs_gors s)[i := GDone (Some err)]\<rparr>)"
proof -
  let ?gs = "(rs_gors s)[i := GDone (Some err)]"
  have mono: "gor_errs (rs_gors s) \<subseteq> gor_errs ?gs" by (rule gor_errs_mono[OF i]) (simp add: g)
  have here: "?gs ! i = GDone (Some err)" using i by simp
  have "set loaded \<subseteq> gor_errs (rs_gors s)" using inv i g by (simp add: errs_inv_def)
  moreover have "err \<in> gor_errs ?gs"
    unfolding gor_errs_def using here i by (intro CollectI exI[of _ i]) simp
  moreover have "set l \<subseteq> gor_errs ?gs" if "j < length (rs_gors s)" "?gs ! j = GStoring e l" for j e l
  proof -
    have "j \<noteq> i" using that here by auto
    with that inv have "set l \<subseteq> gor_errs (rs_gors s)" unfolding errs_inv_def by (metis nth_list_update_neq)
    with mono show ?thesis by blast
  qed
  moreover have "\<exists>j < length ?gs. \<exists>e. ?gs ! j = GDone (Some e)" using here i by (intro exI[of _ i]) simp
  ultimately show ?thesis using mono unfolding errs_inv_def by simp
qed

lemma errs_inv_step:
  assumes "run_step conv mmp bh ob v s s'" "errs_inv s"
  shows "errs_inv s'"
  using assms(1)
proof cases
  case (begin_run i x rn g)
  then show ?thesis using begin_not_failed_done[OF begin_run(4)]
    by (intro errs_inv_replace[OF assms(2) begin_run(2), where g = g]) auto
next
  case (read i r rs e cs)
  then show ?thesis by (intro errs_inv_replace[OF assms(2) read(2), where g = "GReading rs e"]) auto
next
  case (read_fail i r rs e err cs)
  then show ?thesis by (intro errs_inv_replace[OF assms(2) read_fail(2), where g = "fail_with err"]) auto
next
  case (eof i)
  then show ?thesis by (intro errs_inv_replace[OF assms(2) eof(2), where g = "GDone None"]) auto
next
  case (stream_err i err)
  then show ?thesis by (intro errs_inv_replace[OF assms(2) stream_err(2), where g = "fail_with err"]) auto
next
  case (load_errs i err)
  then show ?thesis
    by (intro errs_inv_replace[OF assms(2) load_errs(2), where g = "GStoring err (rs_errs s)"]) auto
next
  case (store_errs i err loaded)
  then show ?thesis using errs_inv_store[OF assms(2) store_errs(2,3)] by simp
qed

lemma run_reach_errs: "run_reach conv mmp bh ob v exts s \<Longrightarrow> errs_inv s"
  by (induction rule: run_reach.induct) (auto intro: errs_inv_start errs_inv_step)

text \<open>The names recorded are those of the extensions that have begun and run.\<close>

definition names_inv ::
    "behaviour \<Rightarrow> ctl_object \<Rightarrow> (string, json) gomap option \<Rightarrow> managed list \<Rightarrow> run_state \<Rightarrow> bool" where
  "names_inv bh ob v exts s \<longleftrightarrow>
     set (rs_ran s) = {mg_name (exts ! i) |i. i < length exts \<and> (\<nexists>x. rs_gors s ! i = GStart x) \<and>
                                              fst (begin_ext bh ob v (exts ! i))}"

lemma names_inv_start: "names_inv bh ob v exts (run_start exts)"
  by (auto simp: names_inv_def run_start_def)

lemma names_inv_replace:
  assumes "names_inv bh ob v exts s" "\<nexists>x. rs_gors s ! i = GStart x" "\<nexists>x. g = GStart x"
    "rs_gors s' = (rs_gors s)[i := g]" "rs_ran s' = rs_ran s" "length (rs_gors s) = length exts"
  shows "names_inv bh ob v exts s'"
proof -
  have "(\<exists>x. (rs_gors s)[i := g] ! j = GStart x) \<longleftrightarrow> (\<exists>x. rs_gors s ! j = GStart x)"
    if "j < length exts" for j
    using that assms(2,3,6) by (cases "j = i") auto
  then show ?thesis using assms(1) unfolding names_inv_def assms(4,5) by (auto; blast)
qed

lemma begin_not_start: "begin_ext bh ob v x = (rn, g) \<Longrightarrow> g \<noteq> GStart y"
  by (auto simp: begin_ext_def split: sum.splits bool.splits prod.splits)

lemma names_inv_begin:
  assumes inv: "names_inv bh ob v exts s" and len: "length (rs_gors s) = length exts"
    and i: "i < length exts" "rs_gors s ! i = GStart (exts ! i)"
    and b: "begin_ext bh ob v (exts ! i) = (rn, g)"
    and s': "rs_gors s' = (rs_gors s)[i := g]"
      "rs_ran s' = (if rn then rs_ran s @ [mg_name (exts ! i)] else rs_ran s)"
  shows "names_inv bh ob v exts s'"
proof -
  have st: "(\<exists>x. (rs_gors s)[i := g] ! j = GStart x) \<longleftrightarrow> j \<noteq> i \<and> (\<exists>x. rs_gors s ! j = GStart x)"
    if "j < length exts" for j
    using that i len begin_not_start[OF b] by (cases "j = i") auto
  have "{mg_name (exts ! j) |j. j < length exts \<and> (\<nexists>x. (rs_gors s)[i := g] ! j = GStart x) \<and>
            fst (begin_ext bh ob v (exts ! j))} =
        {mg_name (exts ! j) |j. j < length exts \<and> (\<nexists>x. rs_gors s ! j = GStart x) \<and>
            fst (begin_ext bh ob v (exts ! j))} \<union> (if rn then {mg_name (exts ! i)} else {})" (is "?l = ?r")
  proof
    show "?l \<subseteq> ?r" using st b by fastforce
    show "?r \<subseteq> ?l" using st b i by (auto split: if_splits; metis fst_conv)
  qed
  then show ?thesis using inv unfolding names_inv_def s' by auto
qed

lemma names_inv_step:
  assumes st: "run_step conv mmp bh ob v s s'" and l: "log_inv conv mmp bh ob v exts s"
    and inv: "names_inv bh ob v exts s"
  shows "names_inv bh ob v exts s'"
proof -
  have len: "length (rs_gors s) = length exts" using l by (simp add: log_inv_def)
  from st show ?thesis
  proof cases
    case (begin_run i x rn g)
    then have "x = exts ! i" using l by (auto simp: log_inv_def)
    with begin_run len show ?thesis
      by (intro names_inv_begin[OF inv len, of i rn g]) auto
  next
    case (read i r rs e cs)
    then show ?thesis by (intro names_inv_replace[OF inv, of i "GReading rs e"]) (auto simp: len)
  next
    case (read_fail i r rs e err cs)
    then show ?thesis by (intro names_inv_replace[OF inv, of i "fail_with err"]) (auto simp: len)
  next
    case (eof i)
    then show ?thesis by (intro names_inv_replace[OF inv, of i "GDone None"]) (auto simp: len)
  next
    case (stream_err i err)
    then show ?thesis by (intro names_inv_replace[OF inv, of i "fail_with err"]) (auto simp: len)
  next
    case (load_errs i err)
    then show ?thesis by (intro names_inv_replace[OF inv, of i "GStoring err (rs_errs s)"]) (auto simp: len)
  next
    case (store_errs i err loaded)
    then show ?thesis by (intro names_inv_replace[OF inv, of i "GDone (Some err)"]) (auto simp: len)
  qed
qed

lemma run_reach_names: "run_reach conv mmp bh ob v exts s \<Longrightarrow> names_inv bh ob v exts s"
proof (induction rule: run_reach.induct)
  case (step s s')
  then show ?case using names_inv_step run_reach_log by blast
qed (rule names_inv_start)

section \<open>What a run decides\<close>

lemma run_done_nth:
  "run_done s \<Longrightarrow> i < length (rs_gors s) \<Longrightarrow> \<exists>o1. rs_gors s ! i = GDone o1"
  by (auto simp: run_done_def)

lemma no_error_all_done:
  assumes "errs_inv s" "run_done s" "rs_errs s = []" "i < length (rs_gors s)"
  shows "rs_gors s ! i = GDone None"
  using assms run_done_nth[OF assms(2,4)] by (auto simp: errs_inv_def; metis option.exhaust)

text \<open>\<open>Sync\<close>: the spec is decoded, then the goroutines run to their end, in any order.\<close>

inductive sync_result ::
    "(json \<Rightarrow> gerr + json) \<Rightarrow> (raw \<Rightarrow> raw \<Rightarrow> gerr + raw) \<Rightarrow> behaviour \<Rightarrow> ctl_object \<Rightarrow> managed list \<Rightarrow>
     gerr option \<Rightarrow> (changeset \<times> string list) option \<Rightarrow> bool" for conv mmp bh ob exts where
  bad_spec: "unmarshal_map (co_spec ob) = Inl e \<Longrightarrow> sync_result conv mmp bh ob exts (Some e) None"
| all_ran: "unmarshal_map (co_spec ob) = Inr v \<Longrightarrow> run_reach conv mmp bh ob v exts s \<Longrightarrow> run_done s \<Longrightarrow>
    sync_result conv mmp bh ob exts (fst (run_result s)) (Some (snd (run_result s)))"

inductive_cases sync_resultE: "sync_result conv mmp bh ob exts e r"

text \<open>Every step brings the run closer to its end.\<close>

definition gor_weight :: "behaviour \<Rightarrow> ctl_object \<Rightarrow> (string, json) gomap option \<Rightarrow> gor \<Rightarrow> nat" where
  "gor_weight bh ob v g =
     (case g of
        GStart x \<Rightarrow> 4 + length (stream_of bh ob v x)
      | GReading rs e \<Rightarrow> 3 + length rs
      | GFailed e \<Rightarrow> 2
      | GStoring e l \<Rightarrow> 1
      | _ \<Rightarrow> 0)"

definition run_weight :: "behaviour \<Rightarrow> ctl_object \<Rightarrow> (string, json) gomap option \<Rightarrow> run_state \<Rightarrow> nat" where
  "run_weight bh ob v s = sum_list (map (gor_weight bh ob v) (rs_gors s))"

lemma weight_fail_with [simp]: "gor_weight bh ob v (fail_with e) < Suc (Suc (Suc n))"
  by (simp add: gor_weight_def fail_with_def)

lemma weight_replace:
  assumes "i < length (rs_gors s)" "gor_weight bh ob v g < gor_weight bh ob v (rs_gors s ! i)"
    "rs_gors s' = (rs_gors s)[i := g]"
  shows "run_weight bh ob v s' < run_weight bh ob v s"
proof -
  have "sum_list (map f (gs[i := g])) < sum_list (map f gs)" if "i < length gs" "f g < f (gs ! i)"
    for f :: "gor \<Rightarrow> nat" and gs
    using that by (induction gs arbitrary: i) (auto simp: nth_Cons split: nat.splits)
  from this[OF assms(1,2)] show ?thesis by (simp add: run_weight_def assms(3))
qed

lemma begin_weight: "begin_ext bh ob v x = (rn, g) \<Longrightarrow> gor_weight bh ob v g < gor_weight bh ob v (GStart x)"
  by (auto simp: stream_of_def gor_weight_def begin_ext_def fail_with_def
      split: sum.splits bool.splits prod.splits if_splits)

lemma run_step_weight:
  assumes "run_step conv mmp bh ob v s s'"
  shows "run_weight bh ob v s' < run_weight bh ob v s"
  using assms
proof cases
  case (begin_run i x rn g)
  then show ?thesis using begin_weight[OF begin_run(4)] by (intro weight_replace[OF begin_run(2), where g = g]) auto
next
  case (read i r rs e cs)
  then show ?thesis by (intro weight_replace[OF read(2), where g = "GReading rs e"]) (auto simp: gor_weight_def)
next
  case (read_fail i r rs e err cs)
  then show ?thesis by (intro weight_replace[OF read_fail(2), where g = "fail_with err"]) (auto simp: gor_weight_def fail_with_def)
next
  case (eof i)
  then show ?thesis by (intro weight_replace[OF eof(2), where g = "GDone None"]) (auto simp: gor_weight_def)
next
  case (stream_err i err)
  then show ?thesis by (intro weight_replace[OF stream_err(2), where g = "fail_with err"]) (auto simp: gor_weight_def fail_with_def)
next
  case (load_errs i err)
  then show ?thesis by (intro weight_replace[OF load_errs(2), where g = "GStoring err (rs_errs s)"]) (auto simp: gor_weight_def)
next
  case (store_errs i err loaded)
  then show ?thesis by (intro weight_replace[OF store_errs(2), where g = "GDone (Some err)"]) (auto simp: gor_weight_def)
qed

lemma run_progress:
  assumes "i < length (rs_gors s)" "\<And>o1. rs_gors s ! i \<noteq> GDone o1" "\<And>e. rs_gors s ! i \<noteq> GPanicked e"
  shows "\<exists>s'. run_step conv mmp bh ob v s s'"
proof (cases "rs_gors s ! i")
  case (GStart x)
  then show ?thesis using assms(1) by (cases "begin_ext bh ob v x") (blast intro: run_step.begin_run)
next
  case (GReading rs e)
  show ?thesis
  proof (cases rs)
    case Nil
    with GReading assms(1) show ?thesis by (cases e) (blast intro: run_step.eof run_step.stream_err)+
  next
    case (Cons r rs')
    show ?thesis
    proof (cases "changeset_add conv mmp r (rs_changeset s)")
      case (Pair o1 cs)
      with GReading Cons assms(1) show ?thesis
        by (cases o1) (blast intro: run_step.read run_step.read_fail)+
    qed
  qed
next
  case (GFailed err)
  then show ?thesis using assms(1) by (blast intro: run_step.load_errs)
next
  case (GStoring err l)
  then show ?thesis using assms(1) by (blast intro: run_step.store_errs)
qed (use assms(2,3) in auto)

section \<open>Properties\<close>

text \<open>The log of a successful run, on which the properties of \<open>Sync\<close> rest.\<close>

lemma run_reach_log_index:
  "run_reach conv mmp bh ob v exts s \<Longrightarrow>
   length (rs_gors s) = length exts \<and> (\<forall>p \<in> set (rs_log s). fst p < length exts)"
proof (induction rule: run_reach.induct)
  case start
  then show ?case by (simp add: run_start_def)
next
  case (step s s')
  from step.hyps(2) step.IH show ?case by cases auto
qed

lemma sync_as_merge:
  assumes "sync_result conv mmp bh ob exts None (Some (c, names))"
  obtains v log where "unmarshal_map (co_spec ob) = Inr v"
    "changeset_add_all conv mmp (map snd log) empty_changeset = (None, c)"
    "\<forall>p \<in> set log. fst p < length exts"
    "\<forall>i < length exts. map snd (filter (\<lambda>p. fst p = i) log) = stream_of bh ob v (exts ! i)"
    "set names = mg_name ` {x \<in> set exts. fst (begin_ext bh ob v x)}"
  using assms
proof cases
  case (all_ran v s)
  have r: "rs_errs s = []" "c = rs_changeset s" "names = rs_ran s"
    using all_ran by (auto simp: run_result_def split: if_splits)
  have reach: "run_reach conv mmp bh ob v exts s" using all_ran by blast
  note log = run_reach_log[OF reach] and nm = run_reach_names[OF reach] and er = run_reach_errs[OF reach]
  have len: "length (rs_gors s) = length exts" using log by (simp add: log_inv_def)
  have dn: "rs_gors s ! i = GDone None" if "i < length exts" for i
    using no_error_all_done[OF er _ r(1)] that len all_ran by auto
  have "consumed s i = stream_of bh ob v (exts ! i)" if "i < length exts" for i
    using log that dn[OF that] unfolding log_inv_def by fastforce
  moreover have "set names = mg_name ` {x \<in> set exts. fst (begin_ext bh ob v x)}"
    using nm dn unfolding names_inv_def r by (auto simp: in_set_conv_nth)
  ultimately show ?thesis
    using all_ran(3) log run_reach_log_index[OF reach]
    by (intro that[of v "rs_log s"]) (simp_all add: r log_inv_def consumed_def)
qed

text \<open>Nothing reaches the changeset that is not in a stream, and everything in a stream does.\<close>

lemma merged_set:
  assumes "\<forall>p \<in> set log. fst p < length exts"
    and "\<forall>i < length exts. map snd (filter (\<lambda>p. fst p = i) log) = f (exts ! i)"
  shows "set (map snd log) = (\<Union>x \<in> set exts. set (f x))"
proof (rule set_eqI)
  fix r
  have "r \<in> set (map snd log) \<longleftrightarrow> (\<exists>i < length exts. r \<in> set (map snd (filter (\<lambda>p. fst p = i) log)))"
    using assms(1) by force
  also have "\<dots> \<longleftrightarrow> (\<exists>i < length exts. r \<in> set (f (exts ! i)))"
    using assms(2) by (metis (no_types, lifting))
  also have "\<dots> \<longleftrightarrow> (\<exists>x \<in> set exts. r \<in> set (f x))" by (metis in_set_conv_nth)
  finally show "r \<in> set (map snd log) \<longleftrightarrow> r \<in> (\<Union>x \<in> set exts. set (f x))" by simp
qed


text \<open>
  \<open>Sync\<close> returns no error exactly when every goroutine ended without one, and every error in a
  returned \<open>MultiError\<close> is the error of some goroutine; not every
  error of a goroutine is in it.
\<close>

theorem sync_error_sound:
  assumes "run_reach conv mmp bh ob v exts s" "run_done s"
  shows "(fst (run_result s) = None \<longleftrightarrow> (\<forall>g \<in> set (rs_gors s). g = GDone None)) \<and>
    (\<forall>es. fst (run_result s) = Some (EMulti es) \<longrightarrow>
       es \<noteq> [] \<and> (\<forall>e \<in> set es. GDone (Some e) \<in> set (rs_gors s)))"
proof -
  note inv = run_reach_errs[OF assms(1)]
  have "rs_errs s = [] \<longleftrightarrow> (\<forall>g \<in> set (rs_gors s). g = GDone None)"
    using no_error_all_done[OF inv assms(2)] inv
    by (auto simp: in_set_conv_nth errs_inv_def) (metis gor.inject(5) option.distinct(1) nth_mem)
  moreover have "GDone (Some e) \<in> set (rs_gors s)" if "e \<in> set (rs_errs s)" for e
  proof -
    from that inv obtain i where i: "i < length (rs_gors s)" "e \<in> gor_err (rs_gors s ! i)"
      by (auto simp: errs_inv_def gor_errs_def)
    with run_done_nth[OF assms(2) i(1)] have "rs_gors s ! i = GDone (Some e)"
      by (metis gor_err.simps(3,5) empty_iff option.exhaust singletonD)
    with i show ?thesis by (metis nth_mem)
  qed
  ultimately show ?thesis by (auto simp: run_result_def)
qed


text \<open>
  The unsynchronised append loses errors: when two extensions fail, there is a run of \<open>Sync\<close> that
  reports only one of the two.
\<close>

theorem racing_errors_lost:
  assumes "begin_ext bh ob v x = (rx, GFailed ex)" "begin_ext bh ob v y = (ry, GFailed ey)"
  shows "\<exists>s. run_reach conv mmp bh ob v [x, y] s \<and> run_done s \<and>
    rs_gors s = [GDone (Some ex), GDone (Some ey)] \<and> fst (run_result s) = Some (EMulti [ey])"
proof -
  let ?st = "run_step conv mmp bh ob v"
  define s1 where "s1 = (run_start [x, y])\<lparr>rs_ran := (if rx then [mg_name x] else []),
    rs_gors := [GFailed ex, GStart y]\<rparr>"
  define s2 where "s2 = s1\<lparr>rs_ran := (if ry then rs_ran s1 @ [mg_name y] else rs_ran s1),
    rs_gors := [GFailed ex, GFailed ey]\<rparr>"
  define s3 where "s3 = s2\<lparr>rs_gors := [GStoring ex [], GFailed ey]\<rparr>"
  define s4 where "s4 = s3\<lparr>rs_gors := [GStoring ex [], GStoring ey []]\<rparr>"
  define s5 where "s5 = s4\<lparr>rs_errs := [ex], rs_gors := [GDone (Some ex), GStoring ey []]\<rparr>"
  define s6 where "s6 = s5\<lparr>rs_errs := [ey], rs_gors := [GDone (Some ex), GDone (Some ey)]\<rparr>"
  have "?st (run_start [x, y]) s1"
    using run_step.begin_run[where i = 0 and s = "run_start [x, y]", OF _ _ assms(1)]
    by (cases rx) (simp_all add: run_start_def s1_def)
  moreover have "?st s1 s2"
    using run_step.begin_run[where i = 1 and s = s1, OF _ _ assms(2)]
    by (cases ry) (simp_all add: s1_def s2_def)
  moreover have "?st s2 s3"
    using run_step.load_errs[where i = 0 and s = s2 and err = ex]
    by (simp add: s1_def s2_def s3_def run_start_def)
  moreover have "?st s3 s4"
    using run_step.load_errs[where i = 1 and s = s3 and err = ey]
    by (simp add: s1_def s2_def s3_def s4_def run_start_def)
  moreover have "?st s4 s5"
    using run_step.store_errs[where i = 0 and s = s4 and err = ex and loaded = "[]"]
    by (simp add: s4_def s5_def)
  moreover have "?st s5 s6"
    using run_step.store_errs[where i = 1 and s = s5 and err = ey and loaded = "[]"]
    by (simp add: s5_def s6_def)
  ultimately have "run_reach conv mmp bh ob v [x, y] s6" by (meson run_reach.intros)
  then show ?thesis by (intro exI[of _ s6]) (simp add: s6_def run_done_def run_result_def)
qed

text \<open>The only run of an extension that answers with one response.\<close>

lemma single_run:
  assumes "begin_ext bh ob v x = (True, GReading [r] RecvEOF)"
    and "changeset_add conv mmp r empty_changeset = (None, cs)"
  shows "run_reach conv mmp bh ob v [x]
    \<lparr>rs_changeset = cs, rs_ran = [mg_name x], rs_errs = [], rs_gors = [GDone None], rs_log = [(0, r)]\<rparr>"
    (is "run_reach _ _ _ _ _ _ ?end")
proof -
  let ?st = "run_step conv mmp bh ob v"
  define s1 where "s1 = (run_start [x])\<lparr>rs_ran := [mg_name x], rs_gors := [GReading [r] RecvEOF]\<rparr>"
  define s2 where "s2 = ?end\<lparr>rs_gors := [GReading [] RecvEOF]\<rparr>"
  have "?st (run_start [x]) s1"
    using run_step.begin_run[where i = 0 and s = "run_start [x]", OF _ _ assms(1)]
    by (simp add: run_start_def s1_def)
  moreover have "?st s1 s2"
    using run_step.read[where i = 0 and s = s1 and r = r and rs = "[]" and e = RecvEOF and cs = cs] assms(2)
    by (simp add: s1_def s2_def run_start_def)
  moreover have "?st s2 ?end"
    using run_step.eof[where i = 0 and s = s2] by (simp add: s2_def)
  ultimately show ?thesis by (meson run_reach.intros)
qed

section \<open>Witnesses\<close>

definition ex_failing :: behaviour where
  "ex_failing = ex_behaviour\<lparr>bh_sync := \<lambda>x r. Inl (EMsg (mg_name x))\<rparr>"

definition ex_labelling :: behaviour where
  "ex_labelling = ex_behaviour\<lparr>bh_sync := \<lambda>x r. Inr ([RLabel \<lparr>kv_name = ''team'', kv_value = ''a''\<rparr>], RecvEOF)\<rparr>"

definition ex_database :: managed where
  "ex_database = ex_managed\<lparr>mg_ext := ex_ingress\<lparr>ex_meta := (ex_meta ex_ingress)\<lparr>om_name := ''database''\<rparr>\<rparr>\<rparr>"

lemma ex_request_runs:
  assumes "x \<in> {ex_managed, ex_database}"
  shows "runs_always_or_spec x (Some (request_of ex_object ex_spec_map x)) = Inr True"
  using assms by (auto simp: runs_always_or_spec_def request_of_def ex_managed_def ex_database_def
      raw_nonempty_def marshal_map_def)

lemma ex_failing_begin:
  "x \<in> {ex_managed, ex_database} \<Longrightarrow>
   begin_ext ex_failing ex_object (Some ex_spec_map) x = (True, GFailed (EMsg (mg_name x)))"
  by (simp add: begin_ext_def request_of_eq ex_request_runs ex_failing_def fail_with_def)

theorem racing_errors_lost_witness:
  "\<exists>s. run_reach Inr (\<lambda>a b. Inr b) ex_failing ex_object (Some ex_spec_map) [ex_managed, ex_database] s \<and>
     fst (run_result s) = Some (EMulti [EMsg ''database''])"
  using racing_errors_lost[OF ex_failing_begin[of ex_managed] ex_failing_begin[of ex_database],
      of Inr "\<lambda>a b. Inr b"]
  by (auto simp: ex_database_def)

lemma ex_labelling_begin:
  "begin_ext ex_labelling ex_object (Some ex_spec_map) ex_managed =
   (True, GReading [RLabel \<lparr>kv_name = ''team'', kv_value = ''a''\<rparr>] RecvEOF)"
  by (simp add: begin_ext_def request_of_eq ex_request_runs ex_labelling_def)

text \<open>The only run of one extension that sets a label.\<close>

definition ex_run_end :: run_state where
  "ex_run_end = \<lparr>rs_changeset = empty_changeset\<lparr>cg_labels := [(''team'', ''a'')]\<rparr>,
     rs_ran = [''ingress''], rs_errs = [], rs_gors = [GDone None],
     rs_log = [(0, RLabel \<lparr>kv_name = ''team'', kv_value = ''a''\<rparr>)]\<rparr>"

lemma ex_run_reach:
  "run_reach conv mmp ex_labelling ex_object (Some ex_spec_map) [ex_managed] ex_run_end"
  using single_run[OF ex_labelling_begin, of conv mmp]
  by (simp add: ex_run_end_def ex_managed_def empty_changeset_def)

lemma ex_run_done: "run_done ex_run_end"
  by (simp add: run_done_def ex_run_end_def)


theorem sync_error_sound_witness:
  "fst (run_result ex_run_end) = None \<longleftrightarrow> (\<forall>g \<in> set (rs_gors ex_run_end). g = GDone None)"
  using sync_error_sound[OF ex_run_reach ex_run_done] by blast

end
