(* ===== verification/App_Reconciler.thy ===== *)
theory App_Reconciler
  imports Kube
begin

text \<open>
  \<open>internal/controller/application_reconciler.go\<close>: how an Application becomes a Deployment and
  a Service, and how its status is kept.
\<close>

section \<open>The deployment of an application\<close>

definition app_object_meta :: "application \<Rightarrow> obj_meta" where
  "app_object_meta a =
     zero_meta\<lparr>om_name := om_name (ap_meta a), om_namespace := om_namespace (ap_meta a)\<rparr>"

text \<open>
  \<open>envVars\<close>: a variable without a value must have a \<open>valueFrom\<close>; the code dereferences the
  pointer without looking.
\<close>

fun envVars :: "env_var list \<Rightarrow> gerr + pod_env list" where
  "envVars [] = Inr []"
| "envVars (e # es) =
     (if ev_value e \<noteq> ''''
      then (case envVars es of Inl err \<Rightarrow> Inl err
            | Inr r \<Rightarrow> Inr (\<lparr>pe_name = ev_name e, pe_value = ev_value e, pe_fieldPath = None\<rparr> # r))
      else (case ev_valueFrom e of
              None \<Rightarrow> Inl (EPanic ''nil pointer dereference'')
            | Some path \<Rightarrow>
                (case envVars es of Inl err \<Rightarrow> Inl err
                 | Inr r \<Rightarrow> Inr (\<lparr>pe_name = ev_name e, pe_value = '''', pe_fieldPath = Some path\<rparr> # r))))"

fun envFroms :: "env_from list \<Rightarrow> env_from_source list" where
  "envFroms [] = []"
| "envFroms (f # fs) =
     (if ef_configMap f \<noteq> ''''
      then \<lparr>fs_configMapRef = Some (ef_configMap f, True), fs_secretRef = None\<rparr>
      else \<lparr>fs_configMapRef = None, fs_secretRef = Some (ef_secret f, True)\<rparr>) # envFroms fs"

text \<open>\<open>int32(x)\<close> and \<open>intstr.FromInt(x)\<close> keep the low 32 bits.\<close>

definition int32 :: "int \<Rightarrow> 32 word" where
  "int32 i = of_int i"

definition app_name_label :: string where
  "app_name_label = ''app.kubernetes.io/name''"

definition newDeployment :: "application \<Rightarrow> app_spec \<Rightarrow> gerr + deployment" where
  "newDeployment app spec =
     (let labels = [(app_name_label, om_name (ap_meta app))];
          ports = (if as_port spec > 0
                   then [\<lparr>cp_name = ''http'', cp_containerPort = int32 (as_port spec)\<rparr>] else []);
          rq = (case as_resources spec of
                  None \<Rightarrow> \<lparr>pr_limits = [], pr_requests = []\<rparr>
                | Some r \<Rightarrow> \<lparr>pr_limits = [(''memory'', rr_limit_memory r)],
                             pr_requests = [(''memory'', rr_request_memory r), (''cpu'', rr_request_cpu r)]\<rparr>)
      in case envVars (as_env spec) of
           Inl e \<Rightarrow> Inl e
         | Inr env \<Rightarrow>
             Inr \<lparr>dp_meta = app_object_meta app, dp_replicas = 1, dp_selector = labels,
                  dp_podLabels = labels, dp_podAnnotations = [], dp_initContainers = [],
                  dp_containers =
                    [\<lparr>pc_name = om_name (ap_meta app), pc_image = as_image spec,
                      pc_command = as_command spec, pc_ports = ports, pc_resources = rq,
                      pc_env = env, pc_envFrom = envFroms (as_envFrom spec)\<rparr>],
                  dp_availableReplicas = 0\<rparr>)"

text \<open>
  The first part of \<open>CreateOrUpdate\<close>: the deployment is made, owned by the application, changed
  by the changeset, and its annotations are copied to the pods.
\<close>

definition desired_deployment ::
    "'w kube \<Rightarrow> (raw \<Rightarrow> raw \<Rightarrow> gerr + raw) \<Rightarrow> deployment object_ops \<Rightarrow> application \<Rightarrow> app_spec \<Rightarrow>
     changeset \<Rightarrow> gerr + deployment" where
  "desired_deployment k mp ops app spec cs =
     (case newDeployment app spec of
        Inl e \<Rightarrow> Inl e
      | Inr d0 \<Rightarrow>
          (case k_setOwner k app d0 of
             (Some e, _) \<Rightarrow> Inl (EWrap ''unable to set controller reference'' e)
           | (None, d1) \<Rightarrow>
               (case changeset_apply mp ops cs d1 of
                  (Some e, _) \<Rightarrow> Inl (EWrap ''unable to modify Deployment'' e)
                | (None, d2) \<Rightarrow>
                    Inr (d2\<lparr>dp_podAnnotations :=
                           mergeMaps [dp_podAnnotations d2, om_annotations (dp_meta d2)]\<rparr>))))"

text \<open>
  The service part. The variable \<open>err\<close> tested after the \<open>if\<close> is the one of the enclosing
  function (the \<open>err\<close> of \<open>Get\<close> lives in the \<open>if\<close> only), which is nil at this point: \<open>outer\<close>.
\<close>

definition apply_service ::
    "'w kube \<Rightarrow> gerr option \<Rightarrow> application \<Rightarrow> app_spec \<Rightarrow> deployment \<Rightarrow> 'w \<Rightarrow> gerr option \<times> 'w" where
  "apply_service k outer app spec depl w =
     (let svc0 = \<lparr>sv_meta = app_object_meta app, sv_ports = [], sv_selector = []\<rparr>;
          (got, w1) = k_getService k (object_key (sv_meta svc0)) w;
          put = (\<lambda>svc.
            let update = (outer = None \<or> \<not> is_not_found (the outer));
                svc1 = svc\<lparr>sv_ports := [\<lparr>sp_name = ''http'', sp_port = 80, sp_targetPort = int32 (as_port spec)\<rparr>],
                           sv_selector := [(app_name_label, om_name (ap_meta app))]\<rparr>;
                svc2 = svc1\<lparr>sv_meta := (sv_meta svc1)\<lparr>om_labels :=
                              merge_into (om_labels (sv_meta svc1)) (om_labels (dp_meta depl))\<rparr>\<rparr>
            in if update
               then (case k_updateService k svc2 w1 of
                       (Some e, w2) \<Rightarrow> (Some (EWrap ''Reconcile update svc'' e), w2)
                     | (None, w2) \<Rightarrow> (None, w2))
               else (case k_createService k svc2 w1 of
                       (Some e, w2) \<Rightarrow> (Some (EWrap ''Reconcile create svc'' e), w2)
                     | (None, w2) \<Rightarrow> (None, w2)))
      in case got of
           Inl e \<Rightarrow> (if is_not_found e then put svc0
                     else (Some (EWrap ''error getting service'' e), w1))
         | Inr svc \<Rightarrow> put svc)"

definition apply_deployment ::
    "'w kube \<Rightarrow> gerr option \<Rightarrow> deployment \<Rightarrow> 'w \<Rightarrow> gerr option \<times> 'w" where
  "apply_deployment k outer depl w =
     (let (got, w1) = k_getDeployment k (object_key (dp_meta depl)) w;
          put = (\<lambda>existing.
            if outer = None \<and> om_generation (dp_meta existing) > 0
            then (case k_updateDeployment k
                         (depl\<lparr>dp_meta := (dp_meta depl)\<lparr>om_generation := om_generation (dp_meta existing)\<rparr>\<rparr>) w1 of
                    (Some e, w2) \<Rightarrow> (Some (EWrap ''Reconcile update deployment'' e), w2)
                  | (None, w2) \<Rightarrow> (None, w2))
            else (case k_createDeployment k depl w1 of
                    (Some e, w2) \<Rightarrow> (Some (EWrap ''Reconcile create deployment'' e), w2)
                  | (None, w2) \<Rightarrow> (None, w2)))
      in case got of
           Inl e \<Rightarrow> (if is_not_found e then put zero_deployment
                     else (Some (EWrap ''error getting deployment'' e), w1))
         | Inr d \<Rightarrow> put d)"

text \<open>\<open>AppReconciler.CreateOrUpdate\<close>.\<close>

definition app_create_or_update ::
    "'w kube \<Rightarrow> (raw \<Rightarrow> raw \<Rightarrow> gerr + raw) \<Rightarrow> deployment object_ops \<Rightarrow> application \<Rightarrow> changeset \<Rightarrow>
     'w \<Rightarrow> gerr option \<times> 'w" where
  "app_create_or_update k mp ops app cs w =
     (case well_known_spec (Some app) of
        Inl e \<Rightarrow> (Some e, w)
      | Inr spec \<Rightarrow>
          (case desired_deployment k mp ops app spec cs of
             Inl e \<Rightarrow> (Some e, w)
           | Inr depl \<Rightarrow>
               (case (if as_port spec > 0 then apply_service k None app spec depl w else (None, w)) of
                  (Some e, w1) \<Rightarrow> (Some e, w1)
                | (None, w1) \<Rightarrow> apply_deployment k None depl w1)))"

section \<open>Status\<close>

text \<open>
  \<open>AppReconciler.UpdateStatus\<close>: whether the status changed, an error, and the application with
  its status updated in place. An error of \<open>Get\<close> is swallowed.
\<close>

definition app_update_status ::
    "'w kube \<Rightarrow> (app_spec \<times> (string, string) gomap \<Rightarrow> gerr + 64 word) \<Rightarrow> application \<Rightarrow> string list \<Rightarrow>
     'w \<Rightarrow> (bool \<times> gerr option \<times> application) \<times> 'w" where
  "app_update_status k hashf app exts w =
     (case app_hash hashf (Some app) of
        Inl e \<Rightarrow> ((False, Some (EWrap ''error hashing application'' e), app), w)
      | Inr hash \<Rightarrow>
          (let st0 = ap_status app;
               u1 = (st_hash st0 \<noteq> hash);
               st1 = st0\<lparr>st_hash := hash\<rparr>;
               u2 = (u1 \<or> st_extensions st1 \<noteq> exts);
               st2 = st1\<lparr>st_extensions := exts\<rparr>
           in case k_getDeployment k (object_key (ap_meta app)) w of
                (Inl _, w1) \<Rightarrow> ((u2, None, app\<lparr>ap_status := st2\<rparr>), w1)
              | (Inr depl, w1) \<Rightarrow>
                  (let avail = sint (dp_availableReplicas depl);
                       u3 = (u2 \<or> st_replicas st2 \<noteq> avail);
                       st3 = st2\<lparr>st_replicas := avail\<rparr>;
                       u4 = (u3 \<or> st_availableReplicas st3 \<noteq> avail);
                       st4 = st3\<lparr>st_availableReplicas := avail\<rparr>
                   in ((u4, None, app\<lparr>ap_status := st4\<rparr>), w1))))"

text \<open>\<open>AppReconciler.IsModified\<close>.\<close>

definition app_is_modified ::
    "'w kube \<Rightarrow> (app_spec \<times> (string, string) gomap \<Rightarrow> gerr + 64 word) \<Rightarrow> application \<Rightarrow>
     'w \<Rightarrow> (gerr + bool) \<times> 'w" where
  "app_is_modified k hashf app w =
     (case app_hash hashf (Some app) of
        Inl e \<Rightarrow> (Inl e, w)
      | Inr h \<Rightarrow>
          (if st_hash (ap_status app) \<noteq> h then (Inr True, w)
           else (case k_getDeployment k (object_key (ap_meta app)) w of
                   (Inl e, w1) \<Rightarrow> (if is_not_found e then Inr True else Inl e, w1)
                 | (Inr _, w1) \<Rightarrow>
                     (case well_known_spec (Some app) of
                        Inl e \<Rightarrow> (Inl e, w1)
                      | Inr spec \<Rightarrow>
                          (if as_port spec > 0
                           then (case k_getService k (object_key (ap_meta app)) w1 of
                                   (Inl e, w2) \<Rightarrow> (if is_not_found e then Inr True else Inl e, w2)
                                 | (Inr _, w2) \<Rightarrow> (Inr False, w2))
                           else (Inr False, w1))))))"

section \<open>Delete and the rest\<close>

definition app_delete :: "'w kube \<Rightarrow> application \<Rightarrow> 'w \<Rightarrow> gerr option \<times> 'w" where
  "app_delete k app w =
     (case k_deleteDeployment k (object_key (app_object_meta app)) w of
        (e1, w1) \<Rightarrow>
          (if e1 \<noteq> None \<and> \<not> is_not_found (the e1) then (e1, w1)
           else (case k_deleteService k (object_key (app_object_meta app)) w1 of
                   (e2, w2) \<Rightarrow>
                     (if e2 \<noteq> None \<and> \<not> is_not_found (the e2) then (e2, w2) else (None, w2)))))"

definition app_extensions :: "application \<Rightarrow> string list" where
  "app_extensions a = st_extensions (ap_status a)"

definition app_default :: "application \<Rightarrow> gerr option \<times> application" where
  "app_default a = (None, a)"

end
