(* ===== verification/Reconciler.thy ===== *)
theory Reconciler
  imports Ext_Sync App_Reconciler
begin

text \<open>
  \<open>internal/controller/reconciler.go\<close> and \<open>reconciler_webhook.go\<close>: the wrapper around a reconciler
  that looks after the finalizer, calls the extensions, and serves the webhooks. It is generic in the
  object type; the child reconciler and everything outside are records of operations, and the model
  of the application reconciler is plugged in at the end.
\<close>

section \<open>Interfaces\<close>

text \<open>The interface \<open>Reconciler\<close>, and the optional \<open>ReconcilerDefault\<close>.\<close>

record ('v, 'w) child =
  ch_createOrUpdate :: "'v \<Rightarrow> changeset \<Rightarrow> 'w \<Rightarrow> gerr option \<times> 'w"
  ch_delete :: "'v \<Rightarrow> 'w \<Rightarrow> gerr option \<times> 'w"
  ch_updateStatus :: "'v \<Rightarrow> string list \<Rightarrow> 'w \<Rightarrow> (bool \<times> gerr option \<times> 'v) \<times> 'w"
  ch_isModified :: "'v \<Rightarrow> 'w \<Rightarrow> (gerr + bool) \<times> 'w"
  ch_extensions :: "'v \<Rightarrow> string list"
  ch_default :: "('v \<Rightarrow> gerr option \<times> 'v) option"

text \<open>
  What the wrapper uses besides: the metadata of an object, the API client for it, and the
  \<open>ExtensionController\<close>.
\<close>

record ('v, 'w) host =
  hs_deleting :: "'v \<Rightarrow> bool"
  hs_finalizers :: "'v \<Rightarrow> string list"
  hs_setFinalizers :: "string list \<Rightarrow> 'v \<Rightarrow> 'v"
  hs_get :: "obj_key \<Rightarrow> 'w \<Rightarrow> (gerr + 'v) \<times> 'w"
  hs_update :: "'v \<Rightarrow> 'w \<Rightarrow> gerr option \<times> 'w"
  hs_statusUpdate :: "'v \<Rightarrow> 'w \<Rightarrow> gerr option \<times> 'w"
  hs_sync :: "'v \<Rightarrow> 'w \<Rightarrow> (gerr + changeset \<times> string list) \<times> 'w"
  hs_extDelete :: "'v \<Rightarrow> 'w \<Rightarrow> gerr option \<times> 'w"
  hs_deleteExtension :: "'v \<Rightarrow> string \<Rightarrow> 'w \<Rightarrow> gerr option \<times> 'w"

section \<open>Calls\<close>

text \<open>Every call with an effect is recorded with its outcome, so that properties can speak of order.\<close>

datatype 'v call =
    CUpdate 'v "gerr option"
  | CStatus 'v "gerr option"
  | CSync 'v "gerr option"
  | CDeleteExt 'v string "gerr option"
  | CApply 'v changeset "gerr option"
  | CChildDelete 'v "gerr option"
  | CExtsDelete 'v "gerr option"

type_synonym ('v, 'w) calls = "'v call list \<times> 'w"

definition perform :: "(gerr option \<Rightarrow> 'v call) \<Rightarrow> ('w \<Rightarrow> gerr option \<times> 'w) \<Rightarrow> ('v, 'w) calls \<Rightarrow>
    gerr option \<times> ('v, 'w) calls" where
  "perform c f s = (case f (snd s) of (e, w) \<Rightarrow> (e, (fst s @ [c e], w)))"

section \<open>Reconcile\<close>

definition suffiksFinalizer :: string where
  "suffiksFinalizer = ''suffiks.suffiks.com/finalizer''"

text \<open>\<open>handleError\<close> with its optional functions.\<close>

fun handle_error :: "gerr option \<Rightarrow> (gerr \<Rightarrow> gerr option) list \<Rightarrow> gerr option" where
  "handle_error None fs = None"
| "handle_error (Some e) [] = Some e"
| "handle_error (Some e) (f # fs) = (case f e of None \<Rightarrow> None | Some e' \<Rightarrow> handle_error (Some e') fs)"

text \<open>\<open>controllerutil.AddFinalizer\<close> and \<open>RemoveFinalizer\<close>.\<close>

definition add_finalizer :: "('v, 'w) host \<Rightarrow> 'v \<Rightarrow> 'v" where
  "add_finalizer h v =
     (if suffiksFinalizer \<in> set (hs_finalizers h v) then v
      else hs_setFinalizers h (hs_finalizers h v @ [suffiksFinalizer]) v)"

definition remove_finalizer :: "('v, 'w) host \<Rightarrow> 'v \<Rightarrow> 'v" where
  "remove_finalizer h v = hs_setFinalizers h (filter (\<lambda>f. f \<noteq> suffiksFinalizer) (hs_finalizers h v)) v"

text \<open>An object that is being deleted.\<close>

definition reconcile_deleted ::
    "('v, 'w) child \<Rightarrow> ('v, 'w) host \<Rightarrow> 'v \<Rightarrow> ('v, 'w) calls \<Rightarrow> gerr option \<times> ('v, 'w) calls" where
  "reconcile_deleted ch h v s =
     (if suffiksFinalizer \<notin> set (hs_finalizers h v) then (None, s)
      else (case perform (CChildDelete v) (ch_delete ch v) s of
              (Some e, s1) \<Rightarrow> (handle_error (Some e) [], s1)
            | (None, s1) \<Rightarrow>
                (case perform (CExtsDelete v) (hs_extDelete h v) s1 of
                   (Some e, s2) \<Rightarrow> (handle_error (Some e) [], s2)
                 | (None, s2) \<Rightarrow>
                     (let v' = remove_finalizer h v
                      in (case perform (CUpdate v') (hs_update h v') s2 of
                            (e, s3) \<Rightarrow> (handle_error e [ignore_not_found], s3))))))"

text \<open>Updating the status and writing it when it changed; both branches of \<open>Reconcile\<close> end so.\<close>

definition write_status ::
    "('v, 'w) child \<Rightarrow> ('v, 'w) host \<Rightarrow> 'v \<Rightarrow> string list \<Rightarrow> ('v, 'w) calls \<Rightarrow> gerr option \<times> ('v, 'w) calls" where
  "write_status ch h v names s =
     (case ch_updateStatus ch v names (snd s) of
        ((changes, Some e, v'), w1) \<Rightarrow> (handle_error (Some e) [], (fst s, w1))
      | ((changes, None, v'), w1) \<Rightarrow>
          (if changes
           then (case perform (CStatus v') (hs_statusUpdate h v') (fst s, w1) of
                   (e, s2) \<Rightarrow> (handle_error e [], s2))
           else (None, (fst s, w1))))"

text \<open>
  The extensions of the last run that did not run this time are told to delete; one that fails is
  added to the list of extensions that ran.
\<close>

fun delete_old ::
    "('v, 'w) host \<Rightarrow> 'v \<Rightarrow> string list \<Rightarrow> string list \<Rightarrow> ('v, 'w) calls \<Rightarrow> string list \<times> ('v, 'w) calls" where
  "delete_old h v [] names s = (names, s)"
| "delete_old h v (old # olds) names s =
     (if old \<in> set names then delete_old h v olds names s
      else (case perform (CDeleteExt v old) (hs_deleteExtension h v old) s of
              (Some e, s1) \<Rightarrow> delete_old h v olds (names @ [old]) s1
            | (None, s1) \<Rightarrow> delete_old h v olds names s1))"

text \<open>The call of \<open>Sync\<close>.\<close>

definition call_sync ::
    "('v, 'w) host \<Rightarrow> 'v \<Rightarrow> ('v, 'w) calls \<Rightarrow> (gerr + changeset \<times> string list) \<times> ('v, 'w) calls" where
  "call_sync h v s =
     (case hs_sync h v (snd s) of
        (r, w1) \<Rightarrow> (r, (fst s @ [CSync v (case r of Inl e \<Rightarrow> Some e | Inr _ \<Rightarrow> None)], w1)))"

definition reconcile_modified ::
    "('v, 'w) child \<Rightarrow> ('v, 'w) host \<Rightarrow> 'v \<Rightarrow> ('v, 'w) calls \<Rightarrow> gerr option \<times> ('v, 'w) calls" where
  "reconcile_modified ch h v s =
     (case call_sync h v s of
        (Inl e, s1) \<Rightarrow> (handle_error (Some e) [], s1)
      | (Inr (cs, names), s1) \<Rightarrow>
          (case delete_old h v (ch_extensions ch v) names s1 of
             (names', s2) \<Rightarrow>
               (case perform (CApply v cs) (ch_createOrUpdate ch v cs) s2 of
                  (Some e, s3) \<Rightarrow> (handle_error (Some e) [], s3)
                | (None, s3) \<Rightarrow> write_status ch h v names' s3)))"

definition reconcile ::
    "('v, 'w) child \<Rightarrow> ('v, 'w) host \<Rightarrow> obj_key \<Rightarrow> ('v, 'w) calls \<Rightarrow> gerr option \<times> ('v, 'w) calls" where
  "reconcile ch h key s =
     (case hs_get h key (snd s) of
        (Inl e, w1) \<Rightarrow> (handle_error (Some e) [ignore_not_found], (fst s, w1))
      | (Inr v, w1) \<Rightarrow>
          (if hs_deleting h v then reconcile_deleted ch h v (fst s, w1)
           else if suffiksFinalizer \<notin> set (hs_finalizers h v)
           then (let v' = add_finalizer h v
                 in case perform (CUpdate v') (hs_update h v') (fst s, w1) of
                      (e, s2) \<Rightarrow> (handle_error e [], s2))
           else (case ch_isModified ch v w1 of
                   (Inl e, w2) \<Rightarrow> (handle_error (Some e) [ignore_not_found], (fst s, w2))
                 | (Inr False, w2) \<Rightarrow> write_status ch h v (ch_extensions ch v) (fst s, w2)
                 | (Inr True, w2) \<Rightarrow> reconcile_modified ch h v (fst s, w2))))"

section \<open>Webhooks\<close>

text \<open>
  \<open>validate\<close>: an absent object becomes the nil pointer of the type. Field errors make the object
  invalid, anything else is an internal error. \<open>ob\<close> presents an object to the controller.
\<close>

definition hook_arg :: "('v \<Rightarrow> ctl_object) \<Rightarrow> 'v option \<Rightarrow> obj_arg" where
  "hook_arg ob v = (case v of None \<Rightarrow> TypedNil | Some x \<Rightarrow> AnObject (ob x))"

definition hook_validate ::
    "('v \<Rightarrow> ctl_object) \<Rightarrow> behaviour \<Rightarrow> (string \<Rightarrow> managed list) \<Rightarrow> validation_type \<Rightarrow> 'v option \<Rightarrow>
     'v option \<Rightarrow> gerr option" where
  "hook_validate ob bh exts typ newObj oldObj =
     (case (if newObj \<noteq> None then newObj else oldObj) of
        None \<Rightarrow> Some (EPanic ''nil pointer dereference'')
      | Some v \<Rightarrow>
          (case controller_validate bh typ (hook_arg ob newObj) (hook_arg ob oldObj) exts of
             None \<Rightarrow> None
           | Some (EFieldErrs fs) \<Rightarrow> Some (EInvalid (om_name (co_meta (ob v))) fs)
           | Some e \<Rightarrow> Some (EInternal e)))"

definition ValidateCreate where
  "ValidateCreate ob bh exts v = hook_validate ob bh exts VT_CREATE (Some v) None"

definition ValidateUpdate where
  "ValidateUpdate ob bh exts old new = hook_validate ob bh exts VT_UPDATE (Some new) (Some old)"

definition ValidateDelete where
  "ValidateDelete ob bh exts v = hook_validate ob bh exts VT_DELETE None (Some v)"

text \<open>The merge patches of the defaulting responses, in the order the extensions finish.\<close>

fun add_defaults ::
    "(raw \<Rightarrow> raw \<Rightarrow> gerr + raw) \<Rightarrow> default_response list \<Rightarrow> changeset \<Rightarrow> gerr option \<times> changeset" where
  "add_defaults mmp [] c = (None, c)"
| "add_defaults mmp (d # ds) c =
     (case AddMergePatch mmp (ds_spec d) c of
        (Some e, c') \<Rightarrow> (Some e, c')
      | (None, c') \<Rightarrow> add_defaults mmp ds c')"

definition hook_default ::
    "('v, 'w) child \<Rightarrow> ('v \<Rightarrow> ctl_object) \<Rightarrow> behaviour \<Rightarrow> (string \<Rightarrow> managed list) \<Rightarrow>
     (raw \<Rightarrow> raw \<Rightarrow> gerr + raw) \<Rightarrow> (raw \<Rightarrow> raw \<Rightarrow> gerr + raw) \<Rightarrow> 'v object_ops \<Rightarrow> 'v \<Rightarrow>
     gerr option \<times> 'v" where
  "hook_default ch ob bh exts mmp mp ops v =
     (case (case ch_default ch of None \<Rightarrow> (None, v) | Some f \<Rightarrow> f v) of
        (Some e, v1) \<Rightarrow> (Some e, v1)
      | (None, v1) \<Rightarrow>
          (case controller_default bh (ob v1) (exts (co_kind (ob v1))) of
             (Some e, defaults) \<Rightarrow> (Some (EWrap ''Default crdmanager'' e), v1)
           | (None, defaults) \<Rightarrow>
               (case add_defaults mmp defaults empty_changeset of
                  (Some e, c) \<Rightarrow> (Some e, v1)
                | (None, c) \<Rightarrow> changeset_apply mp ops c v1)))"

section \<open>The wrapper of the application reconciler\<close>

definition app_child ::
    "'w kube \<Rightarrow> (app_spec \<times> (string, string) gomap \<Rightarrow> gerr + 64 word) \<Rightarrow>
     (raw \<Rightarrow> raw \<Rightarrow> gerr + raw) \<Rightarrow> deployment object_ops \<Rightarrow> (application, 'w) child" where
  "app_child k hashf mp ops =
     \<lparr>ch_createOrUpdate = app_create_or_update k mp ops, ch_delete = app_delete k,
      ch_updateStatus = app_update_status k hashf, ch_isModified = app_is_modified k hashf,
      ch_extensions = app_extensions, ch_default = Some app_default\<rparr>"

text \<open>The API client for applications.\<close>

record 'w app_client =
  ac_get :: "obj_key \<Rightarrow> 'w \<Rightarrow> (gerr + application) \<times> 'w"
  ac_update :: "application \<Rightarrow> 'w \<Rightarrow> gerr option \<times> 'w"
  ac_statusUpdate :: "application \<Rightarrow> 'w \<Rightarrow> gerr option \<times> 'w"

text \<open>
  \<open>sync\<close> is the outcome of \<open>ExtensionController.Sync\<close> that this run takes; \<open>exts\<close> are the
  extensions the manager has for a kind, in the order their goroutines finish.
\<close>

definition app_host ::
    "'w app_client \<Rightarrow> behaviour \<Rightarrow> (string \<Rightarrow> managed list) \<Rightarrow>
     (application \<Rightarrow> gerr + changeset \<times> string list) \<Rightarrow> (application, 'w) host" where
  "app_host ac bh exts sync =
     \<lparr>hs_deleting = (\<lambda>a. om_deleting (ap_meta a)), hs_finalizers = (\<lambda>a. om_finalizers (ap_meta a)),
      hs_setFinalizers = (\<lambda>fs a. a\<lparr>ap_meta := (ap_meta a)\<lparr>om_finalizers := fs\<rparr>\<rparr>),
      hs_get = ac_get ac, hs_update = ac_update ac, hs_statusUpdate = ac_statusUpdate ac,
      hs_sync = (\<lambda>a w. (sync a, w)),
      hs_extDelete = (\<lambda>a w. (controller_delete bh (app_object a) (exts (ap_kind a)), w)),
      hs_deleteExtension = (\<lambda>a name w. (delete_extension bh (app_object a) name (exts (ap_kind a)), w))\<rparr>"

end
