(* ===== verification/App_Facts.thy ===== *)
theory App_Facts
  imports App_Reconciler
begin

text \<open>
  Properties of the application reconciler: what a rollout writes from the spec and the
  extensions' responses, which branches of the service update are reachable, and how the status
  settles.
\<close>

section \<open>Environment\<close>

definition env_usable :: "env_var \<Rightarrow> bool" where
  "env_usable e \<longleftrightarrow> ev_value e \<noteq> '''' \<or> ev_valueFrom e \<noteq> None"

lemma envVars_Inr_iff: "(\<exists>r. envVars es = Inr r) \<longleftrightarrow> (\<forall>e \<in> set es. env_usable e)"
  by (induction es) (auto simp: env_usable_def split: sum.splits option.splits)

lemma envVars_Inl_panic: "envVars es = Inl e \<Longrightarrow> is_panic e"
  by (induction es) (auto split: sum.splits option.splits if_splits)

lemma envVars_names: "envVars es = Inr r \<Longrightarrow> map pe_name r = map ev_name es"
  by (induction es arbitrary: r) (auto split: sum.splits option.splits if_splits)

lemma newDeployment_Inr:
  "newDeployment app spec = Inr d \<Longrightarrow>
   \<exists>env c. envVars (as_env spec) = Inr env \<and> dp_containers d = [c] \<and> pc_env c = env \<and>
     pc_envFrom c = envFroms (as_envFrom spec) \<and> pc_image c = as_image spec \<and>
     pc_command c = as_command spec \<and> dp_meta d = app_object_meta app \<and>
     dp_initContainers d = [] \<and> dp_podAnnotations d = [] \<and>
     pc_ports c = (if as_port spec > 0
       then [\<lparr>cp_name = ''http'', cp_containerPort = int32 (as_port spec)\<rparr>] else [])"
  by (auto simp: newDeployment_def Let_def split: sum.splits)

text \<open>
  Making a deployment fails exactly when some environment variable has neither a value nor a
  \<open>valueFrom\<close>, and then the failure is a nil dereference; otherwise the container has one
  variable per variable of the spec, with the same names in the same order.
\<close>

theorem env_vars_all_or_panic:
  "(\<exists>e. newDeployment app spec = Inl e \<and> is_panic e \<and> \<not> list_all env_usable (as_env spec)) \<or>
   (\<exists>d c. newDeployment app spec = Inr d \<and> list_all env_usable (as_env spec) \<and>
      dp_containers d = [c] \<and> map pe_name (pc_env c) = map ev_name (as_env spec))"
proof (cases "envVars (as_env spec)")
  case (Inl e)
  with envVars_Inr_iff[of "as_env spec"] envVars_Inl_panic[OF Inl]
  show ?thesis by (auto simp: newDeployment_def Let_def list_all_iff)
next
  case (Inr env)
  with envVars_Inr_iff[of "as_env spec"] envVars_names[OF Inr]
  show ?thesis by (auto simp: newDeployment_def Let_def list_all_iff)
qed

section \<open>Ports\<close>

lemma sint_int32: "0 \<le> i \<Longrightarrow> sint (int32 i) = i \<longleftrightarrow> i < 2 ^ 31"
proof
  assume "sint (int32 i) = i"
  moreover have "sint (int32 i) < 2 ^ 31" using sint_lt[of "int32 i"] by simp
  ultimately show "i < 2 ^ 31" by simp
next
  assume "0 \<le> i" "i < 2 ^ 31"
  then show "sint (int32 i) = i"
    by (simp add: int32_def signed_of_int signed_take_bit_int_eq_self)
qed

text \<open>
  C39: A positive port reaches the container unchanged exactly when it is below \<open>2 ^ 31\<close>; a larger
  one is cut to its low 32 bits without an error.
\<close>

theorem port_kept_iff:
  assumes "newDeployment app spec = Inr d" "as_port spec > 0"
  shows "map (sint \<circ> cp_containerPort) (concat (map pc_ports (dp_containers d))) = [as_port spec] \<longleftrightarrow>
    as_port spec < 2 ^ 31"
  using newDeployment_Inr[OF assms(1)] assms(2) sint_int32[of "as_port spec"] by auto

section \<open>From responses to the deployment\<close>

text \<open>What \<open>SetControllerReference\<close> documents: it adds an owner reference and nothing else.\<close>

definition set_owner_law :: "'w kube \<Rightarrow> bool" where
  "set_owner_law k \<longleftrightarrow>
     (\<forall>a d d'. k_setOwner k a d = (None, d') \<longrightarrow>
        (\<exists>os. d' = d\<lparr>dp_meta := (dp_meta d)\<lparr>om_owners := os\<rparr>\<rparr>))"

lemma changeset_add_ok:
  "changeset_add conv mmp r c = (e, c') \<Longrightarrow> gomap_ok (cg_labels c) \<Longrightarrow> gomap_ok (cg_annotations c) \<Longrightarrow>
   gomap_ok (cg_labels c') \<and> gomap_ok (cg_annotations c')"
  by (cases r) (auto simp: AddMergePatch_def split: sum.splits if_splits)

lemma changeset_add_all_ok [go_inv]:
  "changeset_add_all conv mmp rs c = (e, c') \<Longrightarrow> gomap_ok (cg_labels c) \<Longrightarrow> gomap_ok (cg_annotations c) \<Longrightarrow>
   gomap_ok (cg_labels c') \<and> gomap_ok (cg_annotations c')"
  by (induction rs arbitrary: c)
     (auto split: prod.splits option.splits dest: changeset_add_ok)

lemma no_patch_add_all:
  "changeset_add_all conv mmp rs c = (e, c') \<Longrightarrow> \<forall>r \<in> set rs. \<forall>p. r \<noteq> RMergePatch p \<Longrightarrow>
   cg_mergePatch c' = cg_mergePatch c"
proof (induction rs arbitrary: c)
  case Nil
  then show ?case by simp
next
  case (Cons r rs)
  have "cg_mergePatch (snd (changeset_add conv mmp r c)) = cg_mergePatch c"
    using Cons.prems(2) by (cases r) (auto split: sum.splits)
  with Cons show ?case by (auto split: prod.splits option.splits)
qed

lemma desired_deployment_Inr:
  assumes "desired_deployment k mp (deployment_ops enc dec) app spec cs = Inr d"
    and "set_owner_law k" "cg_mergePatch cs = RawNil"
    and "gomap_ok (cg_labels cs)" "gomap_ok (cg_annotations cs)"
  obtains d0 where "newDeployment app spec = Inr d0"
    "dp_containers d = dp_containers d0" "dp_initContainers d = []"
    "mget (om_labels (dp_meta d)) = mget (cg_labels cs)"
    "mget (om_annotations (dp_meta d)) = mget (cg_annotations cs)"
    "mget (dp_podAnnotations d) = mget (cg_annotations cs)"
    "object_key (dp_meta d) = object_key (ap_meta app)"
proof -
  obtain d0 d1 d2 where d0: "newDeployment app spec = Inr d0"
    and d1: "k_setOwner k app d0 = (None, d1)"
    and d2: "changeset_apply mp (deployment_ops enc dec) cs d1 = (None, d2)"
    and d: "d = d2\<lparr>dp_podAnnotations := mergeMaps [dp_podAnnotations d2, om_annotations (dp_meta d2)]\<rparr>"
    using assms(1) by (auto simp: desired_deployment_def split: sum.splits prod.splits option.splits)
  from newDeployment_Inr[OF d0] have m0: "dp_meta d0 = app_object_meta app"
    "dp_initContainers d0 = []" "dp_podAnnotations d0 = []" by auto
  from assms(2) d1 obtain os where d1': "d1 = d0\<lparr>dp_meta := (dp_meta d0)\<lparr>om_owners := os\<rparr>\<rparr>"
    unfolding set_owner_law_def by blast
  have zero: "om_labels (dp_meta d1) = []" "om_annotations (dp_meta d1) = []"
    "dp_podAnnotations d1 = []" "object_key (dp_meta d1) = object_key (ap_meta app)"
    using m0 by (simp_all add: d1' app_object_meta_def zero_meta_def object_key_def)
  have d2': "d2 = d1\<lparr>dp_meta := (dp_meta d1)\<lparr>om_labels := mergeMaps [[], cg_labels cs],
      om_annotations := mergeMaps [[], cg_annotations cs]\<rparr>\<rparr>"
    using d2 zero unfolding depl_obj.apply_meta[OF assms(3)] by (simp add: deployment_ops_def)
  have maps: "mget (mergeMaps [[], cg_labels cs]) = mget (cg_labels cs)"
    "mget (mergeMaps [[], cg_annotations cs]) = mget (cg_annotations cs)"
    using assms(4,5) by (simp_all add: mget_mergeMaps2)
  moreover have "mget (mergeMaps [[], mergeMaps [[], cg_annotations cs]]) = mget (cg_annotations cs)"
    by (simp add: mget_mergeMaps2 gomap_ok_mergeMaps maps)
  ultimately show thesis
    using d0 zero m0 by (intro that[OF d0]) (simp_all add: d d2' d1' object_key_def)
qed


text \<open>
  What extensions ask for as environment variables, envFrom sources, containers and init
  containers never reaches the pods: without a merge patch, the deployment has one container with
  the environment of the spec alone, and no init container, whatever the responses say.
\<close>

theorem responses_never_reach_pod:
  assumes "set_owner_law k"
    and "changeset_add_all conv mmp rs empty_changeset = (None, cs)"
    and "\<forall>r \<in> set rs. \<forall>p. r \<noteq> RMergePatch p"
    and "desired_deployment k mp (deployment_ops enc dec) app spec cs = Inr d"
  shows "dp_initContainers d = [] \<and> (\<exists>c. dp_containers d = [c] \<and>
    envVars (as_env spec) = Inr (pc_env c) \<and> pc_envFrom c = envFroms (as_envFrom spec))"
proof -
  have cs: "cg_mergePatch cs = RawNil" "gomap_ok (cg_labels cs)" "gomap_ok (cg_annotations cs)"
    using no_patch_add_all[OF assms(2,3)] changeset_add_all_ok[OF assms(2)]
    by (simp_all add: empty_changeset_def)
  from desired_deployment_Inr[OF assms(4,1) cs] newDeployment_Inr show ?thesis by metis
qed

section \<open>The service\<close>

text \<open>Which operations of the client the parts of \<open>CreateOrUpdate\<close> call.\<close>

lemma client_independent:
  "desired_deployment (k\<lparr>k_createService := f\<rparr>) = desired_deployment k"
  "apply_service (k\<lparr>k_createService := f\<rparr>) None = apply_service k None"
  "apply_deployment (k\<lparr>k_createService := f\<rparr>) = apply_deployment k"
  "desired_deployment (k\<lparr>k_createDeployment := c, k_updateDeployment := u\<rparr>) = desired_deployment k"
  "apply_service (k\<lparr>k_createDeployment := c, k_updateDeployment := u\<rparr>) = apply_service k"
  by (intro ext, simp add: desired_deployment_def apply_service_def apply_deployment_def Let_def
      del: not_None_eq cong: if_cong sum.case_cong prod.case_cong option.case_cong)+

lemma apply_service_update_fails:
  assumes "k_getService k (object_key (ap_meta app)) w = (Inl e, w1)" "is_not_found e"
    and "\<And>svc. fst (k_updateService k svc w1) \<noteq> None"
  shows "fst (apply_service k None app spec depl w) \<noteq> None"
proof -
  have key: "object_key (app_object_meta app) = object_key (ap_meta app)"
    by (simp add: object_key_def app_object_meta_def)
  have wrap: "fst (case x of (Some e, w2) \<Rightarrow> (Some (f e), w2) | (None, w2) \<Rightarrow> (None, w2)) \<noteq> None"
    if "fst x \<noteq> None" for x :: "gerr option \<times> 'a" and f :: "gerr \<Rightarrow> gerr"
    using that by (cases x) auto
  show ?thesis
    unfolding apply_service_def
    by (simp add: key assms(1,2) Let_def wrap[OF assms(3)] del: not_None_eq)
qed

text \<open>
  C40: The service of an application is never created: \<open>CreateOrUpdate\<close> behaves the same whatever
  creating a service would do. The test that chooses between update and create looks at an error
  variable that is always nil there.
\<close>

theorem service_never_created:
  "app_create_or_update (k\<lparr>k_createService := f\<rparr>) mp ops app cs w =
   app_create_or_update k mp ops app cs w"
  by (simp add: app_create_or_update_def client_independent
      cong: if_cong sum.case_cong prod.case_cong option.case_cong)

text \<open>
  So an application with a port is never rolled out while its service is missing: if the API
  server answers not-found to the read and refuses to update what does not exist, the call fails
  and no deployment is written.
\<close>

theorem missing_service_blocks_rollout:
  assumes "as_port (ap_spec app) > 0"
    and "k_getService k (object_key (ap_meta app)) w = (Inl e, w1)" "is_not_found e"
    and "\<And>svc. fst (k_updateService k svc w1) \<noteq> None"
  shows "fst (app_create_or_update k mp ops app cs w) \<noteq> None \<and>
    app_create_or_update (k\<lparr>k_createDeployment := f, k_updateDeployment := g\<rparr>) mp ops app cs w =
    app_create_or_update k mp ops app cs w"
proof (cases "desired_deployment k mp ops app (ap_spec app) cs")
  case (Inl e')
  then show ?thesis
    by (simp add: app_create_or_update_def well_known_spec_def client_independent)
next
  case (Inr depl)
  obtain e' w' where "apply_service k None app (ap_spec app) depl w = (Some e', w')"
    using apply_service_update_fails[OF assms(2-4)] by (metis not_None_eq surjective_pairing)
  with Inr assms(1) show ?thesis
    by (simp add: app_create_or_update_def well_known_spec_def client_independent)
qed

section \<open>Status\<close>

text \<open>Reads of the deployment leave the world alone; the same for services.\<close>

definition reads_pure :: "'w kube \<Rightarrow> bool" where
  "reads_pure k \<longleftrightarrow> (\<forall>key w. snd (k_getDeployment k key w) = w \<and> snd (k_getService k key w) = w)"

lemma reads_pureE:
  assumes "reads_pure k"
  obtains r where "k_getDeployment k key w = (r, w)"
  using assms by (metis prod.collapse reads_pure_def)

lemma app_hash_status [simp]: "app_hash hashf (Some (app\<lparr>ap_status := st\<rparr>)) = app_hash hashf (Some app)"
  by (simp add: app_hash_def)

text \<open>
  Updating the status settles at once: when the update succeeds, a second update with the same
  extensions finds nothing to change and returns the same application, so the reconciler stops
  writing the status.
\<close>

lemma update_status_stable:
  assumes "reads_pure k"
    and "app_update_status k hashf app exts w = ((u, None, app'), w')"
  shows "app_update_status k hashf app' exts w' = ((False, None, app'), w')"
proof -
  obtain r where get: "k_getDeployment k (object_key (ap_meta app)) w = (r, w)"
    using assms(1) by (rule reads_pureE)
  show ?thesis
  proof (cases r)
    case (Inl e)
    with assms(2) get show ?thesis
      by (auto simp: app_update_status_def Let_def split: sum.splits)
  next
    case (Inr d)
    with assms(2) get show ?thesis
      by (auto simp: app_update_status_def Let_def split: sum.splits)
  qed
qed

text \<open>
  The status update reports a change exactly when it changed the status, and it touches no
  other part of the application; after it, the two replica counts are equal whenever the
  deployment could be read (the count of available replicas is stored in both).
\<close>

lemma update_status_spec:
  assumes "app_update_status k hashf app exts w = ((u, None, app'), w')"
  shows "(u \<longleftrightarrow> ap_status app' \<noteq> ap_status app) \<and> app'\<lparr>ap_status := ap_status app\<rparr> = app \<and>
    app_extensions app' = exts \<and>
    (\<forall>d. fst (k_getDeployment k (object_key (ap_meta app)) w) = Inr d \<longrightarrow>
       st_replicas (ap_status app') = sint (dp_availableReplicas d) \<and>
       st_availableReplicas (ap_status app') = sint (dp_availableReplicas d))"
proof -
  obtain h where "app_hash hashf (Some app) = Inr h"
    using assms by (auto simp: app_update_status_def split: sum.splits)
  moreover obtain r w1 where "k_getDeployment k (object_key (ap_meta app)) w = (r, w1)"
    by (cases "k_getDeployment k (object_key (ap_meta app)) w")
  ultimately show ?thesis using assms
    by (cases r; cases app; cases "ap_status app")
      (auto simp: app_update_status_def Let_def app_extensions_def)
qed

text \<open>
  An application counts as unmodified exactly when the hash of its spec and labels is the
  recorded one, its deployment exists, and its service exists if it has a port; so right after a
  successful status update only a missing object can make it modified.
\<close>

lemma unmodified_iff:
  assumes "reads_pure k"
  shows "fst (app_is_modified k hashf app w) = Inr False \<longleftrightarrow>
    app_hash hashf (Some app) = Inr (st_hash (ap_status app)) \<and>
    (\<exists>d. fst (k_getDeployment k (object_key (ap_meta app)) w) = Inr d) \<and>
    (as_port (ap_spec app) > 0 \<longrightarrow> (\<exists>s. fst (k_getService k (object_key (ap_meta app)) w) = Inr s))"
proof -
  obtain r where "k_getDeployment k (object_key (ap_meta app)) w = (r, w)"
    using assms by (rule reads_pureE)
  then show ?thesis
    by (auto simp: app_is_modified_def well_known_spec_def split: sum.splits prod.splits)
qed

text \<open>
  Deleting an application succeeds exactly when both deletions succeed or find nothing, and
  the service is only touched when the deletion of the deployment did not fail.
\<close>

theorem delete_outcome:
  "fst (app_delete k app w) = None \<longleftrightarrow>
     (\<forall>e. fst (k_deleteDeployment k (object_key (ap_meta app)) w) = Some e \<longrightarrow> is_not_found e) \<and>
     (\<forall>e. fst (k_deleteService k (object_key (ap_meta app))
             (snd (k_deleteDeployment k (object_key (ap_meta app)) w))) = Some e \<longrightarrow> is_not_found e)"
  by (auto simp: app_delete_def app_object_meta_def object_key_def split: prod.splits if_splits)

section \<open>A concrete cluster\<close>

text \<open>
  A world of one namespace: its deployments and services by key. Creating what exists and updating
  what does not are refused.
\<close>

type_synonym world = "(obj_key, deployment) gomap \<times> (obj_key, service) gomap"

definition not_found :: gerr where "not_found = EApi RNotFound ''not found''"

definition cluster :: "world kube" where
  "cluster =
     \<lparr>k_setOwner = (\<lambda>a d. (None, d\<lparr>dp_meta := (dp_meta d)\<lparr>om_owners :=
          [\<lparr>or_apiVersion = ap_apiVersion a, or_kind = ap_kind a, or_name = om_name (ap_meta a),
            or_uid = om_uid (ap_meta a)\<rparr>]\<rparr>\<rparr>)),
      k_getDeployment = (\<lambda>key w. (case mget (fst w) key of None \<Rightarrow> Inl not_found | Some d \<Rightarrow> Inr d, w)),
      k_createDeployment = (\<lambda>d w. if mget (fst w) (object_key (dp_meta d)) \<noteq> None
          then (Some (EApi RAlreadyExists ''exists''), w)
          else (None, mset_key (object_key (dp_meta d)) d (fst w), snd w)),
      k_updateDeployment = (\<lambda>d w. if mget (fst w) (object_key (dp_meta d)) = None
          then (Some not_found, w) else (None, mset_key (object_key (dp_meta d)) d (fst w), snd w)),
      k_deleteDeployment = (\<lambda>key w. if mget (fst w) key = None then (Some not_found, w)
          else (None, mdel key (fst w), snd w)),
      k_getService = (\<lambda>key w. (case mget (snd w) key of None \<Rightarrow> Inl not_found | Some d \<Rightarrow> Inr d, w)),
      k_createService = (\<lambda>d w. if mget (snd w) (object_key (sv_meta d)) \<noteq> None
          then (Some (EApi RAlreadyExists ''exists''), w)
          else (None, fst w, mset_key (object_key (sv_meta d)) d (snd w))),
      k_updateService = (\<lambda>d w. if mget (snd w) (object_key (sv_meta d)) = None
          then (Some not_found, w) else (None, fst w, mset_key (object_key (sv_meta d)) d (snd w))),
      k_deleteService = (\<lambda>key w. if mget (snd w) key = None then (Some not_found, w)
          else (None, fst w, mdel key (snd w)))\<rparr>"

lemma cluster_set_owner [simp]: "set_owner_law cluster"
  by (auto simp: set_owner_law_def cluster_def)

lemma cluster_reads_pure [simp]: "reads_pure cluster"
  by (simp add: reads_pure_def cluster_def)

definition ex_web :: application where
  "ex_web = \<lparr>ap_kind = ''Application'', ap_apiVersion = ''suffiks.com/v1'',
     ap_meta = zero_meta\<lparr>om_name := ''web'', om_namespace := ''ns''\<rparr>,
     ap_spec = zero_app_spec\<lparr>as_image := ''img'', as_port := 8080\<rparr>,
     ap_status = \<lparr>st_availableReplicas = 0, st_replicas = 0, st_hash = '''', st_extensions = []\<rparr>\<rparr>"

definition no_json :: "deployment object_ops" where
  "no_json = deployment_ops (\<lambda>d. Inl (EMsg ''json'')) (\<lambda>b d. (Some (EMsg ''json''), d))"

lemmas ex_app_simps = ex_web_def zero_app_spec_def zero_meta_def newDeployment_def
  app_object_meta_def object_key_def app_name_label_def

definition ex_web_deployment :: deployment where
  "ex_web_deployment = (case desired_deployment cluster (\<lambda>d p. Inl EEOF) no_json ex_web (ap_spec ex_web)
      (snd (changeset_add_all Inr (\<lambda>p q. Inr q) [ex_label ''a'' ''1'', ex_env ''E''] empty_changeset))
    of Inl e \<Rightarrow> zero_deployment | Inr d \<Rightarrow> d)"

lemma ex_web_deployment_eq:
  "desired_deployment cluster (\<lambda>d p. Inl EEOF) no_json ex_web (ap_spec ex_web)
     (snd (changeset_add_all Inr (\<lambda>p q. Inr q) [ex_label ''a'' ''1'', ex_env ''E''] empty_changeset)) =
   Inr ex_web_deployment"
  by (simp add: ex_web_deployment_def desired_deployment_def ex_app_simps no_json_def cluster_def
      changeset_apply_def deployment_ops_def ex_label_def ex_env_def empty_changeset_def raw_nonempty_def
      Let_def)

theorem port_kept_iff_witness:
  "map (sint \<circ> cp_containerPort) (concat (map pc_ports (dp_containers
     (case newDeployment ex_web (ap_spec ex_web) of Inl e \<Rightarrow> zero_deployment | Inr d \<Rightarrow> d)))) = [8080]"
proof -
  have "newDeployment ex_web (ap_spec ex_web) =
      Inr (case newDeployment ex_web (ap_spec ex_web) of Inl e \<Rightarrow> zero_deployment | Inr d \<Rightarrow> d)"
    by (simp add: ex_app_simps Let_def)
  from port_kept_iff[OF this] show ?thesis by (simp add: ex_app_simps)
qed


theorem responses_never_reach_pod_witness:
  "\<exists>c. dp_containers ex_web_deployment = [c] \<and> pc_env c = []"
  using responses_never_reach_pod[where k = cluster and conv = Inr and mmp = "\<lambda>p q. Inr q"
      and rs = "[ex_label ''a'' ''1'', ex_env ''E'']" and mp = "\<lambda>d p. Inl EEOF"
      and enc = "\<lambda>d. Inl (EMsg ''json'')" and dec = "\<lambda>b d. (Some (EMsg ''json''), d)"
      and app = ex_web and spec = "ap_spec ex_web" and d = ex_web_deployment
      and cs = "snd (changeset_add_all Inr (\<lambda>p q. Inr q) [ex_label ''a'' ''1'', ex_env ''E''] empty_changeset)",
      OF cluster_set_owner _ _ ex_web_deployment_eq[unfolded no_json_def]]
  by (auto simp: ex_label_def ex_env_def ex_web_def zero_app_spec_def)

theorem missing_service_blocks_rollout_witness:
  "fst (app_create_or_update cluster (\<lambda>d p. Inl EEOF) no_json ex_web empty_changeset ([], [])) \<noteq> None"
proof -
  have "fst (k_updateService cluster svc ([], [])) \<noteq> None" for svc
    by (simp add: cluster_def)
  from missing_service_blocks_rollout[where k = cluster and app = ex_web and w = "([], [])"
      and ?w1.0 = "([], [])" and e = not_found, OF _ _ _ this]
  show ?thesis by (simp add: cluster_def not_found_def is_not_found_def ex_web_def zero_app_spec_def)
qed

definition ex_hash :: "app_spec \<times> (string, string) gomap \<Rightarrow> gerr + 64 word" where
  "ex_hash s = Inr (of_int (as_port (fst s)))"

end
