(* ===== verification/Reconciler_Facts.thy ===== *)
theory Reconciler_Facts
  imports Reconciler App_Facts Api_Facts
begin

text \<open>
  Properties of the wrapper: the order of its calls, what the status remembers, when it is quiet, and
  what the webhooks answer.
\<close>

section \<open>Calls\<close>

lemma perform_eq: "perform c f s = (e, s') \<longleftrightarrow> f (snd s) = (e, snd s') \<and> fst s' = fst s @ [c e]"
  by (cases s') (auto simp: perform_def split: prod.splits)

lemma handle_error_Nil [simp]: "handle_error e [] = e"
  by (cases e) simp_all

lemma handle_error_ignore [simp]:
  "handle_error e [ignore_not_found] = (case e of None \<Rightarrow> None | Some x \<Rightarrow> if is_not_found x then None else Some x)"
  by (cases e) (simp_all add: ignore_not_found_def)

text \<open>The calls of the parts are appended to what was there.\<close>

lemma write_status_calls:
  "write_status ch h v names s = (e, s') \<Longrightarrow>
   fst s' = fst s \<or> (\<exists>v' e'. fst s' = fst s @ [CStatus v' e'])"
  by (auto simp: write_status_def perform_def split: prod.splits option.splits if_splits)

lemma delete_old_calls:
  "delete_old h v olds names s = (names', s') \<Longrightarrow>
   \<exists>cs. fst s' = fst s @ cs \<and> (\<forall>c \<in> set cs. \<exists>old e. c = CDeleteExt v old e)"
proof (induction h v olds names s rule: delete_old.induct)
  case (2 h v old olds names s)
  show ?case
  proof (cases "old \<in> set names")
    case True
    with 2 show ?thesis by auto
  next
    case False
    obtain e s1 where p: "perform (CDeleteExt v old) (hs_deleteExtension h v old) s = (e, s1)"
      by (cases "perform (CDeleteExt v old) (hs_deleteExtension h v old) s")
    then have "fst s1 = fst s @ [CDeleteExt v old e]" by (simp add: perform_eq)
    moreover have "\<exists>cs. fst s' = fst s1 @ cs \<and> (\<forall>c \<in> set cs. \<exists>old e. c = CDeleteExt v old e)"
      using False p 2 by (cases e) auto
    ultimately show ?thesis by auto
  qed
qed simp

lemma reconcile_fetched:
  "hs_get h key (snd s) = (Inr v, w1) \<Longrightarrow> \<not> hs_deleting h v \<Longrightarrow>
   suffiksFinalizer \<in> set (hs_finalizers h v) \<Longrightarrow>
   reconcile ch h key s =
     (case ch_isModified ch v w1 of
        (Inl e, w2) \<Rightarrow> (handle_error (Some e) [ignore_not_found], (fst s, w2))
      | (Inr False, w2) \<Rightarrow> write_status ch h v (ch_extensions ch v) (fst s, w2)
      | (Inr True, w2) \<Rightarrow> reconcile_modified ch h v (fst s, w2))"
  by (simp add: reconcile_def)

section \<open>The finalizer\<close>

text \<open>
  C7: Deletion is ordered: the child's objects are deleted first, then the extensions are told, and
  only when both have succeeded is the finalizer removed; the first failure stops the run, is
  returned, and leaves the finalizer in place, so that the deletion is tried again.
\<close>

theorem finalizer_removed_last:
  assumes "hs_get h key w = (Inr v, w1)" "hs_deleting h v" "suffiksFinalizer \<in> set (hs_finalizers h v)"
    and "reconcile ch h key ([], w) = (e, (cs, w'))"
  shows "(\<exists>e1. cs = [CChildDelete v (Some e1)] \<and> e = Some e1) \<or>
    (\<exists>e2. cs = [CChildDelete v None, CExtsDelete v (Some e2)] \<and> e = Some e2) \<or>
    (\<exists>e3. cs = [CChildDelete v None, CExtsDelete v None, CUpdate (remove_finalizer h v) e3] \<and>
       (e = None \<longleftrightarrow> e3 = None \<or> is_not_found (the e3)))"
proof -
  obtain e1 s1 where p1: "perform (CChildDelete v) (ch_delete ch v) ([], w1) = (e1, s1)"
    by (cases "perform (CChildDelete v) (ch_delete ch v) ([], w1)")
  obtain e2 s2 where p2: "perform (CExtsDelete v) (hs_extDelete h v) s1 = (e2, s2)"
    by (cases "perform (CExtsDelete v) (hs_extDelete h v) s1")
  obtain e3 s3 where p3: "perform (CUpdate (remove_finalizer h v)) (hs_update h (remove_finalizer h v)) s2 = (e3, s3)"
    by (cases "perform (CUpdate (remove_finalizer h v)) (hs_update h (remove_finalizer h v)) s2")
  have "fst s1 = [CChildDelete v e1]" "fst s2 = fst s1 @ [CExtsDelete v e2]"
    "fst s3 = fst s2 @ [CUpdate (remove_finalizer h v) e3]"
    using p1 p2 p3 by (simp_all add: perform_eq)
  with assms p1 p2 p3 show ?thesis
    by (cases e1; cases e2) (auto simp: reconcile_def reconcile_deleted_def Let_def split: option.splits if_splits)
qed

text \<open>
  No effect without the finalizer: whenever a run calls an extension, the child or the status of
  an object, the object it fetched carries the finalizer of suffiks, so that nothing is created that
  a later deletion would not clean up.
\<close>

theorem effects_need_finalizer:
  assumes "reconcile ch h key ([], w) = (e, (cs, w'))" "c \<in> set cs" "\<nexists>v e. c = CUpdate v e"
  shows "\<exists>v w1. hs_get h key w = (Inr v, w1) \<and> suffiksFinalizer \<in> set (hs_finalizers h v)"
proof -
  from assms obtain v w1 where get: "hs_get h key w = (Inr v, w1)"
    by (auto simp: reconcile_def split: prod.splits sum.splits)
  have "suffiksFinalizer \<in> set (hs_finalizers h v)"
  proof (rule ccontr)
    assume "suffiksFinalizer \<notin> set (hs_finalizers h v)"
    with assms get show False
      by (auto simp: reconcile_def reconcile_deleted_def perform_def Let_def split: prod.splits if_splits)
  qed
  with get show ?thesis by blast
qed

section \<open>Synchronising\<close>

text \<open>
  When the extensions fail, nothing else happens: the run returns their error, and neither the
  child's objects, nor the extensions of the last run, nor the status are touched.
\<close>

theorem sync_failure_changes_nothing:
  assumes "hs_get h key w = (Inr v, w1)" "\<not> hs_deleting h v" "suffiksFinalizer \<in> set (hs_finalizers h v)"
    and "ch_isModified ch v w1 = (Inr True, w2)" "hs_sync h v w2 = (Inl e, w3)"
  shows "reconcile ch h key ([], w) = (Some e, ([CSync v (Some e)], w3))"
  using assms by (simp add: reconcile_fetched reconcile_modified_def call_sync_def)

text \<open>The extensions that were told to delete.\<close>

definition deleted_in :: "'v call list \<Rightarrow> string set" where
  "deleted_in cs = {old. \<exists>v e. CDeleteExt v old e \<in> set cs}"

lemma deleted_in_simps [simp]:
  "deleted_in [] = {}" "deleted_in (cs @ ds) = deleted_in cs \<union> deleted_in ds"
  "deleted_in [CDeleteExt v old e] = {old}" "deleted_in [CStatus v e] = {}"
  "deleted_in [CSync v e] = {}" "deleted_in [CApply v c e] = {}"
  by (auto simp: deleted_in_def)

text \<open>\<open>delete_old\<close> over the operations of the application's host, which depend on no state.\<close>

lemma delete_old_app:
  assumes "delete_old (app_host ac bh exts sync) a olds names s = (names', s')"
  shows "set names' = set names \<union>
      {old \<in> set olds - set names. delete_extension bh (app_object a) old (exts (ap_kind a)) \<noteq> None} \<and>
    deleted_in (fst s') = deleted_in (fst s) \<union> (set olds - set names)"
  using assms
proof (induction olds arbitrary: names s)
  case (Cons old olds)
  let ?d = "delete_extension bh (app_object a) old (exts (ap_kind a))"
  show ?case
  proof (cases "old \<in> set names")
    case True
    with Cons.IH[of names s] Cons.prems show ?thesis by auto
  next
    case False
    define s1 where "s1 = (fst s @ [CDeleteExt a old ?d], snd s)"
    have p: "perform (CDeleteExt a old) (hs_deleteExtension (app_host ac bh exts sync) a old) s = (?d, s1)"
      by (simp add: perform_def app_host_def s1_def)
    have c: "deleted_in (fst s1) = deleted_in (fst s) \<union> {old}" by (simp add: s1_def)
    show ?thesis
    proof (cases ?d)
      case None
      with p False Cons.prems have "delete_old (app_host ac bh exts sync) a olds names s1 = (names', s')" by simp
      from Cons.IH[OF this] c None False show ?thesis by auto
    next
      case (Some e)
      with p False Cons.prems have "delete_old (app_host ac bh exts sync) a olds (names @ [old]) s1 = (names', s')"
        by simp
      from Cons.IH[OF this] c Some False show ?thesis by auto
    qed
  qed
qed simp

section \<open>What a reconciler promises about the status\<close>

locale status_child =
  fixes ch :: "('v, 'w) child" and h :: "('v, 'w) host"
  assumes records: "ch_updateStatus ch v names w = ((u, None, v'), w') \<Longrightarrow> ch_extensions ch v' = names"
    and reports: "ch_updateStatus ch v names w = ((u, None, v'), w') \<Longrightarrow> u \<longleftrightarrow> v' \<noteq> v"
    and keeps_meta: "ch_updateStatus ch v names w = ((u, None, v'), w') \<Longrightarrow>
      hs_finalizers h v' = hs_finalizers h v \<and> hs_deleting h v' = hs_deleting h v"
begin

lemma status_written:
  assumes "write_status ch h v names s = (None, s')"
  shows "(fst s' = fst s \<and> ch_extensions ch v = names) \<or>
    (\<exists>v'. fst s' = fst s @ [CStatus v' None] \<and> ch_extensions ch v' = names \<and> v' \<noteq> v \<and>
       hs_finalizers h v' = hs_finalizers h v \<and> hs_deleting h v' = hs_deleting h v)"
proof -
  obtain u e v' w1 where up: "ch_updateStatus ch v names (snd s) = ((u, e, v'), w1)"
    by (cases "ch_updateStatus ch v names (snd s)") auto
  with assms have "e = None" by (cases e) (auto simp: write_status_def)
  with up have "ch_updateStatus ch v names (snd s) = ((u, None, v'), w1)" by simp
  note laws = records[OF this] reports[OF this] keeps_meta[OF this]
  with assms up \<open>e = None\<close> show ?thesis
    by (auto simp: write_status_def perform_eq split: prod.splits if_splits)
qed

end

interpretation app_wrap: status_child "app_child k hashf mp ops" "app_host ac bh exts sync"
  for k hashf mp ops ac bh exts sync
proof
  fix v names w u v' w'
  assume "ch_updateStatus (app_child k hashf mp ops) v names w = ((u, None, v'), w')"
  then have up: "app_update_status k hashf v names w = ((u, None, v'), w')" by (simp add: app_child_def)
  note r = update_status_spec[OF up]
  from r show "ch_extensions (app_child k hashf mp ops) v' = names" by (simp add: app_child_def)
  from r show "u \<longleftrightarrow> v' \<noteq> v" by (metis application.update_convs(5) application.cases_scheme application.select_convs(5))
  from r show "hs_finalizers (app_host ac bh exts sync) v' = hs_finalizers (app_host ac bh exts sync) v \<and>
      hs_deleting (app_host ac bh exts sync) v' = hs_deleting (app_host ac bh exts sync) v"
    by (cases v; cases v') (simp add: app_host_def)
qed

text \<open>
  C15: The status remembers what still has to be deleted: after a run that synchronised an application
  and succeeded, exactly the extensions that were recorded and did not run again have been told to
  delete, and the extensions recorded in the status are those that ran together with those whose
  deletion failed.
\<close>

theorem status_remembers_failed_deletions:
  assumes "ac_get ac key w = (Inr a, w1)" "\<not> om_deleting (ap_meta a)"
    "suffiksFinalizer \<in> set (om_finalizers (ap_meta a))"
    and "app_is_modified k hashf a w1 = (Inr True, w2)" "sync a = Inr (cs, names)"
    and "reconcile (app_child k hashf mp ops) (app_host ac bh exts sync) key ([], w) = (None, (calls, w'))"
  shows "deleted_in calls = set (app_extensions a) - set names \<and>
    (\<exists>a'. (a' = a \<and> (\<nexists>b e. CStatus b e \<in> set calls) \<or> last calls = CStatus a' None) \<and>
       set (app_extensions a') = set names \<union>
         {old \<in> set (app_extensions a) - set names.
            delete_extension bh (app_object a) old (exts (ap_kind a)) \<noteq> None})"
proof -
  let ?ch = "app_child k hashf mp ops" and ?h = "app_host ac bh exts sync"
  obtain names' s2 where d: "delete_old ?h a (app_extensions a) names ([CSync a None], w2) = (names', s2)"
    by (cases "delete_old ?h a (app_extensions a) names ([CSync a None], w2)")
  obtain e s3 where p: "perform (CApply a cs) (ch_createOrUpdate ?ch a cs) s2 = (e, s3)"
    by (cases "perform (CApply a cs) (ch_createOrUpdate ?ch a cs) s2")
  have "reconcile ?ch ?h key ([], w) = reconcile_modified ?ch ?h a ([], w2)"
    using assms(1-4) by (simp add: reconcile_def app_host_def app_child_def)
  with assms(5,6) d p have "e = None" and ws: "write_status ?ch ?h a names' s3 = (None, (calls, w'))"
    by (cases e; simp add: reconcile_modified_def call_sync_def app_host_def app_child_def)+
  have ext: "ch_extensions ?ch = app_extensions" by (simp add: app_child_def)
  from delete_old_app[OF d] have names': "set names' = set names \<union>
      {old \<in> set (app_extensions a) - set names. delete_extension bh (app_object a) old (exts (ap_kind a)) \<noteq> None}"
    and del: "deleted_in (fst s2) = set (app_extensions a) - set names" by simp_all
  have no: "CStatus b e \<notin> set (fst s3)" for b e
    using delete_old_calls[OF d] p by (auto simp: perform_eq)
  have s3: "deleted_in (fst s3) = set (app_extensions a) - set names"
    using del p by (simp add: perform_eq)
  from app_wrap.status_written[OF ws] consider "calls = fst s3" "app_extensions a = names'"
    | a' where "calls = fst s3 @ [CStatus a' None]" "app_extensions a' = names'"
    unfolding ext by auto
  then show ?thesis
  proof cases
    case 1
    show ?thesis
    proof (intro conjI exI[of _ a])
      show "deleted_in calls = set (app_extensions a) - set names" using 1(1) s3 by (rule ssubst)
      show "a = a \<and> (\<nexists>b e. CStatus b e \<in> set calls) \<or> last calls = CStatus a None"
        unfolding 1(1) using no by blast
      show "set (app_extensions a) = set names \<union> {old \<in> set (app_extensions a) - set names.
          delete_extension bh (app_object a) old (exts (ap_kind a)) \<noteq> None}"
        using names' unfolding 1(2)[symmetric] .
    qed
  next
    case (2 a')
    show ?thesis
    proof (intro conjI exI[of _ a'])
      show "deleted_in calls = set (app_extensions a) - set names" unfolding 2(1) using s3 by simp
      show "a' = a \<and> (\<nexists>b e. CStatus b e \<in> set calls) \<or> last calls = CStatus a' None"
        unfolding 2(1) by simp
      show "set (app_extensions a') = set names \<union> {old \<in> set (app_extensions a) - set names.
          delete_extension bh (app_object a) old (exts (ap_kind a)) \<noteq> None}"
        using names' unfolding 2(2) .
    qed
  qed
qed

text \<open>
  C11: The loop comes to rest, and with it the retries: once the status of an application has been
  updated, a run that finds this application again, with its deployment and service in place, calls
  nothing and writes nothing. That holds whatever the status recorded, so an extension whose deletion
  failed, which is logged as to be tried again later, is not told to delete until the object changes.
\<close>

theorem settled_run_is_silent:
  assumes "reads_pure k" "app_update_status k hashf a names w = ((u, None, a'), w0)"
    and "ac_get ac key w = (Inr a', w)" "\<not> om_deleting (ap_meta a')"
    "suffiksFinalizer \<in> set (om_finalizers (ap_meta a'))"
    and "k_getDeployment k (object_key (ap_meta a')) w = (Inr d, w)"
    "as_port (ap_spec a') > 0 \<Longrightarrow> k_getService k (object_key (ap_meta a')) w = (Inr svc, w)"
  shows "reconcile (app_child k hashf mp ops) (app_host ac bh exts sync) key ([], w) = (None, ([], w))"
proof -
  obtain r where get: "k_getDeployment k (object_key (ap_meta a)) w = (r, w)"
    using assms(1) by (rule reads_pureE)
  obtain hs where hash: "app_hash hashf (Some a) = Inr hs"
    using assms(2) by (auto simp: app_update_status_def split: sum.splits)
  have a': "app_hash hashf (Some a') = Inr hs \<and> st_hash (ap_status a') = hs \<and> w0 = w"
    using assms(2) hash get by (auto simp: app_update_status_def Let_def split: sum.splits)
  have mod: "app_is_modified k hashf a' w = (Inr False, w)"
    using a' assms(6,7) by (auto simp: app_is_modified_def well_known_spec_def)
  have "app_extensions a' = names" using update_status_spec[OF assms(2)] by simp
  then have "app_update_status k hashf a' (app_extensions a') w = ((False, None, a'), w)"
    using update_status_stable[OF assms(1,2)] a' by simp
  then show ?thesis
    using assms(3-5) mod by (simp add: reconcile_def app_host_def app_child_def write_status_def)
qed

section \<open>Webhooks\<close>


lemma add_defaults_empty:
  "(\<forall>d \<in> set ds. \<not> raw_nonempty (ds_spec d)) \<Longrightarrow> add_defaults mmp ds c = (None, c)"
  by (induction ds) (auto simp: AddMergePatch_def)

lemma defaults_silent:
  assumes "unmarshal_map (co_spec ob) = Inr v"
    and "\<forall>x \<in> set exts. wh_defaulting (es_webhooks (mg_spec x)) \<longrightarrow>
      (\<exists>req d. createOrUpdateRequest (AnObject ob) v x = Inr req \<and> bh_default bh x req = Inr d \<and> \<not> raw_nonempty (ds_spec d))"
  shows "\<exists>ds. controller_default bh ob exts = (None, ds) \<and> (\<forall>d \<in> set ds. \<not> raw_nonempty (ds_spec d))"
proof -
  define outs where "outs = map (defaulter bh (AnObject ob) v) (filter (\<lambda>x. wh_defaulting (es_webhooks (mg_spec x))) exts)"
  have ok: "\<exists>d. r = Inr d \<and> \<not> raw_nonempty (ds_spec d)" if "r \<in> set outs" for r
    using that assms(2) by (auto simp: outs_def defaulter_def)
  then have "errors_of outs = []" by (auto simp: errors_of_Nil_iff)
  moreover have "\<not> raw_nonempty (ds_spec d)" if "d \<in> set (values_of outs)" for d
    using that ok by (fastforce simp: values_of_def map_filter_def split: sum.splits)
  ultimately show ?thesis
    using assms(1) by (simp add: controller_default_def outs_def[symmetric] Let_def)
qed

text \<open>
  Defaulting leaves an application alone unless an extension asks for a change: when every
  defaulting extension answers without a spec, the webhook returns the application it was given.
\<close>

theorem default_without_patches:
  assumes "unmarshal_map (get_spec (Some a)) = Inr v"
    and "gomap_ok (om_labels (ap_meta a))" "gomap_ok (om_annotations (ap_meta a))"
    and "\<forall>x \<in> set (exts (ap_kind a)). wh_defaulting (es_webhooks (mg_spec x)) \<longrightarrow>
      (\<exists>req d. createOrUpdateRequest (AnObject (app_object a)) v x = Inr req \<and>
         bh_default bh x req = Inr d \<and> \<not> raw_nonempty (ds_spec d))"
  shows "hook_default (app_child k hashf mp0 ops) app_object bh exts mmp mp (application_ops enc dec) a = (None, a)"
proof -
  obtain ds where "controller_default bh (app_object a) (exts (ap_kind a)) = (None, ds)"
    and ds: "\<forall>d \<in> set ds. \<not> raw_nonempty (ds_spec d)"
    using defaults_silent[of "app_object a" v "exts (ap_kind a)" bh] assms(1,4) by (auto simp: app_object_def)
  with add_defaults_empty[OF ds, of mmp empty_changeset] show ?thesis
    using assms(2,3)
    by (simp add: hook_default_def app_child_def app_default_def app_object_def changeset_apply_def
        application_ops_def empty_changeset_def raw_nonempty_def merge_with_empty)
qed

section \<open>Witnesses\<close>

definition ex_client :: "application \<Rightarrow> world app_client" where
  "ex_client a = \<lparr>ac_get = (\<lambda>key w. (Inr a, w)), ac_update = (\<lambda>a w. (None, w)),
     ac_statusUpdate = (\<lambda>a w. (None, w))\<rparr>"

definition ex_child :: "(application, world) child" where
  "ex_child = app_child cluster ex_hash (\<lambda>d p. Inl EEOF) no_json"

definition ex_host :: "application \<Rightarrow> (gerr + changeset \<times> string list) \<Rightarrow> (application, world) host" where
  "ex_host a r = app_host (ex_client a) ex_behaviour (\<lambda>_. []) (\<lambda>_. r)"

text \<open>Applications without a port, which need no service: one that lives and one that goes.\<close>

definition ex_live :: application where
  "ex_live = ex_web\<lparr>ap_meta := (ap_meta ex_web)\<lparr>om_finalizers := [suffiksFinalizer]\<rparr>,
     ap_spec := zero_app_spec\<lparr>as_image := ''img''\<rparr>\<rparr>"

definition ex_dying :: application where
  "ex_dying = ex_live\<lparr>ap_meta := (ap_meta ex_live)\<lparr>om_deleting := True\<rparr>\<rparr>"

lemma ex_host_simps [simp]:
  "hs_deleting (ex_host a r) b = om_deleting (ap_meta b)"
  "hs_finalizers (ex_host a r) b = om_finalizers (ap_meta b)"
  "hs_get (ex_host a r) key w = (Inr a, w)"
  "hs_update (ex_host a r) b w = (None, w)"
  "hs_statusUpdate (ex_host a r) b w = (None, w)"
  "hs_sync (ex_host a r) b w = (r, w)"
  "hs_extDelete (ex_host a r) b w = (controller_delete ex_behaviour (app_object b) [], w)"
  "hs_deleteExtension (ex_host a r) b name w = (delete_extension ex_behaviour (app_object b) name [], w)"
  by (simp_all add: ex_host_def app_host_def ex_client_def)

lemma ex_child_simps [simp]:
  "ch_delete ex_child = app_delete cluster" "ch_isModified ex_child = app_is_modified cluster ex_hash"
  "ch_extensions ex_child = app_extensions" "ch_updateStatus ex_child = app_update_status cluster ex_hash"
  by (simp_all add: ex_child_def app_child_def)

lemma ex_live_simps [simp]:
  "om_deleting (ap_meta ex_live) = False" "om_finalizers (ap_meta ex_live) = [suffiksFinalizer]"
  "om_deleting (ap_meta ex_dying) = True" "om_finalizers (ap_meta ex_dying) = [suffiksFinalizer]"
  by (simp_all add: ex_live_def ex_dying_def ex_web_def zero_meta_def)

lemma ex_live_spec: "\<exists>m. unmarshal_map (get_spec (Some ex_live)) = Inr (Some m)"
  "\<exists>m. unmarshal_map (get_spec (Some ex_dying)) = Inr (Some m)"
  by (simp_all add: unmarshal_get_spec ex_live_def ex_dying_def ex_web_def zero_app_spec_def)

lemma ex_no_extensions [simp]:
  "controller_delete ex_behaviour (app_object ex_dying) [] = None"
  "delete_extension ex_behaviour (app_object ex_live) name [] = None"
  using ex_live_spec
  by (auto simp: controller_delete_def delete_extension_def ctl_delete_def app_object_def errors_of_def
      map_filter_simps Let_def)

lemma ex_delete: "app_delete cluster a ([], []) = (None, ([], []))"
  by (simp add: app_delete_def cluster_def is_not_found_def not_found_def)

lemma ex_dying_run:
  "reconcile ex_child (ex_host ex_dying r) key ([], ([], [])) =
   (None, ([CChildDelete ex_dying None, CExtsDelete ex_dying None,
      CUpdate (remove_finalizer (ex_host ex_dying r) ex_dying) None], ([], [])))"
  by (simp add: reconcile_def reconcile_deleted_def perform_def ex_delete Let_def)

theorem finalizer_removed_last_witness:
  "\<exists>e3. fst (snd (reconcile ex_child (ex_host ex_dying (Inl EEOF)) (''ns'', ''web'') ([], ([], [])))) =
     [CChildDelete ex_dying None, CExtsDelete ex_dying None,
      CUpdate (remove_finalizer (ex_host ex_dying (Inl EEOF)) ex_dying) e3]"
  using finalizer_removed_last[OF _ _ _ ex_dying_run] by (auto simp: ex_dying_run)

theorem effects_need_finalizer_witness:
  "suffiksFinalizer \<in> set (hs_finalizers (ex_host ex_dying (Inl EEOF)) ex_dying)"
  using effects_need_finalizer[OF ex_dying_run, of "CChildDelete ex_dying None" "Inl EEOF"] by auto

lemma ex_live_modified: "app_is_modified cluster ex_hash a ([], []) = (Inr True, ([], []))"
  by (simp add: app_is_modified_def app_hash_def ex_hash_def cluster_def is_not_found_def not_found_def)

theorem sync_failure_changes_nothing_witness:
  "reconcile ex_child (ex_host ex_live (Inl EEOF)) (''ns'', ''web'') ([], ([], [])) =
   (Some EEOF, ([CSync ex_live (Some EEOF)], ([], [])))"
  using sync_failure_changes_nothing[where ch = ex_child and h = "ex_host ex_live (Inl EEOF)" and v = ex_live
      and w = "([], [])" and ?w1.0 = "([], [])" and ?w2.0 = "([], [])" and ?w3.0 = "([], [])" and e = EEOF]
  by (simp add: ex_live_modified)

text \<open>An application whose status records an extension that is gone.\<close>

definition ex_stale :: application where
  "ex_stale = ex_live\<lparr>ap_status := (ap_status ex_live)\<lparr>st_extensions := [''old'']\<rparr>\<rparr>"

lemma ex_stale_simps [simp]:
  "ap_meta ex_stale = ap_meta ex_live" "ap_spec ex_stale = ap_spec ex_live" "app_extensions ex_stale = [''old'']"
  "ap_kind ex_stale = ''Application''" "ap_kind ex_live = ''Application''"
  by (simp_all add: ex_stale_def app_extensions_def ex_live_def ex_web_def)

lemma ex_stale_delete [simp]: "delete_extension ex_behaviour (app_object ex_stale) name [] = None"
proof -
  have "get_spec (Some ex_stale) = get_spec (Some ex_live)" by (simp add: get_spec_def)
  then show ?thesis using ex_live_spec
    by (auto simp: delete_extension_def ctl_delete_def app_object_def errors_of_def map_filter_simps Let_def)
qed

lemma ex_stale_apply:
  "fst (app_create_or_update cluster (\<lambda>d p. Inl EEOF) no_json ex_stale empty_changeset ([], [])) = None"
  by (simp add: app_create_or_update_def desired_deployment_def apply_deployment_def well_known_spec_def
      ex_stale_def ex_live_def ex_app_simps no_json_def cluster_def changeset_apply_def deployment_ops_def
      empty_changeset_def raw_nonempty_def is_not_found_def not_found_def zero_deployment_def Let_def)

lemma ex_update_status:
  obtains u a' w1 where "app_update_status cluster ex_hash a names w = ((u, None, a'), w1)"
proof -
  obtain r w1 where "k_getDeployment cluster (object_key (ap_meta a)) w = (r, w1)"
    by (cases "k_getDeployment cluster (object_key (ap_meta a)) w")
  then show ?thesis
    by (cases r) (rule that, simp add: app_update_status_def app_hash_def ex_hash_def Let_def)+
qed

lemma ex_stale_run:
  "\<exists>calls w'. reconcile ex_child (ex_host ex_stale (Inr (empty_changeset, []))) key ([], ([], [])) = (None, (calls, w'))"
proof -
  obtain w1 where "app_create_or_update cluster (\<lambda>d p. Inl EEOF) no_json ex_stale empty_changeset ([], []) = (None, w1)"
    using ex_stale_apply by (metis prod.collapse)
  moreover obtain u a' w2 where "app_update_status cluster ex_hash ex_stale [] w1 = ((u, None, a'), w2)"
    by (rule ex_update_status)
  moreover have "ch_createOrUpdate ex_child = app_create_or_update cluster (\<lambda>d p. Inl EEOF) no_json"
    by (simp add: ex_child_def app_child_def)
  ultimately show ?thesis
    by (cases u) (simp_all add: reconcile_def reconcile_modified_def call_sync_def perform_def write_status_def
        ex_live_modified)
qed

theorem status_remembers_failed_deletions_witness:
  "deleted_in (fst (snd (reconcile ex_child (ex_host ex_stale (Inr (empty_changeset, []))) (''ns'', ''web'')
     ([], ([], []))))) = {''old''}"
proof -
  obtain calls w' where run: "reconcile ex_child (ex_host ex_stale (Inr (empty_changeset, []))) (''ns'', ''web'')
      ([], ([], [])) = (None, (calls, w'))"
    using ex_stale_run by blast
  have "ac_get (ex_client ex_stale) (''ns'', ''web'') ([], []) = (Inr ex_stale, ([], []))"
    by (simp add: ex_client_def)
  from status_remembers_failed_deletions[where a = ex_stale, OF this _ _ ex_live_modified refl
      run[unfolded ex_child_def ex_host_def]]
  have "deleted_in calls = set (app_extensions ex_stale) - set []" by simp
  then show ?thesis unfolding run by simp
qed

text \<open>A cluster that holds the deployment of \<open>ex_live\<close>.\<close>

definition ex_deployed :: world where
  "ex_deployed = ([((''ns'', ''web''), zero_deployment)], [])"

theorem settled_run_is_silent_witness:
  "reconcile ex_child (ex_host (snd (snd (fst (app_update_status cluster ex_hash ex_live [''x''] ex_deployed)))) (Inl EEOF))
     (''ns'', ''web'') ([], ex_deployed) = (None, ([], ex_deployed))"
proof -
  have key: "object_key (ap_meta ex_live) = (''ns'', ''web'')"
    by (simp add: ex_live_def ex_web_def object_key_def)
  have get: "k_getDeployment cluster (''ns'', ''web'') ex_deployed = (Inr zero_deployment, ex_deployed)"
    by (simp add: cluster_def ex_deployed_def)
  obtain u a' where up: "app_update_status cluster ex_hash ex_live [''x''] ex_deployed = ((u, None, a'), ex_deployed)"
    by (simp add: app_update_status_def app_hash_def ex_hash_def Let_def key get)
  have "ap_meta a' = ap_meta ex_live" "ap_spec a' = ap_spec ex_live"
    using update_status_spec[OF up] by (metis application.select_convs(3) application.surjective application.update_convs(5),
      metis application.select_convs(4) application.surjective application.update_convs(5))
  with settled_run_is_silent[where k = cluster, OF _ up, of "ex_client a'" "(''ns'', ''web'')" zero_deployment] show ?thesis
    unfolding up by (simp add: key get ex_child_def ex_host_def) (simp add: ex_client_def ex_live_def zero_app_spec_def)
qed


theorem default_without_patches_witness:
  "hook_default ex_child app_object ex_behaviour (\<lambda>_. [ex_managed]) (\<lambda>a b. Inr b) (\<lambda>a b. Inr b)
     (application_ops (\<lambda>a. Inl EEOF) (\<lambda>b a. (None, a))) ex_live = (None, ex_live)"
proof -
  obtain m where m: "unmarshal_map (get_spec (Some ex_live)) = Inr (Some m)" using ex_live_spec by blast
  have ok: "gomap_ok (om_labels (ap_meta ex_live))" "gomap_ok (om_annotations (ap_meta ex_live))"
    by (simp_all add: ex_live_def ex_web_def zero_meta_def gomap_ok_def)
  have "\<forall>x \<in> set [ex_managed]. wh_defaulting (es_webhooks (mg_spec x)) \<longrightarrow>
      (\<exists>req d. createOrUpdateRequest (AnObject (app_object ex_live)) (Some m) x = Inr req \<and>
         bh_default ex_behaviour x req = Inr d \<and> \<not> raw_nonempty (ds_spec d))"
    by (simp add: createOrUpdateRequest_def ex_behaviour_def raw_nonempty_def Let_def)
  from default_without_patches[where exts = "\<lambda>_. [ex_managed]", OF m ok this] show ?thesis
    unfolding ex_child_def .
qed

end
