(* ===== verification/Ext_Reconciler.thy ===== *)
theory Ext_Reconciler
  imports Ext_Manager_Facts Kube
begin

text \<open>
  \<open>internal/controller/extension_controller.go\<close>: the reconciler of \<open>Extension\<close> objects, which
  keeps the extension manager and the schemas of the custom resource definitions in step with them.
\<close>

section \<open>Custom resource definitions\<close>

text \<open>
  Of a definition, the names and its versions; \<open>cv_schema\<close> is \<open>Schema\<close>, a pointer to a struct
  that holds the pointer \<open>OpenAPIV3Schema\<close>.
\<close>

record crd_version =
  cv_name :: string
  cv_served :: bool
  cv_storage :: bool
  cv_status :: bool
  cv_schema :: "schema option option"

record crd =
  crd_name :: string
  crd_group :: string
  crd_kind :: string
  crd_listKind :: string
  crd_singular :: string
  crd_plural :: string
  crd_shortNames :: "string list"
  crd_namespaced :: bool
  crd_versions :: "crd_version list"

definition crd_version_of :: "schema option \<Rightarrow> crd_version" where
  "crd_version_of s = \<lparr>cv_name = ''v1'', cv_served = True, cv_storage = True, cv_status = True,
     cv_schema = Some s\<rparr>"

definition createAppCRD :: "string \<Rightarrow> schema option \<Rightarrow> crd" where
  "createAppCRD name s = \<lparr>crd_name = name, crd_group = ''suffiks.com'', crd_kind = ''Application'',
     crd_listKind = ''ApplicationList'', crd_singular = ''application'', crd_plural = ''applications'',
     crd_shortNames = [''app'', ''apps''], crd_namespaced = True, crd_versions = [crd_version_of s]\<rparr>"

definition createWorkCRD :: "string \<Rightarrow> schema option \<Rightarrow> crd" where
  "createWorkCRD name s = \<lparr>crd_name = name, crd_group = ''suffiks.com'', crd_kind = ''Work'',
     crd_listKind = ''WorkList'', crd_singular = ''work'', crd_plural = ''works'',
     crd_shortNames = [''nj''], crd_namespaced = True, crd_versions = [crd_version_of s]\<rparr>"

record crd_definition =
  cd_kind :: string
  cd_create :: "string \<Rightarrow> schema option \<Rightarrow> crd"

text \<open>The map \<open>crds\<close>; the loops below take the order in which Go ranges over it as an argument.\<close>

definition crds :: "(string, crd_definition) gomap" where
  "crds = [(''applications.suffiks.com'', \<lparr>cd_kind = ''Application'', cd_create = createAppCRD\<rparr>),
           (''works.suffiks.com'', \<lparr>cd_kind = ''Work'', cd_create = createWorkCRD\<rparr>)]"

text \<open>
  \<open>reflect.DeepEqual\<close> on schemas: the order of a map does not matter, a nil map is not an empty one.
\<close>

function schema_deep_equal :: "schema \<Rightarrow> schema \<Rightarrow> bool" where
  "schema_deep_equal (Schema t ps r) (Schema t' qs r') \<longleftrightarrow>
     t = t' \<and> r = r' \<and>
     (case ps of
        None \<Rightarrow> qs = None
      | Some l \<Rightarrow>
          (case qs of
             None \<Rightarrow> False
           | Some m \<Rightarrow> length l = length m \<and>
               (\<forall>kv \<in> set l. case mget m (fst kv) of None \<Rightarrow> False | Some w \<Rightarrow> schema_deep_equal (snd kv) w)))"
  by pat_completeness auto
termination
proof (relation "measure (\<lambda>(a, b). schema_size a)")
  fix t ps r t' qs r' l m and kv :: "string \<times> schema" and w
  assume "ps = Some l" "kv \<in> set l"
  then have "schema_size (snd kv) \<le> sum_list (map (\<lambda>kv. schema_size (snd kv)) l)"
    by (intro member_le_sum_list) auto
  with \<open>ps = Some l\<close> show "((snd kv, w), Schema t ps r, Schema t' qs r') \<in> measure (\<lambda>(a, b). schema_size a)"
    by simp
qed simp

fun schema_ptr_equal :: "schema option \<Rightarrow> schema option \<Rightarrow> bool" where
  "schema_ptr_equal None None = True"
| "schema_ptr_equal (Some a) (Some b) = schema_deep_equal a b"
| "schema_ptr_equal _ _ = False"

section \<open>The API client\<close>

record 'w ext_client =
  xc_get :: "obj_key \<Rightarrow> 'w \<Rightarrow> (gerr + extension) \<times> 'w"
  xc_list :: "'w \<Rightarrow> (gerr + extension list) \<times> 'w"
  xc_update :: "extension \<Rightarrow> 'w \<Rightarrow> gerr option \<times> 'w"
  xc_statusUpdate :: "extension \<Rightarrow> 'w \<Rightarrow> gerr option \<times> 'w"
  xc_getCRD :: "string \<Rightarrow> 'w \<Rightarrow> (gerr + crd) \<times> 'w"
  xc_updateCRD :: "crd \<Rightarrow> 'w \<Rightarrow> gerr option \<times> 'w"
  xc_createCRD :: "crd \<Rightarrow> 'w \<Rightarrow> gerr option \<times> 'w"

text \<open>What the reconciler works on: the manager and the cluster; the writes are recorded.\<close>

datatype ext_write =
    WExtension extension "gerr option"
  | WStatus extension "gerr option"
  | WUpdateCRD crd "gerr option"
  | WCreateCRD crd "gerr option"

record ('p, 'w) ext_state =
  es_manager :: "'p ext_manager"
  es_writes :: "ext_write list"
  es_world :: 'w

definition ext_write_by ::
    "(gerr option \<Rightarrow> ext_write) \<Rightarrow> ('w \<Rightarrow> gerr option \<times> 'w) \<Rightarrow> ('p, 'w) ext_state \<Rightarrow>
     gerr option \<times> ('p, 'w) ext_state" where
  "ext_write_by c f s =
     (case f (es_world s) of (e, w) \<Rightarrow> (e, s\<lparr>es_writes := es_writes s @ [c e], es_world := w\<rparr>))"

section \<open>Publishing the schemas\<close>

definition crd_schema :: "crd \<Rightarrow> gerr + schema option" where
  "crd_schema c =
     (case crd_versions c of
        [] \<Rightarrow> Inl (EPanic ''index out of range'')
      | v # vs \<Rightarrow> (case cv_schema v of None \<Rightarrow> Inl (EPanic ''nil pointer dereference'') | Some s \<Rightarrow> Inr s))"

definition set_crd_schema :: "schema option \<Rightarrow> crd \<Rightarrow> crd" where
  "set_crd_schema s c =
     (case crd_versions c of [] \<Rightarrow> c | v # vs \<Rightarrow> c\<lparr>crd_versions := v\<lparr>cv_schema := Some s\<rparr> # vs\<rparr>)"

text \<open>The loop over \<open>crds\<close> in \<open>Reconcile\<close>.\<close>

fun publish_crds ::
    "'w ext_client \<Rightarrow> (string \<times> crd_definition) list \<Rightarrow> ('p, 'w) ext_state \<Rightarrow>
     gerr option \<times> ('p, 'w) ext_state" where
  "publish_crds xc [] s = (None, s)"
| "publish_crds xc ((name, def) # ds) s =
     (case xc_getCRD xc name (es_world s) of
        (Inl e, w1) \<Rightarrow> (Some e, s\<lparr>es_world := w1\<rparr>)
      | (Inr c, w1) \<Rightarrow>
          (let s1 = s\<lparr>es_world := w1\<rparr>; updated = manager_schema (es_manager s1) (cd_kind def)
           in (case crd_schema c of
                 Inl e \<Rightarrow> (Some e, s1)
               | Inr current \<Rightarrow>
                   (if schema_ptr_equal current updated then publish_crds xc ds s1
                    else (let c' = set_crd_schema updated c
                          in (case ext_write_by (WUpdateCRD c') (xc_updateCRD xc c') s1 of
                                (Some e, s2) \<Rightarrow> (Some e, s2)
                              | (None, s2) \<Rightarrow> publish_crds xc ds s2))))))"

section \<open>Reconcile\<close>

definition ext_finalizer :: string where
  "ext_finalizer = ''extensions.suffiks.com/finalizer''"

definition set_finalizers :: "string list \<Rightarrow> extension \<Rightarrow> extension" where
  "set_finalizers fs x = x\<lparr>ex_meta := (ex_meta x)\<lparr>om_finalizers := fs\<rparr>\<rparr>"

definition call_manager ::
    "('p ext_manager \<Rightarrow> gerr option \<times> 'p ext_manager) \<Rightarrow> ('p, 'w) ext_state \<Rightarrow> gerr option \<times> ('p, 'w) ext_state" where
  "call_manager f s = (case f (es_manager s) of (e, m) \<Rightarrow> (e, s\<lparr>es_manager := m\<rparr>))"

text \<open>From \<open>CRDManager.Add\<close> on; an extension whose properties are already defined is skipped.\<close>

definition ext_apply ::
    "'p manager_env \<Rightarrow> 'w ext_client \<Rightarrow> (string \<times> crd_definition) list \<Rightarrow> extension \<Rightarrow> ('p, 'w) ext_state \<Rightarrow>
     gerr option \<times> ('p, 'w) ext_state" where
  "ext_apply mv xc order x s =
     (case call_manager (manager_add mv x) s of
        (e, s1) \<Rightarrow>
          (if e \<noteq> None \<and> \<not> is_already_defined (the e) then (e, s1)
           else (case publish_crds xc order s1 of
                   (Some e2, s2) \<Rightarrow> (Some e2, s2)
                 | (None, s2) \<Rightarrow>
                     (let x' = x\<lparr>ex_status := StatusActive\<rparr>
                      in ext_write_by (WStatus x') (xc_statusUpdate xc x') s2))))"

definition ext_remove ::
    "'p manager_env \<Rightarrow> 'w ext_client \<Rightarrow> extension \<Rightarrow> ('p, 'w) ext_state \<Rightarrow> gerr option \<times> ('p, 'w) ext_state" where
  "ext_remove mv xc x s =
     (if ext_finalizer \<notin> set (om_finalizers (ex_meta x)) then (None, s)
      else (case call_manager (manager_remove mv x) s of
              (Some e, s1) \<Rightarrow> (Some e, s1)
            | (None, s1) \<Rightarrow>
                (let x' = set_finalizers (filter (\<lambda>f. f \<noteq> ext_finalizer) (om_finalizers (ex_meta x))) x
                 in ext_write_by (WExtension x') (xc_update xc x') s1)))"

definition ext_reconcile ::
    "'p manager_env \<Rightarrow> 'w ext_client \<Rightarrow> (string \<times> crd_definition) list \<Rightarrow> obj_key \<Rightarrow> ('p, 'w) ext_state \<Rightarrow>
     gerr option \<times> ('p, 'w) ext_state" where
  "ext_reconcile mv xc order key s =
     (case xc_get xc key (es_world s) of
        (Inl e, w1) \<Rightarrow> (ignore_not_found e, s\<lparr>es_world := w1\<rparr>)
      | (Inr x, w1) \<Rightarrow>
          (let s1 = s\<lparr>es_world := w1\<rparr>
           in if om_deleting (ex_meta x) then ext_remove mv xc x s1
              else if ext_finalizer \<in> set (om_finalizers (ex_meta x)) then ext_apply mv xc order x s1
              else (let x' = set_finalizers (om_finalizers (ex_meta x) @ [ext_finalizer]) x
                    in (case ext_write_by (WExtension x') (xc_update xc x') s1 of
                          (Some e, s2) \<Rightarrow> (Some e, s2)
                        | (None, s2) \<Rightarrow> ext_apply mv xc order x' s2))))"

section \<open>RefreshCRD\<close>

text \<open>At the start: all extensions are added, up to the first error, then the schemas are published.\<close>

fun add_listed ::
    "'p manager_env \<Rightarrow> extension list \<Rightarrow> ('p, 'w) ext_state \<Rightarrow> gerr option \<times> ('p, 'w) ext_state" where
  "add_listed mv [] s = (None, s)"
| "add_listed mv (x # xs) s =
     (case call_manager (manager_add mv x) s of
        (Some e, s1) \<Rightarrow> (Some e, s1)
      | (None, s1) \<Rightarrow> add_listed mv xs s1)"

fun refresh_crds ::
    "'w ext_client \<Rightarrow> (string \<times> crd_definition) list \<Rightarrow> ('p, 'w) ext_state \<Rightarrow>
     gerr option \<times> ('p, 'w) ext_state" where
  "refresh_crds xc [] s = (None, s)"
| "refresh_crds xc ((name, def) # ds) s =
     (case xc_getCRD xc name (es_world s) of
        (Inl e, w1) \<Rightarrow>
          (let s1 = s\<lparr>es_world := w1\<rparr>; c = cd_create def name (manager_schema (es_manager s1) (cd_kind def))
           in if is_not_found e
              then (case ext_write_by (WCreateCRD c) (xc_createCRD xc c) s1 of
                      (Some e2, s2) \<Rightarrow> (Some e2, s2)
                    | (None, s2) \<Rightarrow> refresh_crds xc ds s2)
              else (Some e, s1))
      | (Inr c, w1) \<Rightarrow>
          (let s1 = s\<lparr>es_world := w1\<rparr>; c' = set_crd_schema (manager_schema (es_manager s1) (cd_kind def)) c
           in (case crd_schema c of
                 Inl e \<Rightarrow> (Some e, s1)
               | Inr _ \<Rightarrow>
                   (case ext_write_by (WUpdateCRD c') (xc_updateCRD xc c') s1 of
                      (Some e2, s2) \<Rightarrow> (Some e2, s2)
                    | (None, s2) \<Rightarrow> refresh_crds xc ds s2))))"

definition RefreshCRD ::
    "gerr option \<Rightarrow> 'p manager_env \<Rightarrow> 'w ext_client \<Rightarrow> (string \<times> crd_definition) list \<Rightarrow> ('p, 'w) ext_state \<Rightarrow>
     gerr option \<times> ('p, 'w) ext_state" where
  "RefreshCRD client_err mv xc order s =
     (if client_err \<noteq> None then (client_err, s)
      else (case xc_list xc (es_world s) of
              (Inl e, w1) \<Rightarrow> (Some e, s\<lparr>es_world := w1\<rparr>)
            | (Inr xs, w1) \<Rightarrow>
                (case add_listed mv xs (s\<lparr>es_world := w1\<rparr>) of
                   (Some e, s2) \<Rightarrow> (Some e, s2)
                 | (None, s2) \<Rightarrow> refresh_crds xc order s2)))"

section \<open>What is written\<close>

lemma ext_write_by_eq:
  "ext_write_by c f s = (e, s') \<longleftrightarrow>
   (\<exists>w. f (es_world s) = (e, w) \<and> s' = s\<lparr>es_writes := es_writes s @ [c e], es_world := w\<rparr>)"
  by (auto simp: ext_write_by_def split: prod.splits)

lemma crd_schema_set [simp]: "crd_schema c = Inr cur \<Longrightarrow> crd_schema (set_crd_schema s c) = Inr s"
  by (auto simp: crd_schema_def set_crd_schema_def split: list.splits option.splits)

text \<open>A definition is up to date with the schema \<open>s\<close> if it was found so or has been written so.\<close>

definition crd_current :: "'w ext_client \<Rightarrow> ext_write list \<Rightarrow> string \<Rightarrow> schema option \<Rightarrow> bool" where
  "crd_current xc ws name s \<longleftrightarrow>
     (\<exists>w c cur. fst (xc_getCRD xc name w) = Inr c \<and> crd_schema c = Inr cur \<and>
        (schema_ptr_equal cur s \<or> WUpdateCRD (set_crd_schema s c) None \<in> set ws))"

lemma crd_current_append: "crd_current xc ws name s \<Longrightarrow> crd_current xc (vs @ ws @ us) name s"
  unfolding crd_current_def by fastforce

lemma publish_crds_ok:
  assumes "publish_crds xc ds s = (None, s')"
  shows "es_manager s' = es_manager s \<and>
    (\<exists>ws. es_writes s' = es_writes s @ ws \<and>
       (\<forall>d \<in> set ds. crd_current xc ws (fst d) (manager_schema (es_manager s) (cd_kind (snd d)))))"
  using assms
proof (induction ds arbitrary: s)
  case (Cons d ds)
  obtain name def where d: "d = (name, def)" by (cases d)
  let ?new = "manager_schema (es_manager s) (cd_kind def)"
  obtain c w1 where get: "xc_getCRD xc name (es_world s) = (Inr c, w1)"
    using Cons.prems by (auto simp: d split: prod.splits sum.splits)
  obtain cur where cur: "crd_schema c = Inr cur"
    using Cons.prems get by (auto simp: d Let_def split: sum.splits)
  let ?s1 = "s\<lparr>es_world := w1\<rparr>" and ?c = "set_crd_schema ?new c"
  have fetched: "fst (xc_getCRD xc name (es_world s)) = Inr c" using get by simp
  show ?case
  proof (cases "schema_ptr_equal cur ?new")
    case True
    with Cons.prems get cur have "publish_crds xc ds ?s1 = (None, s')" by (simp add: d Let_def)
    from Cons.IH[OF this] obtain ws where ws: "es_manager s' = es_manager s" "es_writes s' = es_writes s @ ws"
      "\<forall>d \<in> set ds. crd_current xc ws (fst d) (manager_schema (es_manager s) (cd_kind (snd d)))" by auto
    moreover have "crd_current xc ws name ?new" using fetched cur True unfolding crd_current_def by blast
    ultimately show ?thesis by (auto simp: d)
  next
    case False
    obtain e s2 where wr: "ext_write_by (WUpdateCRD ?c) (xc_updateCRD xc ?c) ?s1 = (e, s2)"
      by (cases "ext_write_by (WUpdateCRD ?c) (xc_updateCRD xc ?c) ?s1")
    with Cons.prems get cur False have "e = None" and rest: "publish_crds xc ds s2 = (None, s')"
      by (cases e; simp add: d Let_def)+
    from wr have s2: "es_manager s2 = es_manager s" "es_writes s2 = es_writes s @ [WUpdateCRD ?c e]"
      by (auto simp: ext_write_by_eq)
    from Cons.IH[OF rest] s2 obtain ws where ws: "es_manager s' = es_manager s"
      "es_writes s' = es_writes s @ WUpdateCRD ?c None # ws"
      "\<forall>d \<in> set ds. crd_current xc ws (fst d) (manager_schema (es_manager s) (cd_kind (snd d)))"
      unfolding \<open>e = None\<close> by auto
    moreover have "crd_current xc (WUpdateCRD ?c None # ws) name ?new"
      using fetched cur unfolding crd_current_def by auto
    moreover have "crd_current xc (WUpdateCRD ?c None # ws) (fst d) sc" if "crd_current xc ws (fst d) sc" for d sc
      using crd_current_append[OF that, of "[WUpdateCRD ?c None]" "[]"] by simp
    ultimately show ?thesis by (intro conjI exI[of _ "WUpdateCRD ?c None # ws"]) (auto simp: d)
  qed
qed simp

lemma refresh_crds_ok:
  assumes "refresh_crds xc ds s = (None, s')"
  shows "es_manager s' = es_manager s \<and> (\<exists>ws. es_writes s' = es_writes s @ ws \<and>
    (\<forall>d \<in> set ds. \<exists>c. (WUpdateCRD c None \<in> set ws \<and> crd_schema c = Inr (manager_schema (es_manager s) (cd_kind (snd d)))) \<or>
       WCreateCRD (cd_create (snd d) (fst d) (manager_schema (es_manager s) (cd_kind (snd d)))) None \<in> set ws))"
  using assms
proof (induction ds arbitrary: s)
  case (Cons d ds)
  obtain name def where d: "d = (name, def)" by (cases d)
  let ?new = "manager_schema (es_manager s) (cd_kind def)"
  obtain r w1 where get: "xc_getCRD xc name (es_world s) = (r, w1)" by (cases "xc_getCRD xc name (es_world s)")
  obtain wr s2 where rest: "refresh_crds xc ds s2 = (None, s')" "es_manager s2 = es_manager s"
    "es_writes s2 = es_writes s @ [wr]"
    and wr: "wr = WCreateCRD (cd_create def name ?new) None \<or> (\<exists>c. wr = WUpdateCRD c None \<and> crd_schema c = Inr ?new)"
  proof (cases r)
    case (Inl e)
    let ?f = "ext_write_by (WCreateCRD (cd_create def name ?new)) (xc_createCRD xc (cd_create def name ?new)) (s\<lparr>es_world := w1\<rparr>)"
    obtain e2 s2 where f: "?f = (e2, s2)" by (cases ?f)
    with Cons.prems get Inl have "e2 = None" "refresh_crds xc ds s2 = (None, s')"
      by (cases e2; simp add: d Let_def split: if_splits)+
    with f show ?thesis
      by (intro that[of s2 "WCreateCRD (cd_create def name ?new) None"]) (auto simp: ext_write_by_eq)
  next
    case (Inr c)
    obtain cur where cur: "crd_schema c = Inr cur"
      using Cons.prems get Inr by (auto simp: d Let_def split: sum.splits)
    let ?f = "ext_write_by (WUpdateCRD (set_crd_schema ?new c)) (xc_updateCRD xc (set_crd_schema ?new c)) (s\<lparr>es_world := w1\<rparr>)"
    obtain e2 s2 where f: "?f = (e2, s2)" by (cases ?f)
    with Cons.prems get Inr cur have "e2 = None" "refresh_crds xc ds s2 = (None, s')"
      by (cases e2; simp add: d Let_def)+
    with f cur show ?thesis
      by (intro that[of s2 "WUpdateCRD (set_crd_schema ?new c) None"]) (auto simp: ext_write_by_eq)
  qed
  from Cons.IH[OF rest(1)] rest(2,3) obtain ws where "es_manager s' = es_manager s" "es_writes s' = es_writes s @ wr # ws"
    "\<forall>d \<in> set ds. \<exists>c. (WUpdateCRD c None \<in> set ws \<and> crd_schema c = Inr (manager_schema (es_manager s) (cd_kind (snd d)))) \<or>
       WCreateCRD (cd_create (snd d) (fst d) (manager_schema (es_manager s) (cd_kind (snd d)))) None \<in> set ws"
    by auto
  with wr show ?case by (intro conjI exI[of _ "wr # ws"]) (auto simp: d)
qed simp

section \<open>Properties\<close>

lemma call_manager_eq:
  "call_manager f s = (e, s') \<longleftrightarrow> f (es_manager s) = (e, es_manager s') \<and> s' = s\<lparr>es_manager := es_manager s'\<rparr>"
  by (auto simp: call_manager_def split: prod.splits)

lemma manager_remove_forgets: "manager_remove mv x m = (None, m') \<Longrightarrow> mget (em_extensions m') (ex_name x) = None"
  by (auto simp: manager_remove_def mget_delete split: prod.splits option.splits)

lemma ext_apply_ok:
  assumes "ext_apply mv xc order x s = (None, s')"
  shows "\<exists>e ws. manager_add mv x (es_manager s) = (e, es_manager s') \<and> (e = None \<or> is_already_defined (the e)) \<and>
    es_writes s' = es_writes s @ ws @ [WStatus (x\<lparr>ex_status := StatusActive\<rparr>) None] \<and>
    (\<forall>d \<in> set order. crd_current xc ws (fst d) (manager_schema (es_manager s') (cd_kind (snd d))))"
proof -
  obtain e s1 where add: "call_manager (manager_add mv x) s = (e, s1)"
    by (cases "call_manager (manager_add mv x) s")
  obtain s2 where ok: "e = None \<or> is_already_defined (the e)" and pub: "publish_crds xc order s1 = (None, s2)"
    and st: "ext_write_by (WStatus (x\<lparr>ex_status := StatusActive\<rparr>)) (xc_statusUpdate xc (x\<lparr>ex_status := StatusActive\<rparr>)) s2 = (None, s')"
    using assms add by (auto simp: ext_apply_def Let_def split: if_splits prod.splits option.splits)
  from publish_crds_ok[OF pub] obtain ws where ws: "es_manager s2 = es_manager s1" "es_writes s2 = es_writes s1 @ ws"
    "\<forall>d \<in> set order. crd_current xc ws (fst d) (manager_schema (es_manager s1) (cd_kind (snd d)))" by blast
  have "es_manager s' = es_manager s2" "es_writes s' = es_writes s2 @ [WStatus (x\<lparr>ex_status := StatusActive\<rparr>) None]"
    using st by (auto simp: ext_write_by_eq)
  moreover have "manager_add mv x (es_manager s) = (e, es_manager s1)" "es_writes s1 = es_writes s"
    using add by (auto simp: call_manager_def split: prod.splits)
  ultimately show ?thesis using ok ws by (intro exI[of _ e] exI[of _ ws]) simp
qed


text \<open>
  After a successful \<open>RefreshCRD\<close> every resource definition has been written with the schema the
  manager has after adding all listed extensions: updated if it existed, created otherwise.
\<close>

theorem refresh_publishes_schemas:
  assumes "RefreshCRD None mv xc order \<lparr>es_manager = m, es_writes = [], es_world = w\<rparr> = (None, s')"
    and "d \<in> set order"
  shows "(\<exists>c. WUpdateCRD c None \<in> set (es_writes s') \<and>
      crd_schema c = Inr (manager_schema (es_manager s') (cd_kind (snd d)))) \<or>
    WCreateCRD (cd_create (snd d) (fst d) (manager_schema (es_manager s') (cd_kind (snd d)))) None \<in> set (es_writes s')"
proof -
  obtain s2 where "refresh_crds xc order s2 = (None, s')"
    using assms(1) by (auto simp: RefreshCRD_def split: prod.splits sum.splits option.splits)
  from refresh_crds_ok[OF this] assms(2) show ?thesis by (auto; blast)
qed

text \<open>
  Removing an extension does not publish: the reconciliation that removes it from the manager
  writes no resource definition, so its properties stay in the published schemas until another
  extension is reconciled.
\<close>

theorem removal_not_published:
  assumes "xc_get xc key w = (Inr x, w1)" "om_deleting (ex_meta x)" "ext_finalizer \<in> set (om_finalizers (ex_meta x))"
    and "ext_reconcile mv xc order key \<lparr>es_manager = m, es_writes = [], es_world = w\<rparr> = (None, s')"
  shows "mget (em_extensions (es_manager s')) (ex_name x) = None \<and>
    (\<exists>x'. es_writes s' = [WExtension x' None] \<and> ext_finalizer \<notin> set (om_finalizers (ex_meta x')))"
proof -
  let ?s1 = "\<lparr>es_manager = m, es_writes = [], es_world = w1\<rparr>"
  let ?x = "set_finalizers (filter (\<lambda>f. f \<noteq> ext_finalizer) (om_finalizers (ex_meta x))) x"
  have "ext_remove mv xc x ?s1 = (None, s')" using assms by (simp add: ext_reconcile_def)
  then obtain s2 where rm: "call_manager (manager_remove mv x) ?s1 = (None, s2)"
    and wr: "ext_write_by (WExtension ?x) (xc_update xc ?x) s2 = (None, s')"
    using assms(3) by (auto simp: ext_remove_def Let_def split: prod.splits option.splits)
  have "manager_remove mv x m = (None, es_manager s2)" "es_writes s2 = []"
    using rm by (auto simp: call_manager_def split: prod.splits)
  moreover have "es_manager s' = es_manager s2" "es_writes s' = es_writes s2 @ [WExtension ?x None]"
    using wr by (auto simp: ext_write_by_eq)
  ultimately show ?thesis
    using manager_remove_forgets[of mv x m "es_manager s2"] by (auto simp: set_finalizers_def)
qed

text \<open>
  An extension whose properties are already defined is marked active by its reconciliation, yet
  the same conflict makes \<open>RefreshCRD\<close> fail without writing anything when the manager is built again
  from the list of extensions.
\<close>

theorem conflict_active_but_blocks_start:
  assumes "add_listed mv xs \<lparr>es_manager = m, es_writes = [], es_world = w1\<rparr> =
      (None, \<lparr>es_manager = m0, es_writes = [], es_world = w1\<rparr>)"
    and "manager_add mv x m0 = (Some e, m1)" "is_already_defined e"
    and "xc_get xc key w1 = (Inr x, w1)" "\<not> om_deleting (ex_meta x)" "ext_finalizer \<in> set (om_finalizers (ex_meta x))"
    and "publish_crds xc order \<lparr>es_manager = m1, es_writes = [], es_world = w1\<rparr> = (None, s2)"
    and "xc_statusUpdate xc (x\<lparr>ex_status := StatusActive\<rparr>) (es_world s2) = (None, w2)"
    and "xc_list xc w = (Inr (xs @ x # ys), w1)"
  shows "(\<exists>s'. ext_reconcile mv xc order key \<lparr>es_manager = m0, es_writes = [], es_world = w1\<rparr> = (None, s') \<and>
      WStatus (x\<lparr>ex_status := StatusActive\<rparr>) None \<in> set (es_writes s')) \<and>
    (\<exists>s'. RefreshCRD None mv xc order \<lparr>es_manager = m, es_writes = [], es_world = w\<rparr> = (Some e, s') \<and>
      es_writes s' = [])"
proof
  show "\<exists>s'. ext_reconcile mv xc order key \<lparr>es_manager = m0, es_writes = [], es_world = w1\<rparr> = (None, s') \<and>
      WStatus (x\<lparr>ex_status := StatusActive\<rparr>) None \<in> set (es_writes s')"
    using assms(2-8) by (simp add: ext_reconcile_def ext_apply_def call_manager_def ext_write_by_def Let_def)
  have app: "add_listed mv (us @ vs) s = (case add_listed mv us s of (Some e, s1) \<Rightarrow> (Some e, s1) | (None, s1) \<Rightarrow> add_listed mv vs s1)"
    for us vs and s :: "('a, 'b) ext_state"
    by (induction us arbitrary: s) (auto split: prod.splits option.splits)
  have "add_listed mv (xs @ x # ys) \<lparr>es_manager = m, es_writes = [], es_world = w1\<rparr> =
      (Some e, \<lparr>es_manager = m1, es_writes = [], es_world = w1\<rparr>)"
    using assms(1,2) by (simp add: app call_manager_def)
  with assms(9) show "\<exists>s'. RefreshCRD None mv xc order \<lparr>es_manager = m, es_writes = [], es_world = w\<rparr> = (Some e, s') \<and>
      es_writes s' = []"
    by (simp add: RefreshCRD_def)
qed

section \<open>Witnesses\<close>

definition ex_installed :: extension where
  "ex_installed = set_finalizers [ext_finalizer] ex_ingress"

definition ex_leaving :: extension where
  "ex_leaving = ex_installed\<lparr>ex_meta := (ex_meta ex_installed)\<lparr>om_deleting := True\<rparr>\<rparr>"

text \<open>A cluster that holds one extension and definitions without a schema.\<close>

definition ex_cluster :: "extension \<Rightarrow> unit ext_client" where
  "ex_cluster x = \<lparr>xc_get = (\<lambda>key w. (Inr x, w)), xc_list = (\<lambda>w. (Inr [x], w)),
     xc_update = (\<lambda>x w. (None, w)), xc_statusUpdate = (\<lambda>x w. (None, w)),
     xc_getCRD = (\<lambda>name w. (Inr (createAppCRD name None), w)),
     xc_updateCRD = (\<lambda>c w. (None, w)), xc_createCRD = (\<lambda>c w. (None, w))\<rparr>"

lemma ex_installed_simps [simp]:
  "ex_name ex_installed = ''ingress''" "ex_spec ex_installed = ex_spec ex_ingress"
  "om_finalizers (ex_meta ex_installed) = [ext_finalizer]" "om_deleting (ex_meta ex_installed) = False"
  "ex_name ex_leaving = ''ingress''" "ex_spec ex_leaving = ex_spec ex_ingress"
  "om_finalizers (ex_meta ex_leaving) = [ext_finalizer]" "om_deleting (ex_meta ex_leaving) = True"
  by (simp_all add: ex_leaving_def ex_installed_def set_finalizers_def ex_ingress_def ex_extension_def zero_meta_def)

lemma ex_installed_add: "manager_add ex_menv ex_installed ex_manager = (None, snd (manager_add ex_menv ex_installed ex_manager))"
proof -
  have init: "grpc_init ex_installed gc = Inr \<lparr>mg_ext = ex_installed, mg_rootKeys = [''a''], mg_backend = BGrpc (grpc_target gc)\<rparr>" for gc
    by (simp add: grpc_init_def ex_ingress_def ex_extension_def root_keys_def lower_char_def is_upper_letter_def)
  show ?thesis
    unfolding manager_add_def add_target_def ex_installed_simps ex_ingress_simps add_targets.simps addGRPC_def init
    using ex_generator_add[of "es_schema (ex_spec ex_ingress)"]
    by (auto simp: ex_menv_def ex_manager_def Let_def split: prod.splits option.splits)
qed

lemma ex_publish: "\<exists>s'. publish_crds (ex_cluster x) crds \<lparr>es_manager = m, es_writes = ws, es_world = w\<rparr> = (None, s')"
  by (simp add: crds_def ex_cluster_def createAppCRD_def crd_version_of_def crd_schema_def Let_def ext_write_by_def)

lemma ex_installed_run:
  "\<exists>s'. ext_reconcile ex_menv (ex_cluster ex_installed) crds key
     \<lparr>es_manager = ex_manager, es_writes = [], es_world = ()\<rparr> = (None, s')"
proof -
  obtain m1 where add: "manager_add ex_menv ex_installed ex_manager = (None, m1)" using ex_installed_add by blast
  have get: "xc_get (ex_cluster ex_installed) key () = (Inr ex_installed, ())"
    "xc_statusUpdate (ex_cluster ex_installed) y () = (None, ())" for y by (simp_all add: ex_cluster_def)
  obtain s2 where "publish_crds (ex_cluster ex_installed) crds \<lparr>es_manager = m1, es_writes = [], es_world = ()\<rparr> = (None, s2)"
    using ex_publish by blast
  then show ?thesis by (simp add: ext_reconcile_def ext_apply_def call_manager_def add get ext_write_by_def Let_def)
qed


theorem refresh_publishes_schemas_witness:
  "\<exists>s' c. RefreshCRD None ex_menv (ex_cluster ex_installed) [(''works.suffiks.com'', \<lparr>cd_kind = ''Work'', cd_create = createWorkCRD\<rparr>)]
     \<lparr>es_manager = ex_manager, es_writes = [], es_world = ()\<rparr> = (None, s') \<and> es_writes s' = [WUpdateCRD c None]"
proof -
  let ?order = "[(''works.suffiks.com'', \<lparr>cd_kind = ''Work'', cd_create = createWorkCRD\<rparr>)]"
  obtain m1 where add: "manager_add ex_menv ex_installed ex_manager = (None, m1)" using ex_installed_add by blast
  then obtain s' c where run: "RefreshCRD None ex_menv (ex_cluster ex_installed) ?order
     \<lparr>es_manager = ex_manager, es_writes = [], es_world = ()\<rparr> = (None, s')" "es_writes s' = [WUpdateCRD c None]"
    by (simp add: RefreshCRD_def call_manager_def ex_cluster_def createAppCRD_def crd_version_of_def crd_schema_def
        ext_write_by_def Let_def)
  from refresh_publishes_schemas[OF run(1), of "hd ?order"] run show ?thesis by auto
qed

theorem removal_not_published_witness:
  "\<exists>s' x'. ext_reconcile ex_menv (ex_cluster ex_leaving) crds (''ns'', ''web'')
     \<lparr>es_manager = ex_manager, es_writes = [], es_world = ()\<rparr> = (None, s') \<and> es_writes s' = [WExtension x' None]"
proof -
  have get: "xc_get (ex_cluster ex_leaving) (''ns'', ''web'') () = (Inr ex_leaving, ())"
    "xc_update (ex_cluster ex_leaving) y () = (None, ())" for y by (simp_all add: ex_cluster_def)
  have "manager_remove ex_menv ex_leaving ex_manager = (None, snd (manager_remove ex_menv ex_leaving ex_manager))"
    by (simp add: manager_remove_def ex_manager_def generator_remove_def ex_generator_def)
  then obtain m1 where "manager_remove ex_menv ex_leaving ex_manager = (None, m1)" by blast
  then obtain s' where run: "ext_reconcile ex_menv (ex_cluster ex_leaving) crds (''ns'', ''web'')
     \<lparr>es_manager = ex_manager, es_writes = [], es_world = ()\<rparr> = (None, s')"
    by (simp add: ext_reconcile_def ext_remove_def call_manager_def get ext_write_by_def Let_def)
  from removal_not_published[OF get(1) _ _ run] run show ?thesis by auto
qed

lemma ex_conflict_add:
  "\<exists>m1. manager_add ex_menv2 ex_installed ex_applied = (Some (EAlreadyDefined ''image''), m1)"
proof -
  let ?g = "ex_generator\<lparr>g_applied := [(''ingress'', RawNil)]\<rparr>"
  have "generator_add (mv_dec ex_menv2) ?g ''ingress'' (es_schema (ex_spec ex_ingress)) =
      (Some (EAlreadyDefined ''image''), snd (generator_add (mv_dec ex_menv2) ?g ''ingress'' (es_schema (ex_spec ex_ingress))))"
    by (simp add: generator_add_def generator_remove_def ex_menv2_def ex_generator_def ex_ingress_def
        ex_extension_def ex_conflict_def ex_leaf_def spec_of_def props_of_def set_prop_def drop_empty_objects_def
        empty_object_def Let_def)
  then obtain g1 where "generator_add (mv_dec ex_menv2) ?g ''ingress'' (es_schema (ex_spec ex_ingress)) =
      (Some (EAlreadyDefined ''image''), g1)" by blast
  moreover have "mv_dial ex_menv2 a = None" for a by (simp add: ex_menv2_def ex_menv_def)
  ultimately show ?thesis
    by (simp add: manager_add_def add_target_def addGRPC_def ex_applied_def)
qed

theorem conflict_active_but_blocks_start_witness:
  "\<exists>s'. RefreshCRD None ex_menv2 (ex_cluster ex_installed) crds
     \<lparr>es_manager = ex_applied, es_writes = [], es_world = ()\<rparr> = (Some (EAlreadyDefined ''image''), s')"
proof -
  obtain m1 where add: "manager_add ex_menv2 ex_installed ex_applied = (Some (EAlreadyDefined ''image''), m1)"
    using ex_conflict_add by blast
  obtain s2 where pub: "publish_crds (ex_cluster ex_installed) crds \<lparr>es_manager = m1, es_writes = [], es_world = ()\<rparr> = (None, s2)"
    using ex_publish by blast
  show ?thesis
    using conflict_active_but_blocks_start[where xs = "[]" and ys = "[]" and x = ex_installed and m = ex_applied and w = "()"
        and ?w2.0 = "()", OF _ add _ _ _ _ pub]
    by (auto simp: ex_cluster_def)
qed

end
