(* ===== verification/Wasi_Facts.thy ===== *)
theory Wasi_Facts
  imports Wasi_Runner
begin

text \<open>
  What the host guarantees of a guest: which cluster operations it can cause, what its responses
  are, and which host functions fail in which call.
\<close>

section \<open>Confinement\<close>

text \<open>
  Two dynamic clients that do the same on the resources declared for the extension, in one
  namespace. What they do elsewhere is unrelated.
\<close>

definition declares :: "wasi_resource list \<Rightarrow> gvr \<Rightarrow> string \<Rightarrow> bool" where
  "declares rs g meth \<longleftrightarrow> (\<exists>r \<in> set rs. wr_group r = gv_group g \<and> wr_version r = gv_version g \<and>
     wr_resource r = gv_resource g \<and> meth \<in> set (wr_methods r))"

definition same_inside :: "wasi_resource list \<Rightarrow> string \<Rightarrow> 'w dyn \<Rightarrow> 'w dyn \<Rightarrow> bool" where
  "same_inside rs ns d d' \<longleftrightarrow>
     (\<forall>g. (declares rs g ''get'' \<longrightarrow> dy_get d g ns = dy_get d' g ns) \<and>
          (declares rs g ''delete'' \<longrightarrow> dy_delete d g ns = dy_delete d' g ns) \<and>
          (declares rs g ''create'' \<longrightarrow> dy_create d g ns = dy_create d' g ns) \<and>
          (declares rs g ''update'' \<longrightarrow> dy_update d g ns = dy_update d' g ns))"

definition confined_runner :: "wasi_resource list \<Rightarrow> string \<Rightarrow> runner \<Rightarrow> bool" where
  "confined_runner rs ns r \<longleftrightarrow> rn_permissions r = Some (permissions_of rs) \<and>
     (\<forall>n. owner_namespace r = Some n \<longrightarrow> n = ns)"

lemma confined_same: "confined_runner rs ns r \<Longrightarrow> same_request r r' \<Longrightarrow> confined_runner rs ns r'"
  by (simp add: confined_runner_def same_request_def owner_namespace_def)

lemma allowed_declares:
  "\<forall>r \<in> set rs. declared_ok r \<Longrightarrow>
   isAllowed (Some (permissions_of rs)) g meth = None \<Longrightarrow> declares rs g meth"
proof -
  assume ok: "\<forall>r \<in> set rs. declared_ok r" and a: "isAllowed (Some (permissions_of rs)) g meth = None"
  then obtain r m where r: "r \<in> set rs" "m \<in> set (wr_methods r)"
    and key: "gv_group g @ ''/'' @ gv_version g @ ''/'' @ gv_resource g @ ''.'' @ meth =
      wasi_resource_string r @ ''.'' @ m"
    by (auto simp: isAllowed_def permissions_of_def split: if_splits)
  from permission_key_inj[OF key] ok r show "declares rs g meth" by (auto simp: declares_def)
qed

lemma putResource_confined:
  assumes "\<forall>r \<in> set rs. declared_ok r" "confined_runner rs ns r"
    and "\<And>gv. declares rs gv meth \<Longrightarrow> put gv ns = put' gv ns"
  shows "putResource meth put g c is_err p n q k r m w = putResource meth put' g c is_err p n q k r m w"
  using assms allowed_declares[OF assms(1)]
  by (auto simp: putResource_def confined_runner_def split: sum.splits option.splits)

lemma getResource_confined:
  assumes "\<forall>r \<in> set rs. declared_ok r" "confined_runner rs ns r"
    and "\<And>gv. declares rs gv ''get'' \<Longrightarrow> dy_get d gv ns = dy_get d' gv ns"
  shows "getResource g c is_err d p n q k r m w = getResource g c is_err d' p n q k r m w"
  using assms allowed_declares[OF assms(1)]
  by (auto simp: getResource_def confined_runner_def split: sum.splits option.splits)

lemma deleteResource_confined:
  assumes "\<forall>r \<in> set rs. declared_ok r" "confined_runner rs ns r"
    and "\<And>gv. declares rs gv ''delete'' \<Longrightarrow> dy_delete d gv ns = dy_delete d' gv ns"
  shows "deleteResource g c is_err d p n q k r m w = deleteResource g c is_err d' p n q k r m w"
  using assms allowed_declares[OF assms(1)]
  by (auto simp: deleteResource_def confined_runner_def split: sum.splits option.splits)

lemma host_step_confined:
  assumes "\<forall>r \<in> set rs. declared_ok r" "confined_runner rs ns r" "same_inside rs ns d d'"
  shows "host_step g c is_err d hc (r, m, w) = host_step g c is_err d' hc (r, m, w)"
proof (cases hc)
  case (CreateResource p n q k)
  with assms show ?thesis
    by (simp add: createResource_def same_inside_def
        putResource_confined[where put = "dy_create d" and put' = "dy_create d'"])
next
  case (UpdateResource p n q k)
  with assms show ?thesis
    by (simp add: updateResource_def same_inside_def
        putResource_confined[where put = "dy_update d" and put' = "dy_update d'"])
next
  case (DeleteResource p n q k)
  with assms show ?thesis by (simp add: same_inside_def deleteResource_confined[where d = d and d' = d'])
next
  case (GetResource p n q k)
  with assms show ?thesis by (simp add: same_inside_def getResource_confined[where d = d and d' = d'])
qed simp_all

text \<open>
  C28: A guest is confined: whatever it does, only the operations its extension declares, in the
  namespace of the object it is called for, can have an effect on it or on the cluster. Replacing
  every other operation of the cluster client by anything else changes nothing.
\<close>

theorem guest_confined:
  assumes "\<forall>r \<in> set rs. declared_ok r" "confined_runner rs ns r" "same_inside rs ns d d'"
  shows "run_guest g c is_err d prog (r, m, w) = run_guest g c is_err d' prog (r, m, w)"
  using assms(2)
proof (induction prog arbitrary: r m w)
  case (GCall hc upd k)
  obtain x r1 m1 w1 where s: "host_step g c is_err d hc (r, m, w) = (x, r1, m1, w1)"
    by (metis prod_cases4)
  then have s': "host_step g c is_err d' hc (r, m, w) = (x, r1, m1, w1)"
    by (simp add: host_step_confined[OF assms(1) GCall.prems assms(3), symmetric])
  have "confined_runner rs ns r1"
    using GCall.prems host_step_same[OF s] by (rule confined_same)
  with GCall.IH[OF rangeI rangeI] s s' show ?case by (cases x) auto
qed simp_all

section \<open>The context of a call\<close>

text \<open>
  While a validation runs there is no sync request, and then the resource functions cannot be
  used: each of them answers Forbidden or panics, and none touches the cluster.
\<close>

theorem resources_fail_in_validation:
  assumes "rn_syncRequest r = None"
    and "hc \<in> {GetResource p n q k, DeleteResource p n q k, CreateResource p n q k, UpdateResource p n q k}"
    and "host_step g c is_err d hc (r, m, w) = (x, r', m', w')"
  shows "w' = w \<and> m' = m \<and>
    ((\<exists>e. x = HPanic e) \<or>
     x = HOk (client_error_word (toClientError is_err
           (EApi RForbidden ''extension is not configured to access this resource''))))"
proof -
  have ns: "owner_namespace r = None" using assms(1) by (simp add: owner_namespace_def)
  show ?thesis
    using assms(2,3) ns
    by (auto simp: getResource_def deleteResource_def createResource_def updateResource_def
        putResource_def error_reply_def isAllowed_def
        split: sum.splits option.splits if_splits prod.splits)
qed

text \<open>
  The answer 0 of \<open>deleteResource\<close> is ambiguous: it means the resource was deleted, and it
  also means that the deletion failed with an error none of the tests of \<open>toClientError\<close> knows.
\<close>

theorem delete_answer_zero:
  assumes "unmarshalProto g (cd_gvr c) p n m = Inr gv"
    and "isAllowed (rn_permissions r) gv ''delete'' = None"
    and "gm_read g q k m = Some nameb" "owner_namespace r = Some ns"
    and "dy_delete d gv ns (cd_text c nameb) w = (outcome, w1)"
  shows "fst (deleteResource g c is_err d p n q k r m w) = HOk 0 \<longleftrightarrow>
    (case outcome of None \<Rightarrow> True | Some e \<Rightarrow> \<forall>check. \<not> is_err e check)"
  using assms toClientError_unknown[of is_err]
  by (auto simp: deleteResource_def error_reply_def client_error_word_0 split: option.splits)

section \<open>Messages\<close>

text \<open>The guest's responses are only ever appended.\<close>

definition msgs_grow :: "runner \<Rightarrow> runner \<Rightarrow> bool" where
  "msgs_grow r r' \<longleftrightarrow> (case rn_msgs r of None \<Rightarrow> rn_msgs r' = None
     | Some ms \<Rightarrow> (\<exists>new. rn_msgs r' = Some (ms @ new)))"

lemma msgs_grow_simps [simp]: "msgs_grow r r" "msgs_grow r (r\<lparr>rn_validationErrors := es\<rparr>)"
  by (auto simp: msgs_grow_def split: option.splits)

lemma msgs_grow_trans: "msgs_grow r s \<Longrightarrow> msgs_grow s t \<Longrightarrow> msgs_grow r t"
  by (auto simp: msgs_grow_def split: option.splits)

lemma send_msg_grow: "send_msg x r = (y, r') \<Longrightarrow> msgs_grow r r'"
  by (auto simp: send_msg_def msgs_grow_def split: option.splits)

lemma send_decoded_grow: "send_decoded g dec f p n r m = (y, r') \<Longrightarrow> msgs_grow r r'"
  by (auto simp: send_decoded_def split: sum.splits dest: send_msg_grow)

lemma host_step_grow: "host_step g c is_err d hc (r, m, w) = (y, r', m', w') \<Longrightarrow> msgs_grow r r'"
  by (cases hc)
    (auto simp: add_defs hostMergePatch_def hostValidationError_def
      split: prod.splits option.splits sum.splits dest: send_decoded_grow send_msg_grow)

lemma run_guest_grow:
  "run_guest g c is_err d prog (r, m, w) = (e, r', m', w') \<Longrightarrow> msgs_grow r r'"
proof (induction prog arbitrary: r m w)
  case (GCall hc upd k)
  obtain x r1 m1 w1 where s: "host_step g c is_err d hc (r, m, w) = (x, r1, m1, w1)"
    by (metis prod_cases4)
  show ?case
  proof (cases x)
    case (HOk v)
    with GCall.prems s have "run_guest g c is_err d (k v m1) (r1, upd v m1, w1) = (e, r', m', w')"
      by simp
    then have "msgs_grow r1 r'" using GCall.IH[of "k v" "k v m1"] by blast
    with host_step_grow[OF s] show ?thesis by (rule msgs_grow_trans)
  qed (use GCall.prems s host_step_grow[OF s] in auto)
qed auto

text \<open>
  Outside a sync there is no response channel, and a guest that adds to the response (an
  environment variable, label, annotation, container or merge patch) while it validates, defaults
  or deletes blocks the host forever: the call never ends, not even with an error.
\<close>

theorem add_outside_sync_blocks:
  assumes "rn_msgs r = None"
    and "gm_read g p n m = Some b" "cd_keyValue c b = Inr kv"
    and "hc \<in> {AddEnv p n, AddLabel p n, AddAnnotation p n, MergePatch p n}"
  shows "run_guest g c is_err d (GCall hc upd k) (r, m, w) = (CBlocked, r, m, w)"
  using assms
  by (auto simp: addEnv_def addLabel_def addAnnotation_def send_decoded_def unmarshalProto_def
      send_msg_def hostMergePatch_def)

text \<open>A guest that adds a list of key-values as labels and returns.\<close>

fun label_prog :: "(32 word \<times> 32 word) list \<Rightarrow> 'm prog" where
  "label_prog [] = GReturn []"
| "label_prog ((p, n) # rest) = GCall (AddLabel p n) (\<lambda>_ m. m) (\<lambda>_ _. label_prog rest)"

lemma label_prog_run:
  assumes "\<forall>(p, n) \<in> set ps. \<exists>b. gm_read g p n m = Some b \<and> cd_keyValue c b = Inr (kv (p, n))"
    and "rn_msgs r = Some ms"
  shows "run_guest g c is_err d (label_prog ps) (r, m, w) =
    (CReturn [], r\<lparr>rn_msgs := Some (ms @ map (RLabel \<circ> kv) ps)\<rparr>, m, w)"
  using assms
proof (induction ps arbitrary: r ms)
  case (Cons pn ps)
  obtain p n where pn: "pn = (p, n)" by (cases pn)
  with Cons.prems have "host_step g c is_err d (AddLabel p n) (r, m, w) =
      (HOk 0, r\<lparr>rn_msgs := Some (ms @ [RLabel (kv (p, n))])\<rparr>, m, w)"
    by (auto simp: addLabel_def send_decoded_def unmarshalProto_def send_msg_def)
  then show ?case
    using Cons.IH[of "r\<lparr>rn_msgs := Some (ms @ [RLabel (kv (p, n))])\<rparr>" "ms @ [RLabel (kv (p, n))]"] Cons.prems
    by (simp add: pn)
qed simp


section \<open>Concrete cases\<close>

definition ex_codec :: codec where
  "ex_codec =
     \<lparr>cd_keyValue = (\<lambda>b. Inr \<lparr>kv_name = ''team'', kv_value = ''a''\<rparr>),
      cd_envFrom = (\<lambda>b. Inl EEOF), cd_container = (\<lambda>b. Inr JNull),
      cd_validationError = (\<lambda>b. Inr \<lparr>ve_path = ''spec'', ve_detail = ''bad'', ve_value = ''''\<rparr>),
      cd_gvr = (\<lambda>b. Inr \<lparr>gv_group = ''networking.k8s.io'', gv_version = ''v1'', gv_resource = ''ingresses''\<rparr>),
      cd_deleteResponse = (\<lambda>b. Inr \<lparr>dr_error = ''''\<rparr>), cd_owner = (\<lambda>ow. Inr [1]),
      cd_payload = (\<lambda>b. RawNil), cd_bytes = (\<lambda>r. []), cd_text = (\<lambda>b. ''x''),
      cd_resource = (\<lambda>b. Inr JNull), cd_resourceBytes = (\<lambda>j. Inr [2]), cd_configMap = (\<lambda>j. Inr [])\<rparr>"

definition ex_runner :: runner where
  "ex_runner = \<lparr>rn_name = ''ingress'', rn_version = ''1'', rn_validationRequest = None,
     rn_syncRequest = Some \<lparr>sr_owner = Some \<lparr>ow_kind = ''Application'', ow_name = ''web'',
       ow_namespace = ''ns'', ow_apiVersion = ''v1'', ow_uid = ''u'', ow_labels = [],
       ow_annotations = [], ow_revisionID = ''''\<rparr>, sr_spec = RawNil\<rparr>,
     rn_permissions = Some (permissions_of [ex_ingresses]), rn_configMap = None,
     rn_msgs = None, rn_validationErrors = []\<rparr>"

text \<open>A world that counts the requests it has seen; \<open>k\<close> is how much an undeclared one counts.\<close>

definition ex_dyn :: "nat \<Rightarrow> nat dyn" where
  "ex_dyn k =
     \<lparr>dy_get = (\<lambda>g ns n w. (Inr JNull, if gv_resource g = ''ingresses'' then w + 1 else w + k)),
      dy_delete = (\<lambda>g ns n w. (Some EEOF, w + k)),
      dy_create = (\<lambda>g ns j w. (Inr JNull, if gv_resource g = ''ingresses'' then w + 1 else w + k)),
      dy_update = (\<lambda>g ns j w. (Inr JNull, w + k))\<rparr>"

lemma ex_declared: "\<forall>r \<in> set [ex_ingresses]. declared_ok r"
  by (simp add: ex_ingresses_def declared_ok_def)

theorem guest_confined_witness:
  "run_guest ex_guest ex_codec (\<lambda>e c. False) (ex_dyn 5)
     (GCall (DeleteResource 0 1 0 1) (\<lambda>_ m. m) (\<lambda>_ _. GReturn [])) (ex_runner, [0, 0, 0], 0) =
   run_guest ex_guest ex_codec (\<lambda>e c. False) (ex_dyn 9)
     (GCall (DeleteResource 0 1 0 1) (\<lambda>_ m. m) (\<lambda>_ _. GReturn [])) (ex_runner, [0, 0, 0], 0)"
proof -
  have "confined_runner [ex_ingresses] ''ns'' ex_runner"
    by (simp add: confined_runner_def ex_runner_def owner_namespace_def)
  moreover have "same_inside [ex_ingresses] ''ns'' (ex_dyn 5) (ex_dyn 9)"
    by (auto simp: same_inside_def declares_def ex_ingresses_def ex_dyn_def)
  ultimately show ?thesis by (rule guest_confined[OF ex_declared])
qed

theorem resources_fail_in_validation_witness:
  "\<exists>e. fst (host_step ex_guest ex_codec (\<lambda>e c. False) (ex_dyn 1) (GetResource 0 1 0 1)
     (ex_runner\<lparr>rn_syncRequest := None\<rparr>, [0, 0, 0], 0)) = HPanic e"
  using resources_fail_in_validation[where r = "ex_runner\<lparr>rn_syncRequest := None\<rparr>"
      and hc = "GetResource 0 1 0 1" and p = 0 and n = 1 and q = 0 and k = 1 and g = ex_guest
      and c = ex_codec and is_err = "\<lambda>e c. False" and d = "ex_dyn 1" and m = "[0, 0, 0]" and w = 0
      and x = "HPanic nil_deref" and r' = "ex_runner\<lparr>rn_syncRequest := None\<rparr>" and m' = "[0, 0, 0]" and w' = 0]
  by (simp add: getResource_def unmarshalProto_def ex_guest_def ex_codec_def isAllowed_def ex_runner_def
      permissions_of_def ex_ingresses_def wasi_resource_string_def owner_namespace_def)

definition ex_deleter :: runner where
  "ex_deleter = ex_runner\<lparr>rn_permissions := Some [''networking.k8s.io/v1/ingresses.delete'']\<rparr>"

theorem delete_answer_zero_witness:
  "fst (deleteResource ex_guest ex_codec (\<lambda>e c. False) (ex_dyn 1) 0 1 0 1 ex_deleter [0, 0, 0] 0) = HOk 0"
  using delete_answer_zero[where g = ex_guest and c = ex_codec and p = 0 and n = 1 and q = 0 and k = 1
      and m = "[0, 0, 0]" and r = ex_deleter and d = "ex_dyn 1" and w = 0 and ?w1.0 = 1 and ns = "''ns''"
      and nameb = "[0]" and outcome = "Some EEOF" and is_err = "\<lambda>e c. False"
      and gv = "\<lparr>gv_group = ''networking.k8s.io'', gv_version = ''v1'', gv_resource = ''ingresses''\<rparr>"]
  by (simp add: unmarshalProto_def ex_guest_def ex_codec_def isAllowed_def ex_deleter_def ex_runner_def
      owner_namespace_def ex_dyn_def)

theorem add_outside_sync_blocks_witness:
  "fst (run_guest ex_guest ex_codec (\<lambda>e c. False) (ex_dyn 1)
     (GCall (AddLabel 0 1) (\<lambda>_ m. m) (\<lambda>_ _. GReturn [])) (ex_runner, [0, 0, 0], 0)) = CBlocked"
  using add_outside_sync_blocks[where r = ex_runner and g = ex_guest and p = 0 and n = 1
      and m = "[0, 0, 0]" and b = "[0]" and c = ex_codec and kv = "\<lparr>kv_name = ''team'', kv_value = ''a''\<rparr>"
      and hc = "AddLabel 0 1" and is_err = "\<lambda>e c. False" and d = "ex_dyn 1" and upd = "\<lambda>_ m. m"
      and k = "\<lambda>_ _. GReturn []" and w = 0]
  by (simp add: ex_runner_def ex_guest_def ex_codec_def)

definition ex_module :: "byte list guest_module" where
  "ex_module = \<lparr>mod_start = (\<lambda>env. Inr [0, 0, 0]), mod_validate = (\<lambda>t m. GReturn []),
     mod_defaulting = (\<lambda>m. GReturn [0]), mod_sync = (\<lambda>m. label_prog [(0, 1)]),
     mod_delete = (\<lambda>m. GReturn [0])\<rparr>"


end
