(* ===== verification/Docs_Convert.thy ===== *)
theory Docs_Convert
  imports Prelude
begin

text \<open>
  \<open>internal/docparser/parser.go\<close> and \<open>adomnition.go\<close>: turning the syntax tree of a markdown page
  into the tokens of the documentation server, and the block parser for admonitions.
\<close>

section \<open>Syntax trees and tokens\<close>

text \<open>
  The nodes of the markdown library that the converter knows, each with the attributes it reads
  (\<open>n.Text(source)\<close> is an attribute); any other kind of node is \<open>KOther\<close>.
\<close>

datatype node_kind =
    KDocument
  | KHeading int
  | KText string
  | KTextBlock string
  | KParagraph
  | KCodeSpan string
  | KFencedCodeBlock string "string list"
  | KLink string string
  | KList bool int bool
  | KListItem int
  | KAdmonition string string
  | KOther string

datatype ast = Node (node_kind: node_kind) (children: "ast list")

text \<open>The types that embed \<open>TokenBase\<close>, without their children.\<close>

datatype token_kind =
    TDocument
  | THeading int
  | TParagraph
  | TText string
  | TCodeSpan string
  | TCodeBlock string string
  | TLink string string
  | TList int bool bool
  | TListItem int
  | TAdmonition string string

datatype token = Token (token_kind: token_kind) (tokens: "token list")

text \<open>
  \<open>Token.copy\<close>: every type copies its fields, and \<open>TokenBase.copy\<close> the children. The parent is not
  copied; nothing reads it after the conversion.
\<close>

fun token_copy :: "token \<Rightarrow> token" where
  "token_copy (Token k ts) = Token k (map token_copy ts)"

section \<open>Convert\<close>

text \<open>
  The pointer \<open>root\<close> and the tokens above it are a path: every open token with the children it has
  so far, the innermost first. When the document itself is left, \<open>root\<close> becomes nil; \<open>ds_done\<close>
  then holds the document.
\<close>

record doc_state =
  ds_open :: "(token_kind \<times> token list) list"
  ds_done :: "token option"

datatype walk_status = WalkStop | WalkSkipChildren | WalkContinue

definition doc_start :: doc_state where
  "doc_start = \<lparr>ds_open = [(TDocument, [])], ds_done = None\<rparr>"

text \<open>The token for a node; the text of a code block is the lines put together.\<close>

fun token_of :: "node_kind \<Rightarrow> token_kind option" where
  "token_of (KHeading l) = Some (THeading l)"
| "token_of (KText t) = Some (TText t)"
| "token_of (KTextBlock t) = Some (TText t)"
| "token_of KParagraph = Some TParagraph"
| "token_of (KCodeSpan t) = Some (TCodeSpan t)"
| "token_of (KFencedCodeBlock lang ls) = Some (TCodeBlock lang (concat ls))"
| "token_of (KLink d t) = Some (TLink d t)"
| "token_of (KList ord start tight) = Some (TList start ord tight)"
| "token_of (KListItem off) = Some (TListItem off)"
| "token_of (KAdmonition l t) = Some (TAdmonition l t)"
| "token_of KDocument = None"
| "token_of (KOther s) = None"

text \<open>
  Entering a node. A text that follows a text is added to it, and that text is opened again; a
  document opens nothing; an unknown node is skipped. Otherwise a new token is opened.
\<close>

fun is_text :: "token \<Rightarrow> bool" where
  "is_text (Token (TText t) us) = True"
| "is_text _ = False"

definition append_text :: "token \<Rightarrow> string \<Rightarrow> token" where
  "append_text p t = (case p of Token (TText u) us \<Rightarrow> Token (TText (u @ t)) us | _ \<Rightarrow> p)"

definition enter_node :: "node_kind \<Rightarrow> doc_state \<Rightarrow> walk_status \<times> doc_state" where
  "enter_node n s =
     (case ds_open s of
        [] \<Rightarrow> (WalkStop, s)
      | (k, cs) # fr \<Rightarrow>
          (case n of
             KDocument \<Rightarrow> (WalkContinue, s)
           | KOther x \<Rightarrow> (WalkSkipChildren, s)
           | KText t \<Rightarrow>
               (if cs \<noteq> [] \<and> is_text (last cs)
                then (let p = append_text (last cs) t
                      in (WalkContinue, s\<lparr>ds_open := (token_kind p, tokens p) # (k, butlast cs) # fr\<rparr>))
                else (WalkContinue, s\<lparr>ds_open := (TText t, []) # (k, cs) # fr\<rparr>))
           | _ \<Rightarrow>
               (case token_of n of
                  None \<Rightarrow> (WalkSkipChildren, s)
                | Some tk \<Rightarrow> (WalkContinue, s\<lparr>ds_open := (tk, []) # (k, cs) # fr\<rparr>))))"

text \<open>Leaving a node: \<open>root = root.parent()\<close>.\<close>

definition leave_node :: "node_kind \<Rightarrow> doc_state \<Rightarrow> walk_status \<times> doc_state" where
  "leave_node n s =
     (case ds_open s of
        [] \<Rightarrow> (WalkStop, s)
      | [(k, cs)] \<Rightarrow> (WalkStop, s\<lparr>ds_open := [], ds_done := Some (Token k cs)\<rparr>)
      | (k, cs) # (k2, cs2) # fr \<Rightarrow>
          (if n = KDocument then WalkStop else WalkContinue,
           s\<lparr>ds_open := (k2, cs2 @ [Token k cs]) # fr\<rparr>))"

text \<open>
  \<open>ast.Walk\<close> of the markdown library: depth first, the callback is called before and after the
  children, and a \<open>WalkStop\<close> ends the walk. Whether a node whose children were skipped is left, the
  library does not document: \<open>leave_skipped\<close>.
\<close>

fun walk :: "bool \<Rightarrow> ast \<Rightarrow> doc_state \<Rightarrow> walk_status \<times> doc_state"
and walk_all :: "bool \<Rightarrow> ast list \<Rightarrow> doc_state \<Rightarrow> walk_status \<times> doc_state" where
  "walk leave_skipped (Node n cs) s =
     (case enter_node n s of
        (WalkStop, s1) \<Rightarrow> (WalkStop, s1)
      | (WalkSkipChildren, s1) \<Rightarrow> (if leave_skipped then leave_node n s1 else (WalkContinue, s1))
      | (WalkContinue, s1) \<Rightarrow>
          (case walk_all leave_skipped cs s1 of
             (WalkStop, s2) \<Rightarrow> (WalkStop, s2)
           | (_, s2) \<Rightarrow> leave_node n s2))"
| "walk_all leave_skipped [] s = (WalkContinue, s)"
| "walk_all leave_skipped (c # cs) s =
     (case walk leave_skipped c s of
        (WalkStop, s1) \<Rightarrow> (WalkStop, s1)
      | (_, s1) \<Rightarrow> walk_all leave_skipped cs s1)"

text \<open>The document at the end: what is still open is closed.\<close>

fun close_all :: "(token_kind \<times> token list) list \<Rightarrow> token" where
  "close_all [] = Token TDocument []"
| "close_all [(k, cs)] = Token k cs"
| "close_all ((k, cs) # (k2, cs2) # fr) = close_all ((k2, cs2 @ [Token k cs]) # fr)"

definition doc_of :: "doc_state \<Rightarrow> token" where
  "doc_of s = (case ds_done s of Some d \<Rightarrow> d | None \<Rightarrow> close_all (ds_open s))"

text \<open>\<open>fix\<close>: a text with children loses its own text.\<close>

fun fix_tokens :: "token \<Rightarrow> token" where
  "fix_tokens (Token k ts) =
     Token (case k of TText t \<Rightarrow> TText (if ts \<noteq> [] then '''' else t) | _ \<Rightarrow> k) (map fix_tokens ts)"

definition convert :: "bool \<Rightarrow> ast \<Rightarrow> token" where
  "convert leave_skipped n = fix_tokens (doc_of (snd (walk leave_skipped n doc_start)))"

section \<open>Admonitions\<close>

text \<open>
  \<open>bytes.TrimSpace\<close>: the white space of Unicode as it is encoded in UTF-8.
\<close>

definition utf8_spaces :: "string list" where
  "utf8_spaces = map (\<lambda>b. [char_of b]) [9::nat, 10, 11, 12, 13, 32] @
     [map char_of [0xC2::nat, 0x85], map char_of [0xC2::nat, 0xA0], map char_of [0xE1::nat, 0x9A, 0x80]] @
     map (\<lambda>b. map char_of [0xE2, 0x80, b]) ([0x80::nat ..< 0x8B] @ [0xA8, 0xA9, 0xAF]) @
     [map char_of [0xE2::nat, 0x81, 0x9F], map char_of [0xE3::nat, 0x80, 0x80]]"

definition starts_with :: "string \<Rightarrow> string \<Rightarrow> bool" where
  "starts_with p s \<longleftrightarrow> take (length p) s = p"

lemma utf8_spaces_nonempty: "p \<in> set utf8_spaces \<Longrightarrow> p \<noteq> ''''"
  by (auto simp: utf8_spaces_def)

function trim_left_with :: "string list \<Rightarrow> string \<Rightarrow> string" where
  "trim_left_with ps s =
     (case find (\<lambda>p. p \<noteq> '''' \<and> starts_with p s) ps of
        None \<Rightarrow> s
      | Some p \<Rightarrow> trim_left_with ps (drop (length p) s))"
  by pat_completeness auto
termination
proof (relation "measure (\<lambda>(ps, s). length s)")
  fix ps :: "string list" and s p :: string
  assume "find (\<lambda>p. p \<noteq> '''' \<and> starts_with p s) ps = Some p"
  then have "p \<noteq> ''''" "take (length p) s = p" by (auto simp: find_Some_iff starts_with_def)
  then have "s \<noteq> ''''" "length p > 0" by auto
  then show "((ps, drop (length p) s), ps, s) \<in> measure (\<lambda>(ps, s). length s)" by simp
qed simp

declare trim_left_with.simps [simp del]

definition trim_space :: "string \<Rightarrow> string" where
  "trim_space s = rev (trim_left_with (map rev utf8_spaces) (rev (trim_left_with utf8_spaces s)))"

definition fence :: string where "fence = ''!!!''"

text \<open>\<open>Trigger\<close> is a list of bytes: \<open>Open\<close> is called on every line that starts with one of them.\<close>

definition admonition_trigger :: "string \<Rightarrow> bool" where
  "admonition_trigger line \<longleftrightarrow> line \<noteq> '''' \<and> hd line \<in> set fence"

text \<open>\<open>Open\<close>: nil for a bare fence, else a node with level and title.\<close>

definition admonition_open :: "string \<Rightarrow> (string \<times> string) option" where
  "admonition_open line =
     (if trim_space line = fence then None
      else (let res = trim_space line;
                res1 = trim_space (if starts_with fence res then drop (length fence) res else res);
                parts = split_on (CHR '' '') res1
            in Some (if length parts > 0 then hd parts else ''info'',
                     if length parts > 1 then join_with '' '' (tl parts) else '''')))"

text \<open>\<open>Continue\<close>: whether the block goes on with this line.\<close>

definition admonition_continue :: "string \<Rightarrow> bool" where
  "admonition_continue line \<longleftrightarrow> trim_space line = fence"

section \<open>The converter against a structural one\<close>

text \<open>What a tree of known nodes should become: the tokens follow the tree, adjacent texts merged.\<close>

fun conv_into :: "token list \<Rightarrow> ast \<Rightarrow> token list" where
  "conv_into cs (Node n ns) =
     (case token_of n of
        None \<Rightarrow> cs
      | Some tk \<Rightarrow>
          (case n of
             KText t \<Rightarrow>
               (if cs \<noteq> [] \<and> is_text (last cs)
                then (let p = append_text (last cs) t
                      in butlast cs @ [Token (token_kind p) (foldl conv_into (tokens p) ns)])
                else cs @ [Token tk (foldl conv_into [] ns)])
           | _ \<Rightarrow> cs @ [Token tk (foldl conv_into [] ns)]))"

fun known :: "ast \<Rightarrow> bool" where
  "known (Node n ns) \<longleftrightarrow> token_of n \<noteq> None \<and> (\<forall>m \<in> set ns. known m)"

lemma enter_known:
  assumes "token_of n = Some tk" "ds_open s = (k, cs) # fr"
  shows "\<exists>k1 cs1 cs0. enter_node n s = (WalkContinue, s\<lparr>ds_open := (k1, cs1) # (k, cs0) # fr\<rparr>) \<and>
    (\<forall>ns. conv_into cs (Node n ns) = cs0 @ [Token k1 (foldl conv_into cs1 ns)])"
proof (cases "\<exists>t. n = KText t \<and> cs \<noteq> [] \<and> is_text (last cs)")
  case True
  then obtain t where t: "n = KText t" "cs \<noteq> []" "is_text (last cs)" by blast
  then show ?thesis using assms
    by (intro exI[of _ "token_kind (append_text (last cs) t)"] exI[of _ "tokens (append_text (last cs) t)"]
        exI[of _ "butlast cs"]) (simp add: enter_node_def Let_def)
next
  case False
  then show ?thesis using assms
    by (intro exI[of _ tk] exI[of _ "[]"] exI[of _ cs]) (cases n; auto simp: enter_node_def Let_def)
qed

lemma walk_known:
  "known a \<Longrightarrow> ds_open s = (k, cs) # fr \<Longrightarrow>
     walk b a s = (WalkContinue, s\<lparr>ds_open := (k, conv_into cs a) # fr\<rparr>)"
  "(\<forall>a \<in> set as. known a) \<Longrightarrow> ds_open s = (k, cs) # fr \<Longrightarrow>
     walk_all b as s = (WalkContinue, s\<lparr>ds_open := (k, foldl conv_into cs as) # fr\<rparr>)"
proof (induction b a s and b as s arbitrary: k cs fr and k cs fr rule: walk_walk_all.induct)
  case (1 b n ns s)
  obtain tk where tk: "token_of n = Some tk" using 1(2) by auto
  obtain k1 cs1 cs0 where en: "enter_node n s = (WalkContinue, s\<lparr>ds_open := (k1, cs1) # (k, cs0) # fr\<rparr>)"
    and conv: "conv_into cs (Node n ns) = cs0 @ [Token k1 (foldl conv_into cs1 ns)]"
    using enter_known[OF tk 1(3)] by blast
  have "walk_all b ns (s\<lparr>ds_open := (k1, cs1) # (k, cs0) # fr\<rparr>) =
      (WalkContinue, s\<lparr>ds_open := (k1, foldl conv_into cs1 ns) # (k, cs0) # fr\<rparr>)"
    using 1(1)[OF en[symmetric] refl, of k1 cs1 "(k, cs0) # fr"] 1(2) by simp
  moreover have "n \<noteq> KDocument" using tk by auto
  ultimately show ?case unfolding walk.simps en conv by (simp add: leave_node_def)
next
  case (3 b c cs' s)
  then show ?case by simp
qed simp

lemma convert_known:
  assumes "\<forall>a \<in> set ns. known a"
  shows "convert b (Node KDocument ns) = fix_tokens (Token TDocument (foldl conv_into [] ns))"
proof -
  have "enter_node KDocument doc_start = (WalkContinue, doc_start)" by (simp add: enter_node_def doc_start_def)
  moreover have "walk_all b ns doc_start = (WalkContinue, doc_start\<lparr>ds_open := [(TDocument, foldl conv_into [] ns)]\<rparr>)"
    by (rule walk_known(2)[OF assms]) (simp add: doc_start_def)
  ultimately show ?thesis by (simp add: convert_def leave_node_def doc_of_def)
qed

text \<open>
  C37: The conversion follows the structure of the page: for a tree of known nodes the callbacks, with
  their pointer that is moved up and down, produce exactly the tokens of a structural recursion,
  adjacent texts merged into one.
\<close>

theorem convert_is_structural:
  assumes "\<forall>a \<in> set ns. known a"
  shows "convert b (Node KDocument ns) = fix_tokens (Token TDocument (foldl conv_into [] ns))"
  by (rule convert_known[OF assms])

lemma enter_simps:
  "ds_open s = (k, cs) # fr \<Longrightarrow> enter_node KDocument s = (WalkContinue, s)"
  "ds_open s = (k, cs) # fr \<Longrightarrow> enter_node (KOther x) s = (WalkSkipChildren, s)"
  "ds_open s = (k, cs) # fr \<Longrightarrow>
     enter_node KParagraph s = (WalkContinue, s\<lparr>ds_open := (TParagraph, []) # (k, cs) # fr\<rparr>)"
  "enter_node KDocument doc_start = (WalkContinue, doc_start)"
  by (simp_all add: enter_node_def doc_start_def)

lemma leave_simps:
  "ds_open s = [(k, cs)] \<Longrightarrow> leave_node n s = (WalkStop, s\<lparr>ds_open := [], ds_done := Some (Token k cs)\<rparr>)"
  "ds_open s = (k, cs) # (k2, cs2) # fr \<Longrightarrow> n \<noteq> KDocument \<Longrightarrow>
     leave_node n s = (WalkContinue, s\<lparr>ds_open := (k2, cs2 @ [Token k cs]) # fr\<rparr>)"
  by (simp_all add: leave_node_def)

lemma walk_all_append:
  "walk_all b (xs @ ys) s =
   (case walk_all b xs s of (WalkStop, s1) \<Rightarrow> (WalkStop, s1) | (_, s1) \<Rightarrow> walk_all b ys s1)"
  by (induction xs arbitrary: s) (auto split: prod.splits walk_status.splits)

text \<open>
  An unknown node cuts the page off: if the walk leaves a node whose children were skipped, as it
  enters it, the pointer goes up one token too many, and everything after an unknown block, or after
  the paragraph with an unknown inline node (emphasis, an image, raw HTML), is lost.
\<close>

theorem unknown_node_truncates:
  assumes "\<forall>a \<in> set ns. known a" "\<forall>a \<in> set ms. known a"
  shows "convert True (Node KDocument (ns @ Node (KOther x) us # rest)) = convert True (Node KDocument ns) \<and>
    convert True (Node KDocument (ns @ Node KParagraph (ms @ [Node (KOther x) us]) # rest)) =
      convert True (Node KDocument (ns @ [Node KParagraph ms]))"
proof
  let ?cs = "foldl conv_into [] ns"
  have ns: "walk_all True ns doc_start = (WalkContinue, doc_start\<lparr>ds_open := [(TDocument, ?cs)]\<rparr>)"
    by (rule walk_known(2)[OF assms(1)]) (simp add: doc_start_def)
  show "convert True (Node KDocument (ns @ Node (KOther x) us # rest)) = convert True (Node KDocument ns)"
    by (simp add: convert_def walk_all_append ns enter_simps leave_simps doc_of_def)
  have ms: "walk_all True ms (doc_start\<lparr>ds_open := [(TParagraph, []), (TDocument, ?cs)]\<rparr>) =
      (WalkContinue, doc_start\<lparr>ds_open := [(TParagraph, foldl conv_into [] ms), (TDocument, ?cs)]\<rparr>)"
    using walk_known(2)[OF assms(2), of "doc_start\<lparr>ds_open := [(TParagraph, []), (TDocument, ?cs)]\<rparr>" TParagraph "[]"
        "[(TDocument, ?cs)]" True] by simp
  show "convert True (Node KDocument (ns @ Node KParagraph (ms @ [Node (KOther x) us]) # rest)) =
      convert True (Node KDocument (ns @ [Node KParagraph ms]))"
    by (simp add: convert_def walk_all_append ns ms enter_simps leave_simps doc_of_def)
qed

text \<open>Copying a token is the identity on its contents.\<close>

lemma token_copy_same: "token_copy t = t"
  by (induction t rule: token_copy.induct) (simp add: map_idI)

text \<open>
  An admonition holds no content: the block goes on only with a closing fence, so the first line
  after the opening one ends it, whatever it holds.
\<close>

lemma admonition_closes_on_content: "trim_space line \<noteq> fence \<Longrightarrow> \<not> admonition_continue line"
  by (simp add: admonition_continue_def)

text \<open>
  A line that begins with one exclamation mark, like an image, opens an admonition with the whole
  line as its level.
\<close>

lemma image_opens_admonition:
  assumes "line \<noteq> ''''" "hd line = CHR ''!''" "trim_space line = line" "\<not> starts_with fence line" "CHR '' '' \<notin> set line"
  shows "admonition_trigger line \<and> admonition_open line = Some (line, '''')"
proof -
  have "line \<noteq> fence" using assms(4) by (auto simp: starts_with_def)
  with assms show ?thesis
    by (simp add: admonition_trigger_def admonition_open_def split_on_none Let_def fence_def)
qed

section \<open>Witnesses\<close>

theorem convert_is_structural_witness:
  "convert False (Node KDocument [Node KParagraph [Node (KText ''a'') [], Node (KText ''b'') []]]) =
   Token TDocument [Token TParagraph [Token (TText ''ab'') []]]"
  using convert_is_structural[of "[Node KParagraph [Node (KText ''a'') [], Node (KText ''b'') []]]" False]
  by (simp add: append_text_def)

theorem unknown_node_truncates_witness:
  "convert True (Node KDocument [Node KParagraph [Node (KText ''a'') [], Node (KOther ''Emphasis'') []],
     Node KParagraph [Node (KText ''lost'') []]]) = Token TDocument [Token TParagraph [Token (TText ''a'') []]]"
  using unknown_node_truncates[of "[]" "[Node (KText ''a'') []]" "''Emphasis''" "[]" "[Node KParagraph [Node (KText ''lost'') []]]"]
    convert_known[of "[Node KParagraph [Node (KText ''a'') []]]" True]
  by simp

end
