(* ===== verification/Docs.thy ===== *)
theory Docs
  imports Docs_Convert Ext_Manager Protocol "HOL-Library.Multiset"
begin

text \<open>
  \<open>internal/docparser/controller.go\<close> and \<open>page.go\<close>: the documentation of the extensions, sorted into
  categories and groups; and \<open>updateDocs\<close> of \<open>cmd/suffiks/main.go\<close>, which collects it.
\<close>

section \<open>Pages\<close>

record page =
  pg_category :: string
  pg_group :: string
  pg_title :: string
  pg_weight :: int
  pg_slug :: string
  pg_body :: string
  pg_document :: token

record group =
  gr_name :: string
  gr_slug :: string
  gr_weight :: int
  gr_pages :: "page list"

record category =
  ct_name :: string
  ct_slug :: string
  ct_groups :: "group list"

text \<open>The copies: new structs with the same fields, so that sorting them leaves the stored ones alone.\<close>

definition page_copy :: "page \<Rightarrow> page" where
  "page_copy p = \<lparr>pg_category = pg_category p, pg_group = pg_group p, pg_title = pg_title p,
     pg_weight = pg_weight p, pg_slug = pg_slug p, pg_body = pg_body p,
     pg_document = token_copy (pg_document p)\<rparr>"

definition group_copy :: "group \<Rightarrow> group" where
  "group_copy g = \<lparr>gr_name = gr_name g, gr_slug = gr_slug g, gr_weight = gr_weight g,
     gr_pages = map page_copy (gr_pages g)\<rparr>"

definition category_copy :: "category \<Rightarrow> category" where
  "category_copy c = \<lparr>ct_name = ct_name c, ct_slug = ct_slug c, ct_groups = map group_copy (ct_groups c)\<rparr>"

text \<open>The orders of pages and groups: \<open>Less\<close>.\<close>

definition page_less :: "page \<Rightarrow> page \<Rightarrow> bool" where
  "page_less p q \<longleftrightarrow> pg_weight p < pg_weight q"

definition group_less :: "group \<Rightarrow> group \<Rightarrow> bool" where
  "group_less g h \<longleftrightarrow> gr_weight g < gr_weight h"

text \<open>
  \<open>sort.Sort\<close>: it is not stable, so all that is known of it is that it permutes, and that nothing that
  comes later is less than what comes before.
\<close>

record sorter =
  so_pages :: "page list \<Rightarrow> page list"
  so_groups :: "group list \<Rightarrow> group list"

definition sorter_law :: "sorter \<Rightarrow> bool" where
  "sorter_law so \<longleftrightarrow>
     (\<forall>ps. mset (so_pages so ps) = mset ps \<and> sorted_wrt (\<lambda>p q. \<not> page_less q p) (so_pages so ps)) \<and>
     (\<forall>gs. mset (so_groups so gs) = mset gs \<and> sorted_wrt (\<lambda>g h. \<not> group_less h g) (so_groups so gs))"

lemma sorter_weights:
  "sorted_wrt (\<lambda>p q. \<not> page_less q p) ps \<longleftrightarrow> sorted (map pg_weight ps)"
  "sorted_wrt (\<lambda>g h. \<not> group_less h g) gs \<longleftrightarrow> sorted (map gr_weight gs)"
  by (simp_all add: page_less_def group_less_def not_less sorted_map)

section \<open>Names\<close>

text \<open>
  \<open>parseGroupName\<close>: a name that ends in a number in brackets carries a weight; \<open>.\<close> of the expression
  matches no newline. \<open>Atoi\<close> gives the largest 64-bit integer when the number is too large.
\<close>

definition is_digit :: "char \<Rightarrow> bool" where
  "is_digit c \<longleftrightarrow> 48 \<le> (of_char c :: nat) \<and> (of_char c :: nat) \<le> 57"

definition digits_value :: "string \<Rightarrow> int" where
  "digits_value ds = foldl (\<lambda>n c. 10 * n + (of_char c - 48)) 0 ds"

definition atoi :: "string \<Rightarrow> int" where
  "atoi ds = min (digits_value ds) (2 ^ 63 - 1)"

definition parseGroupName :: "string \<Rightarrow> string \<times> int" where
  "parseGroupName gn =
     (let r = rev gn; ds = rev (takeWhile is_digit (tl r)); rest = dropWhile is_digit (tl r)
      in if r \<noteq> [] \<and> hd r = CHR '']'' \<and> ds \<noteq> [] \<and> rest \<noteq> [] \<and> hd rest = CHR ''['' \<and>
            CHR 0x0A \<notin> set (tl rest)
         then (trim_space (rev (tl rest)), atoi ds)
         else (gn, - 1))"

text \<open>\<open>sluggify\<close>: runs of other characters become one dash, runs of dashes too, then lower case.\<close>

definition slug_char :: "char \<Rightarrow> bool" where
  "slug_char c \<longleftrightarrow> is_ascii_letter c \<or> is_digit c \<or> c = CHR ''-'' \<or> c = CHR ''_''"

function dash_others :: "string \<Rightarrow> string" where
  "dash_others [] = []"
| "dash_others (c # s) =
     (if slug_char c then c # dash_others s
      else CHR ''-'' # dash_others (dropWhile (\<lambda>d. \<not> slug_char d) s))"
  by pat_completeness auto
termination
  by (relation "measure length") (auto simp: length_dropWhile_le le_imp_less_Suc)

fun clean_dashes :: "string \<Rightarrow> string" where
  "clean_dashes (c # d # s) =
     (if c = CHR ''-'' \<and> d = CHR ''-'' then clean_dashes (d # s) else c # clean_dashes (d # s))"
| "clean_dashes s = s"

definition sluggify :: "string \<Rightarrow> string" where
  "sluggify s = map lower_char (clean_dashes (dash_others s))"

section \<open>Parsing the pages of one extension\<close>

text \<open>
  \<open>parseMD\<close>: the tree and the front matter come from the markdown library; a value of another type
  than expected is the zero value.
\<close>

datatype meta_value = MString string | MInt int | MOther

definition meta_string :: "(string, meta_value) gomap \<Rightarrow> string \<Rightarrow> string" where
  "meta_string m k = (case mget m k of Some (MString s) \<Rightarrow> s | _ \<Rightarrow> '''')"

definition meta_int :: "(string, meta_value) gomap \<Rightarrow> string \<Rightarrow> int" where
  "meta_int m k = (case mget m k of Some (MInt i) \<Rightarrow> i | _ \<Rightarrow> 0)"

record markdown =
  md_parse :: "string \<Rightarrow> ast \<times> (string, meta_value) gomap"
  md_leaveSkipped :: bool

definition parseMD :: "markdown \<Rightarrow> string \<Rightarrow> page" where
  "parseMD md b =
     (let (tree, m) = md_parse md b
      in \<lparr>pg_category = meta_string m ''category'', pg_group = meta_string m ''group'',
          pg_title = meta_string m ''title'', pg_weight = meta_int m ''weight'',
          pg_slug = meta_string m ''slug'', pg_body = '''', pg_document = convert (md_leaveSkipped md) tree\<rparr>)"

text \<open>
  A page is added to the group and category it names, which are made when they are new. The maps
  \<open>categories\<close> and \<open>groups\<close> hold, by name, exactly the categories of \<open>res\<close> and the groups of each,
  so the lists are searched by name. The weight of a group is set when the group is made (the
  assignment under \<open>group.Weight < 0\<close> repeats it).
\<close>

fun add_to_groups :: "string \<Rightarrow> int \<Rightarrow> page \<Rightarrow> group list \<Rightarrow> group list" where
  "add_to_groups name w p [] = [\<lparr>gr_name = name, gr_slug = '''', gr_weight = w, gr_pages = [p]\<rparr>]"
| "add_to_groups name w p (g # gs) =
     (if gr_name g = name then g\<lparr>gr_pages := gr_pages g @ [p]\<rparr> # gs else g # add_to_groups name w p gs)"

fun add_page :: "page \<Rightarrow> category list \<Rightarrow> category list" where
  "add_page p [] =
     (let (name, w) = parseGroupName (pg_group p)
      in [\<lparr>ct_name = pg_category p, ct_slug = '''', ct_groups = add_to_groups name w p []\<rparr>])"
| "add_page p (c # cs) =
     (if ct_name c = pg_category p
      then (let (name, w) = parseGroupName (pg_group p)
            in c\<lparr>ct_groups := add_to_groups name w p (ct_groups c)\<rparr> # cs)
      else c # add_page p cs)"

text \<open>The slugs that are missing, and the order of the pages.\<close>

definition finish_page :: "page \<Rightarrow> page" where
  "finish_page p = (if pg_slug p = '''' then p\<lparr>pg_slug := sluggify (pg_title p)\<rparr> else p)"

definition finish_group :: "sorter \<Rightarrow> group \<Rightarrow> group" where
  "finish_group so g =
     (let g1 = (if gr_slug g = '''' then g\<lparr>gr_slug := sluggify (gr_name g)\<rparr> else g)
      in g1\<lparr>gr_pages := map finish_page (so_pages so (gr_pages g1))\<rparr>)"

definition finish_category :: "sorter \<Rightarrow> category \<Rightarrow> category" where
  "finish_category so c =
     (let c1 = (if ct_slug c = '''' then c\<lparr>ct_slug := sluggify (ct_name c)\<rparr> else c)
      in c1\<lparr>ct_groups := map (finish_group so) (ct_groups c1)\<rparr>)"

definition parse_pages :: "markdown \<Rightarrow> sorter \<Rightarrow> string list \<Rightarrow> category list" where
  "parse_pages md so pages = map (finish_category so) (foldl (\<lambda>cs b. add_page (parseMD md b) cs) [] pages)"

section \<open>Controller\<close>

type_synonym docs = "(string, category list) gomap"

definition docs_store :: "string \<Rightarrow> category list \<Rightarrow> docs \<Rightarrow> docs" where
  "docs_store name cats d = mset_key name cats d"

definition docs_remove :: "string \<Rightarrow> docs \<Rightarrow> docs" where
  "docs_remove name d = mdel name d"

definition docs_parse :: "markdown \<Rightarrow> sorter \<Rightarrow> string \<Rightarrow> string list \<Rightarrow> docs \<Rightarrow> docs" where
  "docs_parse md so name pages d = docs_store name (parse_pages md so pages) d"

text \<open>
  \<open>AddFS\<close>: the files in the order of the walk, each an error, a directory or a file with its content
  or the error of reading it; the first error is returned and nothing is stored.
\<close>

datatype walk_entry = WalkErr gerr | WalkDir | WalkFile "gerr + string"

fun collect_files :: "walk_entry list \<Rightarrow> gerr + string list" where
  "collect_files [] = Inr []"
| "collect_files (WalkErr e # es) = Inl e"
| "collect_files (WalkDir # es) = collect_files es"
| "collect_files (WalkFile (Inl e) # es) = Inl e"
| "collect_files (WalkFile (Inr b) # es) =
     (case collect_files es of Inl e \<Rightarrow> Inl e | Inr bs \<Rightarrow> Inr (b # bs))"

definition docs_addFS :: "markdown \<Rightarrow> sorter \<Rightarrow> string \<Rightarrow> walk_entry list \<Rightarrow> docs \<Rightarrow> gerr option \<times> docs" where
  "docs_addFS md so name es d =
     (case collect_files es of Inl e \<Rightarrow> (Some e, d) | Inr pages \<Rightarrow> (None, docs_parse md so name pages d))"

text \<open>
  \<open>GetAll\<close>: the categories of all extensions, those of the same name joined. The association list is
  in the order in which Go ranges over the map.
\<close>

definition docs_copy :: "docs \<Rightarrow> category list" where
  "docs_copy d = map category_copy (concat (map snd d))"

fun join_category :: "category \<Rightarrow> category list \<Rightarrow> category list" where
  "join_category doc [] = [doc]"
| "join_category doc (c # cs) =
     (if ct_name c = ct_name doc then c\<lparr>ct_groups := ct_groups c @ ct_groups doc\<rparr> # cs
      else c # join_category doc cs)"

definition sort_category :: "sorter \<Rightarrow> category \<Rightarrow> category" where
  "sort_category so c =
     c\<lparr>ct_groups := map (\<lambda>g. g\<lparr>gr_pages := so_pages so (gr_pages g)\<rparr>) (so_groups so (ct_groups c))\<rparr>"

definition docs_getAll :: "sorter \<Rightarrow> docs \<Rightarrow> category list" where
  "docs_getAll so d = map (sort_category so) (foldl (\<lambda>cs doc. join_category doc cs) [] (docs_copy d))"

section \<open>updateDocs\<close>

text \<open>
  One round of \<open>updateDocs\<close>: the pages of every extension of the manager replace what is stored under
  its name; an extension that fails to answer is skipped. \<open>documentation\<close> is the call.
\<close>

definition update_docs_round ::
    "markdown \<Rightarrow> sorter \<Rightarrow> (managed \<Rightarrow> gerr + documentation_response) \<Rightarrow> 'p ext_manager \<Rightarrow> docs \<Rightarrow> docs" where
  "update_docs_round md so documentation m d =
     foldl (\<lambda>d x. case documentation x of
                    Inl e \<Rightarrow> d
                  | Inr r \<Rightarrow> docs_parse md so (ex_name (mg_ext x)) (dc_pages r) d) d (all_extensions m)"

end
