(* ===== verification/Docs_Facts.thy ===== *)
theory Docs_Facts
  imports Docs
begin

text \<open>Properties of the documentation: no page is lost, slugs are normal forms, what stays for good.\<close>

section \<open>Slugs\<close>

definition slug_normal :: "string \<Rightarrow> bool" where
  "slug_normal s \<longleftrightarrow> (\<forall>c \<in> set s. slug_char c \<and> \<not> is_upper_letter c) \<and> clean_dashes s = s"

lemma lower_char_slug: "slug_char c \<Longrightarrow> slug_char (lower_char c) \<and> \<not> is_upper_letter (lower_char c)"
  by (auto simp: slug_char_def lower_char_def is_ascii_letter_def is_upper_letter_def is_digit_def of_char_of)

lemma lower_char_dash [simp]: "lower_char c = CHR ''-'' \<longleftrightarrow> c = CHR ''-''"
proof -
  have "of_char c + 32 \<noteq> (45 :: nat)" if "65 \<le> (of_char c :: nat)" using that by simp
  then show ?thesis
    by (auto simp: lower_char_def is_upper_letter_def char_of_eq_iff take_bit_eq_mod)
qed

lemma dash_others_slug: "c \<in> set (dash_others s) \<Longrightarrow> slug_char c"
  by (induction s rule: dash_others.induct) (auto simp: slug_char_def split: if_splits)

lemma set_clean_dashes: "set (clean_dashes s) \<subseteq> set s"
  by (induction s rule: clean_dashes.induct) auto

lemma clean_dashes_Cons: "\<exists>t. clean_dashes (c # s) = c # t"
  by (induction s arbitrary: c) auto

lemma clean_dashes_map:
  "(\<forall>c. f c = CHR ''-'' \<longleftrightarrow> c = CHR ''-'') \<Longrightarrow> clean_dashes (map f s) = map f (clean_dashes s)"
  by (induction s rule: clean_dashes.induct) (auto simp: eq_commute)

lemma clean_dashes_idem: "clean_dashes (clean_dashes s) = clean_dashes s"
proof (induction s rule: clean_dashes.induct)
  case (1 c d s)
  obtain t where t: "clean_dashes (d # s) = d # t" using clean_dashes_Cons by blast
  from 1 t show ?case by (cases "c = CHR ''-'' \<and> d = CHR ''-''") auto
qed simp_all

lemma sluggify_normal: "slug_normal (sluggify s)"
  unfolding slug_normal_def
proof
  show "\<forall>c \<in> set (sluggify s). slug_char c \<and> \<not> is_upper_letter c"
    using dash_others_slug set_clean_dashes by (fastforce simp: sluggify_def dest: lower_char_slug)
  show "clean_dashes (sluggify s) = sluggify s"
    by (simp add: sluggify_def clean_dashes_map clean_dashes_idem)
qed

lemma sluggify_id: "slug_normal s \<Longrightarrow> sluggify s = s"
proof -
  assume n: "slug_normal s"
  then have "\<forall>c \<in> set s. slug_char c" by (simp add: slug_normal_def)
  then have "dash_others s = s" by (induction s) auto
  moreover have "lower_char c = c" if "c \<in> set s" for c
    using n that by (simp add: slug_normal_def lower_char_def)
  ultimately show ?thesis using n by (simp add: sluggify_def slug_normal_def map_idI)
qed

text \<open>
  Slugs are safe in an address and stable: a slug has only lower case letters, digits, dashes and
  underscores, never two dashes in a row, and slugging a slug changes nothing.
\<close>

theorem slugs_are_normal:
  "slug_normal (sluggify s) \<and> sluggify (sluggify s) = sluggify s"
  using sluggify_normal sluggify_id by blast

section \<open>No page is lost\<close>

text \<open>All pages of a list of categories, each with the names of its category and group.\<close>

definition group_entries :: "string \<Rightarrow> group \<Rightarrow> (string \<times> string \<times> page) multiset" where
  "group_entries c g = image_mset (\<lambda>p. (c, gr_name g, p)) (mset (gr_pages g))"

definition category_entries :: "category \<Rightarrow> (string \<times> string \<times> page) multiset" where
  "category_entries c = sum_list (map (group_entries (ct_name c)) (ct_groups c))"

definition entries :: "category list \<Rightarrow> (string \<times> string \<times> page) multiset" where
  "entries cs = sum_list (map category_entries cs)"

lemma entries_simps [simp]:
  "entries [] = {#}" "entries (c # cs) = category_entries c + entries cs"
  "entries (cs @ ds) = entries cs + entries ds"
  by (simp_all add: entries_def)

lemma page_copy_same: "page_copy p = p"
  by (simp add: page_copy_def token_copy_same)

lemma category_copy_same: "category_copy c = c"
  by (simp add: category_copy_def group_copy_def page_copy_same map_idI)

lemma join_category_entries:
  "entries (join_category doc cs) = entries cs + category_entries doc"
  by (induction doc cs rule: join_category.induct) (auto simp: category_entries_def ac_simps)

lemma join_categories_entries:
  "entries (foldl (\<lambda>cs doc. join_category doc cs) cs0 docs) = entries cs0 + entries docs"
  by (induction docs arbitrary: cs0) (auto simp: join_category_entries ac_simps)

lemma sum_list_mset_perm: "mset xs = mset ys \<Longrightarrow> sum_list (map f xs) = (sum_list (map f ys) :: 'a multiset)"
  by (metis mset_map sum_mset_sum_list)

lemma entries_perm: "mset xs = mset ys \<Longrightarrow> entries (concat (map snd xs)) = entries (concat (map snd ys))"
  for xs ys :: docs
proof -
  assume perm: "mset xs = mset ys"
  have e: "entries (concat (map snd zs)) = sum_list (map (entries \<circ> snd) zs)" for zs :: docs
    by (induction zs) simp_all
  show ?thesis unfolding e by (rule sum_list_mset_perm[OF perm])
qed

lemma sort_category_entries:
  assumes "sorter_law so"
  shows "category_entries (sort_category so c) = category_entries c"
proof -
  have "group_entries n (g\<lparr>gr_pages := so_pages so (gr_pages g)\<rparr>) = group_entries n g" for n g
    using assms by (simp add: group_entries_def sorter_law_def sorter_weights)
  then have "category_entries (sort_category so c) =
      sum_list (map (group_entries (ct_name c)) (so_groups so (ct_groups c)))"
    by (simp add: category_entries_def sort_category_def o_def)
  also have "\<dots> = category_entries c"
    unfolding category_entries_def by (rule sum_list_mset_perm) (use assms in \<open>simp add: sorter_law_def sorter_weights\<close>)
  finally show ?thesis .
qed

lemma getAll_entries:
  assumes "sorter_law so"
  shows "entries (docs_getAll so d) = entries (concat (map snd d))"
proof -
  have "entries (map (sort_category so) cs) = entries cs" for cs
    by (induction cs) (simp_all add: sort_category_entries[OF assms])
  then show ?thesis
    by (simp add: docs_getAll_def join_categories_entries docs_copy_def map_idI category_copy_same)
qed

text \<open>Parsing files every page under its category and group.\<close>

definition filed :: "page \<Rightarrow> string \<times> string \<times> page" where
  "filed p = (pg_category p, fst (parseGroupName (pg_group p)), p)"

lemma add_to_groups_entries:
  "sum_list (map (group_entries c) (add_to_groups name w p gs)) =
   sum_list (map (group_entries c) gs) + {#(c, name, p)#}"
  by (induction name w p gs rule: add_to_groups.induct) (auto simp: group_entries_def ac_simps)

lemma add_page_entries: "entries (add_page p cs) = entries cs + {#filed p#}"
  by (induction p cs rule: add_page.induct)
    (auto simp: category_entries_def add_to_groups_entries filed_def group_entries_def ac_simps split: prod.splits)

lemma add_pages_entries:
  "entries (foldl (\<lambda>cs b. add_page (f b) cs) cs0 bs) = entries cs0 + image_mset (filed \<circ> f) (mset bs)"
  by (induction bs arbitrary: cs0) (auto simp: add_page_entries ac_simps)

definition finish_entry :: "string \<times> string \<times> page \<Rightarrow> string \<times> string \<times> page" where
  "finish_entry e = (case e of (c, g, p) \<Rightarrow> (c, g, finish_page p))"

lemma finish_group_entries:
  "sorter_law so \<Longrightarrow> group_entries c (finish_group so g) = image_mset finish_entry (group_entries c g)"
  by (simp add: group_entries_def finish_group_def sorter_law_def sorter_weights Let_def multiset.map_comp o_def finish_entry_def)

lemma finish_category_entries:
  assumes "sorter_law so"
  shows "category_entries (finish_category so c) = image_mset finish_entry (category_entries c)"
proof -
  have "sum_list (map (group_entries n) (map (finish_group so) gs)) =
      image_mset finish_entry (sum_list (map (group_entries n) gs))" for n gs
    by (induction gs) (simp_all add: finish_group_entries[OF assms])
  then show ?thesis by (simp add: category_entries_def finish_category_def Let_def)
qed

lemma parse_pages_entries:
  assumes "sorter_law so"
  shows "entries (parse_pages md so bs) = image_mset (finish_entry \<circ> filed \<circ> parseMD md) (mset bs)"
proof -
  have "entries (map (finish_category so) cs) = image_mset finish_entry (entries cs)" for cs
    by (induction cs) (simp_all add: finish_category_entries[OF assms])
  then show ?thesis by (simp add: parse_pages_def add_pages_entries multiset.map_comp o_assoc)
qed

lemma store_new_entries: "name \<notin> mkeys d \<Longrightarrow> concat (map snd (docs_store name cats d)) = concat (map snd d) @ cats"
  by (simp add: docs_store_def update_new)

text \<open>
  The documentation is complete: after the pages of an extension have been parsed, the answer of
  the documentation server holds every page of it exactly once, under its category and the name of
  its group, together with all pages that were stored for the others, whatever the order in which
  the map is read.
\<close>

theorem no_page_lost:
  assumes "sorter_law so" "name \<notin> mkeys d" "mset stored = mset (docs_parse md so name pages d)"
  shows "entries (docs_getAll so stored) =
    entries (docs_getAll so d) + image_mset (finish_entry \<circ> filed \<circ> parseMD md) (mset pages)"
proof -
  note perm = entries_perm
  show ?thesis
    using assms(2) by (simp add: getAll_entries[OF assms(1)] perm[OF assms(3)] docs_parse_def store_new_entries
        parse_pages_entries[OF assms(1)])
qed

section \<open>Order\<close>

lemma join_category_names: "distinct (map ct_name cs) \<Longrightarrow>
   set (map ct_name (join_category doc cs)) = insert (ct_name doc) (set (map ct_name cs)) \<and>
   distinct (map ct_name (join_category doc cs))"
  by (induction doc cs rule: join_category.induct) auto

lemma join_categories_distinct:
  "distinct (map ct_name cs) \<Longrightarrow> distinct (map ct_name (foldl (\<lambda>cs doc. join_category doc cs) cs docs))"
  by (induction docs arbitrary: cs) (auto simp: join_category_names)

text \<open>
  What the server shows is in order: no two categories have the same name, in every category the
  groups stand by weight, and in every group the pages do.
\<close>

theorem shown_in_order:
  assumes "sorter_law so"
  shows "distinct (map ct_name (docs_getAll so d)) \<and>
    (\<forall>c \<in> set (docs_getAll so d). sorted (map gr_weight (ct_groups c)) \<and>
       (\<forall>g \<in> set (ct_groups c). sorted (map pg_weight (gr_pages g))))"
proof -
  have "map ct_name (map (sort_category so) cs) = map ct_name cs" for cs
    by (simp add: sort_category_def o_def)
  then show ?thesis
    using assms join_categories_distinct[of "[]" "docs_copy d"]
    by (auto simp: docs_getAll_def sort_category_def sorter_law_def sorter_weights o_def)
qed

section \<open>What stays\<close>

text \<open>
  The weight of a group is the one on the first page that names it: a weight that only a later page
  gives is ignored.
\<close>

lemma group_weight_from_first_page:
  "g \<in> set gs \<Longrightarrow> distinct (map gr_name gs) \<Longrightarrow> gr_name g = name \<Longrightarrow>
   \<exists>g' \<in> set (add_to_groups name w p gs). gr_name g' = name \<and> gr_weight g' = gr_weight g"
  by (induction name w p gs rule: add_to_groups.induct) auto

text \<open>
  The documentation of an extension that the manager no longer has stays: \<open>updateDocs\<close> only
  replaces, and nothing calls \<open>Remove\<close>.
\<close>

lemma update_docs_keeps:
  assumes "name \<notin> (\<lambda>x. ex_name (mg_ext x)) ` set (all_extensions m)"
  shows "mget (update_docs_round md so documentation m d) name = mget d name"
proof -
  have "mget (foldl (\<lambda>d x. case documentation x of Inl e \<Rightarrow> d
        | Inr r \<Rightarrow> docs_parse md so (ex_name (mg_ext x)) (dc_pages r) d) d xs) name = mget d name"
    if "name \<notin> (\<lambda>x. ex_name (mg_ext x)) ` set xs" for xs d
    using that by (induction xs arbitrary: d)
      (auto simp: docs_parse_def docs_store_def mget_update split: sum.splits)
  from this[OF assms] show ?thesis by (simp add: update_docs_round_def)
qed

section \<open>Witnesses\<close>

text \<open>Insertion by weight is a sorter.\<close>

definition ex_sorter :: sorter where
  "ex_sorter = \<lparr>so_pages = sort_key pg_weight, so_groups = sort_key gr_weight\<rparr>"

lemma ex_sorter_law: "sorter_law ex_sorter"
  by (simp add: sorter_law_def sorter_weights ex_sorter_def)

definition ex_markdown :: markdown where
  "ex_markdown = \<lparr>md_parse = (\<lambda>b. (Node KDocument [], [(''category'', MString ''Guide''), (''title'', MString b)])),
     md_leaveSkipped = True\<rparr>"

theorem no_page_lost_witness:
  "size (entries (docs_getAll ex_sorter (docs_parse ex_markdown ex_sorter ''ingress'' [''One'', ''Two''] []))) = 2"
proof -
  have "entries (docs_getAll ex_sorter []) = {#}" by (simp add: getAll_entries[OF ex_sorter_law])
  then show ?thesis
    using no_page_lost[OF ex_sorter_law, where name = "''ingress''" and d = "[]" and md = ex_markdown
        and pages = "[''One'', ''Two'']", OF _ refl]
    by (simp add: mkeys_def)
qed

theorem shown_in_order_witness:
  "distinct (map ct_name (docs_getAll ex_sorter (docs_parse ex_markdown ex_sorter ''ingress'' [''One''] [])))"
  using shown_in_order[OF ex_sorter_law] by blast

end
