(* ===== verification/Docs_Server.thy ===== *)
theory Docs_Server
  imports Docs_Facts Ext_Manager_Facts
begin

text \<open>
  The documentation server, \<open>documentationServer\<close> and \<open>updateDocs\<close> of \<open>cmd/suffiks/main.go\<close> and
  \<open>cmd/dev/docserver/main.go\<close>: one goroutine asks the extensions for their pages, round after round,
  while requests are answered from the same controller.
\<close>

section \<open>The two goroutines\<close>

text \<open>The inner loop of \<open>updateDocs\<close> for one extension, which is one critical section of the controller.\<close>

definition update_one ::
    "markdown \<Rightarrow> sorter \<Rightarrow> managed \<Rightarrow> gerr + documentation_response \<Rightarrow> docs \<Rightarrow> docs" where
  "update_one md so x answer d =
     (case answer of Inl e \<Rightarrow> d | Inr r \<Rightarrow> docs_parse md so (ex_name (mg_ext x)) (dc_pages r) d)"

text \<open>
  \<open>updateDocs\<close> until the context is done: the manager and the answers of the extensions in each round.
  The context is looked at after a round, so there is at least one.
\<close>

primrec updateDocs ::
    "markdown \<Rightarrow> sorter \<Rightarrow> ('p ext_manager \<times> (managed \<Rightarrow> gerr + documentation_response)) list \<Rightarrow> docs \<Rightarrow> docs" where
  "updateDocs md so [] d = d"
| "updateDocs md so (r # rs) d = updateDocs md so rs (update_docs_round md so (snd r) (fst r) d)"

text \<open>What happens at the controller: an extension has answered, or a request reads all categories.\<close>

datatype doc_event = Answered managed "gerr + documentation_response" | Requested

fun doc_step :: "markdown \<Rightarrow> sorter \<Rightarrow> doc_event \<Rightarrow> docs \<Rightarrow> docs" where
  "doc_step md so (Answered x answer) d = update_one md so x answer d"
| "doc_step md so Requested d = d"

text \<open>\<open>documentationServer\<close>: the built-in pages are stored first; an error of reading them is ignored.\<close>

definition doc_server :: "markdown \<Rightarrow> sorter \<Rightarrow> walk_entry list \<Rightarrow> doc_event list \<Rightarrow> docs" where
  "doc_server md so builtin evs = fold (doc_step md so) evs (snd (docs_addFS md so ''_suffiks'' builtin []))"

text \<open>The handler: the body it encodes, for the order \<open>stored\<close> in which Go ranges over the map.\<close>

definition doc_response :: "sorter \<Rightarrow> docs \<Rightarrow> category list" where
  "doc_response so stored = docs_getAll so stored"

text \<open>The developer's server has the built-in pages only.\<close>

definition docserver_response :: "markdown \<Rightarrow> sorter \<Rightarrow> walk_entry list \<Rightarrow> category list" where
  "docserver_response md so builtin = docs_getAll so (snd (docs_addFS md so ''_suffiks'' builtin []))"

section \<open>Rounds are events\<close>

definition round_events :: "'p ext_manager \<times> (managed \<Rightarrow> gerr + documentation_response) \<Rightarrow> doc_event list" where
  "round_events r = map (\<lambda>x. Answered x (snd r x)) (all_extensions (fst r))"

lemma round_as_events: "update_docs_round md so (snd r) (fst r) d = fold (doc_step md so) (round_events r) d"
proof -
  have "doc_step md so (Answered x (snd r x)) = (\<lambda>d. case snd r x of Inl e \<Rightarrow> d
      | Inr a \<Rightarrow> docs_parse md so (ex_name (mg_ext x)) (dc_pages a) d)" for x
    by (rule ext) (simp add: update_one_def)
  then show ?thesis by (simp add: update_docs_round_def round_events_def fold_map comp_def foldl_conv_fold)
qed

lemma updateDocs_as_events: "updateDocs md so rs d = fold (doc_step md so) (concat (map round_events rs)) d"
  by (induction rs arbitrary: d) (simp_all add: round_as_events)

section \<open>What is served\<close>

text \<open>
  The specification: for every name the pages of the latest successful answer, the built-in ones under
  a name of their own.
\<close>

fun latest_step :: "doc_event \<Rightarrow> (string, string list) gomap \<Rightarrow> (string, string list) gomap" where
  "latest_step (Answered x (Inr r)) l = mset_key (ex_name (mg_ext x)) (dc_pages r) l"
| "latest_step _ l = l"

definition latest :: "walk_entry list \<Rightarrow> doc_event list \<Rightarrow> (string, string list) gomap" where
  "latest builtin evs =
     fold latest_step evs (case collect_files builtin of Inl e \<Rightarrow> [] | Inr pages \<Rightarrow> [(''_suffiks'', pages)])"

definition parsed_all :: "markdown \<Rightarrow> sorter \<Rightarrow> (string, string list) gomap \<Rightarrow> docs" where
  "parsed_all md so l = map (\<lambda>(n, pages). (n, parse_pages md so pages)) l"

lemma parsed_all_update: "parsed_all md so (mset_key n pages l) = mset_key n (parse_pages md so pages) (parsed_all md so l)"
  unfolding parsed_all_def by (induction l) auto

lemma doc_step_parsed: "doc_step md so ev (parsed_all md so l) = parsed_all md so (latest_step ev l)"
  by (induction ev l rule: latest_step.induct)
    (simp_all add: update_one_def docs_parse_def docs_store_def parsed_all_update)

lemma doc_server_parsed: "doc_server md so builtin evs = parsed_all md so (latest builtin evs)"
proof -
  have "fold (doc_step md so) evs (parsed_all md so l) = parsed_all md so (fold latest_step evs l)" for l
    by (induction evs arbitrary: l) (simp_all add: doc_step_parsed)
  moreover have "snd (docs_addFS md so ''_suffiks'' builtin []) =
      parsed_all md so (case collect_files builtin of Inl e \<Rightarrow> [] | Inr pages \<Rightarrow> [(''_suffiks'', pages)])"
    by (simp add: docs_addFS_def docs_parse_def docs_store_def parsed_all_def split: sum.split)
  ultimately show ?thesis by (simp add: doc_server_def latest_def)
qed

definition last_answer :: "string \<Rightarrow> doc_event list \<Rightarrow> string list option" where
  "last_answer name evs =
     fold (\<lambda>ev r. case ev of Answered x (Inr a) \<Rightarrow> if ex_name (mg_ext x) = name then Some (dc_pages a) else r | _ \<Rightarrow> r) evs None"

lemma latest_names:
  assumes "name \<noteq> ''_suffiks''"
  shows "mget (latest builtin evs) name = last_answer name evs"
proof -
  have "mget (fold latest_step evs l) name =
      fold (\<lambda>ev r. case ev of Answered x (Inr a) \<Rightarrow> if ex_name (mg_ext x) = name then Some (dc_pages a) else r | _ \<Rightarrow> r) evs (mget l name)" for l
  proof (induction evs arbitrary: l)
    case (Cons ev evs)
    then show ?case by (cases "(ev, l)" rule: latest_step.cases) (simp_all add: mget_update)
  qed simp
  with assms show ?thesis by (simp add: latest_def last_answer_def split: sum.split)
qed

text \<open>
  C26: The documentation that is served is that of the latest answers. Whatever the interleaving of rounds
  and requests, and whichever extensions fail to answer, a response has every page of the latest
  successful answer of every extension exactly once, filed under its category and group, and the
  built-in pages, and nothing else.
\<close>

theorem served_docs_are_latest:
  assumes "sorter_law so" "mset stored = mset (doc_server md so builtin evs)"
  shows "entries (doc_response so stored) =
      (\<Sum>(n, pages) \<leftarrow> latest builtin evs. image_mset (finish_entry \<circ> filed \<circ> parseMD md) (mset pages)) \<and>
    (\<forall>name. name \<noteq> ''_suffiks'' \<longrightarrow> mget (latest builtin evs) name = last_answer name evs)"
proof -
  have "entries (concat (map snd (parsed_all md so l))) =
      (\<Sum>(n, pages) \<leftarrow> l. image_mset (finish_entry \<circ> filed \<circ> parseMD md) (mset pages))" for l
    unfolding parsed_all_def by (induction l) (auto simp: parse_pages_entries[OF assms(1)] comp_def)
  with entries_perm[OF assms(2)] getAll_entries[OF assms(1), of stored] latest_names show ?thesis
    by (simp add: doc_response_def doc_server_parsed)
qed

section \<open>Witness\<close>

definition ex_answers :: "doc_event list" where
  "ex_answers = [Answered ex_managed (Inr \<lparr>dc_pages = [''Old'']\<rparr>), Requested, Answered ex_managed (Inl EEOF),
     Answered ex_managed (Inr \<lparr>dc_pages = [''One'', ''Two'']\<rparr>)]"

theorem served_docs_are_latest_witness:
  "size (entries (doc_response ex_sorter (doc_server ex_markdown ex_sorter [WalkDir, WalkFile (Inr ''Start'')] ex_answers))) = 3"
proof -
  have "latest [WalkDir, WalkFile (Inr ''Start'')] ex_answers = [(''_suffiks'', [''Start'']), (''ingress'', [''One'', ''Two''])]"
    by (simp add: latest_def ex_answers_def ex_managed_def)
  with served_docs_are_latest[OF ex_sorter_law refl, of ex_markdown "[WalkDir, WalkFile (Inr ''Start'')]" ex_answers]
  show ?thesis by simp
qed

end
