(* ===== verification/Ext_Sync_One.thy ===== *)
theory Ext_Sync_One
  imports Ext_Sync
begin

text \<open>
  \<open>Sync\<close> with one extension: the run of one goroutine, as a function, and the proof that the step
  relation does nothing else.
\<close>

section \<open>One extension\<close>

text \<open>
  With one extension there is only one goroutine, and \<open>Sync\<close> is a function: \<open>Inl\<close> is a panic,
  which ends the process.
\<close>

definition end_with :: "changeset \<Rightarrow> string list \<Rightarrow> gerr \<Rightarrow> gerr + gerr option \<times> changeset \<times> string list" where
  "end_with cs names e = (if is_panic e then Inl e else Inr (Some (EMulti [e]), cs, names))"

definition sync_one ::
    "(json \<Rightarrow> gerr + json) \<Rightarrow> (raw \<Rightarrow> raw \<Rightarrow> gerr + raw) \<Rightarrow> behaviour \<Rightarrow> ctl_object \<Rightarrow>
     (string, json) gomap option \<Rightarrow> managed \<Rightarrow> gerr + gerr option \<times> changeset \<times> string list" where
  "sync_one conv mmp bh ob v x =
     (case createOrUpdateRequest (AnObject ob) v x of
        Inl e \<Rightarrow> end_with empty_changeset [] e
      | Inr ur \<Rightarrow>
          (case runs_always_or_spec x ur of
             Inl e \<Rightarrow> end_with empty_changeset [] e
           | Inr False \<Rightarrow> Inr (None, empty_changeset, [])
           | Inr True \<Rightarrow>
               (case bh_sync bh x ur of
                  Inl e \<Rightarrow> end_with empty_changeset [mg_name x] e
                | Inr (rs, re) \<Rightarrow>
                    (case changeset_add_all conv mmp rs empty_changeset of
                       (Some e, cs) \<Rightarrow> end_with cs [mg_name x] e
                     | (None, cs) \<Rightarrow>
                         (case re of
                            RecvEOF \<Rightarrow> Inr (None, cs, [mg_name x])
                          | RecvErr e \<Rightarrow> end_with cs [mg_name x] e)))))"

text \<open>What a state with one goroutine will end in.\<close>

definition will_end ::
    "(json \<Rightarrow> gerr + json) \<Rightarrow> (raw \<Rightarrow> raw \<Rightarrow> gerr + raw) \<Rightarrow> behaviour \<Rightarrow> ctl_object \<Rightarrow>
     (string, json) gomap option \<Rightarrow> run_state \<Rightarrow> gerr + gerr option \<times> changeset \<times> string list" where
  "will_end conv mmp bh ob v s =
     (case rs_gors s of
        [GStart x] \<Rightarrow> sync_one conv mmp bh ob v x
      | [GReading rs re] \<Rightarrow>
          (case changeset_add_all conv mmp rs (rs_changeset s) of
             (Some e, cs) \<Rightarrow> end_with cs (rs_ran s) e
           | (None, cs) \<Rightarrow> (case re of RecvEOF \<Rightarrow> Inr (None, cs, rs_ran s) | RecvErr e \<Rightarrow> end_with cs (rs_ran s) e))
      | [GFailed e] \<Rightarrow> Inr (Some (EMulti [e]), rs_changeset s, rs_ran s)
      | [GStoring e l] \<Rightarrow> Inr (Some (EMulti [e]), rs_changeset s, rs_ran s)
      | [GPanicked e] \<Rightarrow> Inl e
      | _ \<Rightarrow> Inr (run_result s))"

definition single :: "run_state \<Rightarrow> bool" where
  "single s \<longleftrightarrow> (\<exists>g. rs_gors s = [g] \<and>
     (case g of
        GStart x \<Rightarrow> rs_changeset s = empty_changeset \<and> rs_ran s = [] \<and> rs_errs s = []
      | GStoring e l \<Rightarrow> l = [] \<and> rs_errs s = []
      | GDone o1 \<Rightarrow> True
      | _ \<Rightarrow> rs_errs s = []))"

lemma will_end_fail: "rs_gors s = [fail_with e] \<Longrightarrow> will_end conv mmp bh ob v s = end_with (rs_changeset s) (rs_ran s) e"
  by (simp add: will_end_def fail_with_def end_with_def)

lemma single_fail: "rs_gors s = [fail_with e] \<Longrightarrow> rs_errs s = [] \<Longrightarrow> single s"
  by (simp add: single_def fail_with_def)

lemma single_begin:
  assumes "begin_ext bh ob v x = (rn, g)" "rs_gors s' = [g]" "rs_ran s' = (if rn then [mg_name x] else [])"
    and "rs_changeset s' = empty_changeset" "rs_errs s' = []"
  shows "single s' \<and> will_end conv mmp bh ob v s' = sync_one conv mmp bh ob v x"
proof -
  consider e where "g = fail_with e" "sync_one conv mmp bh ob v x = end_with empty_changeset (rs_ran s') e"
    | rs re where "g = GReading rs re" "rn" "\<exists>ur. createOrUpdateRequest (AnObject ob) v x = Inr ur \<and>
        runs_always_or_spec x ur = Inr True \<and> bh_sync bh x ur = Inr (rs, re)"
    | "g = GDone None" "\<not> rn" "sync_one conv mmp bh ob v x = Inr (None, empty_changeset, [])"
    using assms(1,3) by (auto simp: begin_ext_def sync_one_def split: sum.splits bool.splits prod.splits)
  then show ?thesis
  proof cases
    case 1
    with assms single_fail will_end_fail show ?thesis by simp
  next
    case 2
    with assms show ?thesis
      by (auto simp: single_def will_end_def sync_one_def split: prod.splits option.splits recv_end.splits)
  next
    case 3
    with assms show ?thesis by (simp add: single_def will_end_def run_result_def)
  qed
qed

lemma single_step:
  assumes "run_step conv mmp bh ob v s s'" "single s"
  shows "single s' \<and> will_end conv mmp bh ob v s' = will_end conv mmp bh ob v s"
proof -
  obtain g where g: "rs_gors s = [g]" using assms(2) by (auto simp: single_def)
  from assms(1) show ?thesis
  proof cases
    case (begin_run i x rn g')
    then have "g = GStart x" using g by simp
    with begin_run g assms(2) have now: "rs_gors s' = [g']" "rs_ran s' = (if rn then [mg_name x] else [])"
      "rs_changeset s' = empty_changeset" "rs_errs s' = []"
      by (auto simp: single_def)
    have "will_end conv mmp bh ob v s = sync_one conv mmp bh ob v x"
      using g \<open>g = GStart x\<close> by (simp add: will_end_def)
    with single_begin[OF begin_run(4) now] show ?thesis by simp
  next
    case (read_fail i r rs e err cs)
    with g assms(2) single_fail[of s' err] will_end_fail[of s' err] show ?thesis
      by (auto simp: single_def will_end_def)
  next
    case (stream_err i err)
    with g assms(2) single_fail[of s' err] will_end_fail[of s' err] show ?thesis
      by (auto simp: single_def will_end_def)
  next
    case (read i r rs e cs)
    with g assms(2) show ?thesis
      by (auto simp: single_def will_end_def split: prod.splits option.splits recv_end.splits)
  qed (use g assms(2) in \<open>auto simp: single_def will_end_def run_result_def\<close>)
qed

lemma single_reach:
  "run_reach conv mmp bh ob v [x] s \<Longrightarrow> single s \<and> will_end conv mmp bh ob v s = sync_one conv mmp bh ob v x"
proof (induction rule: run_reach.induct)
  case start
  then show ?case by (simp add: run_start_def single_def will_end_def)
next
  case (step s s')
  with single_step[OF step.hyps(2)] show ?case by simp
qed

lemma run_ends:
  "\<exists>s'. (run_step conv mmp bh ob v)\<^sup>*\<^sup>* s s' \<and> (run_done s' \<or> (\<exists>e. GPanicked e \<in> set (rs_gors s')))"
proof (induction "run_weight bh ob v s" arbitrary: s rule: less_induct)
  case less
  show ?case
  proof (cases "run_done s \<or> (\<exists>e. GPanicked e \<in> set (rs_gors s))")
    case False
    then obtain g where "g \<in> set (rs_gors s)" "\<nexists>o1. g = GDone o1" by (auto simp: run_done_def)
    then obtain i where "i < length (rs_gors s)" "\<And>o1. rs_gors s ! i \<noteq> GDone o1" by (auto simp: in_set_conv_nth)
    with False obtain s1 where s1: "run_step conv mmp bh ob v s s1" using run_progress nth_mem by metis
    with less[OF run_step_weight[OF s1]] show ?thesis by (meson converse_rtranclp_into_rtranclp)
  qed blast
qed

lemma run_reach_steps: "(run_step conv mmp bh ob v)\<^sup>*\<^sup>* s s' \<Longrightarrow> run_reach conv mmp bh ob v exts s \<Longrightarrow> run_reach conv mmp bh ob v exts s'"
  by (induction rule: rtranclp_induct) (auto intro: run_reach.step)

lemma single_done: "run_done s \<Longrightarrow> single s \<Longrightarrow> will_end conv mmp bh ob v s = Inr (run_result s)"
  by (auto simp: run_done_def single_def will_end_def)

text \<open>
  C14: With one extension the result of \<open>Sync\<close> is determined: whatever the scheduler does, the
  concurrent run ends with what the sequential definition computes, and it ends so unless the process
  panics.
\<close>

theorem single_extension_sync:
  assumes "unmarshal_map (co_spec ob) = Inr v"
  shows "sync_result conv mmp bh ob [x] e r \<longleftrightarrow> (\<exists>res. r = Some res \<and> sync_one conv mmp bh ob v x = Inr (e, res))"
proof
  assume "sync_result conv mmp bh ob [x] e r"
  then show "\<exists>res. r = Some res \<and> sync_one conv mmp bh ob v x = Inr (e, res)"
  proof cases
    case (all_ran v' s)
    then have "run_reach conv mmp bh ob v [x] s" "run_done s" using assms by auto
    with single_reach single_done show ?thesis using all_ran(1,2) by (metis prod.collapse)
  qed (use assms in simp)
next
  assume "\<exists>res. r = Some res \<and> sync_one conv mmp bh ob v x = Inr (e, res)"
  then obtain res where res: "r = Some res" "sync_one conv mmp bh ob v x = Inr (e, res)" by blast
  obtain s where s: "run_reach conv mmp bh ob v [x] s" "run_done s \<or> (\<exists>e. GPanicked e \<in> set (rs_gors s))"
    using run_ends[of conv mmp bh ob v "run_start [x]"] run_reach_steps[OF _ run_reach.start] by blast
  have one: "single s" "will_end conv mmp bh ob v s = Inr (e, res)" using single_reach[OF s(1)] res by auto
  then have "run_done s" using s(2) by (auto simp: single_def will_end_def)
  with single_done[OF _ one(1)] one(2) have "run_result s = (e, res)" by simp
  with sync_result.all_ran[OF assms s(1) \<open>run_done s\<close>] res show "sync_result conv mmp bh ob [x] e r" by simp
qed

theorem single_extension_sync_witness:
  "sync_result Inr (\<lambda>a b. Inr b) ex_labelling ex_object [ex_managed] None
     (Some (empty_changeset\<lparr>cg_labels := [(''team'', ''a'')]\<rparr>, [''ingress'']))"
proof -
  have "sync_one Inr (\<lambda>a b. Inr b) ex_labelling ex_object (Some ex_spec_map) ex_managed =
      Inr (None, empty_changeset\<lparr>cg_labels := [(''team'', ''a'')]\<rparr>, [''ingress''])"
    by (simp add: sync_one_def request_of_eq ex_request_runs ex_labelling_def)
      (simp add: empty_changeset_def ex_managed_def)
  with single_extension_sync[OF ex_object_spec] show ?thesis by simp
qed

end
