(* ===== verification/Ext_Test.thy ===== *)
theory Ext_Test
  imports Reconciler
begin

text \<open>
  The test runner for WASI extensions, \<open>cmd/extgen/wasi/test_model.go\<close> and \<open>test.go\<close>: it builds an
  extension manager with one extension and a fake cluster, and runs the extension controller on the
  objects of test files. Reading and decoding files, converting unstructured objects, comparing
  objects (\<open>cmp.Equal\<close>) and the fake cluster are parameters.
\<close>

section \<open>Objects\<close>

record unstr =
  us_kind :: string
  us_apiVersion :: string
  us_namespace :: string
  us_name :: string
  us_body :: json

text \<open>The interface \<open>Object\<close>, with the conversion into it and the comparison.\<close>

record 'o object_view =
  ov_ctl :: "'o \<Rightarrow> ctl_object"
  ov_ops :: "'o object_ops"
  ov_setKind :: "string \<Rightarrow> string \<Rightarrow> 'o \<Rightarrow> 'o"
  ov_convert :: "unstr \<Rightarrow> gerr + 'o"
  ov_equal :: "'o \<Rightarrow> 'o \<Rightarrow> bool"

text \<open>\<open>newObject\<close>: nil for nil, a panic for an unknown kind or a failed conversion.\<close>

definition newObject :: "'o object_view \<Rightarrow> unstr option \<Rightarrow> gerr + 'o option" where
  "newObject V u =
     (case u of
        None \<Rightarrow> Inr None
      | Some x \<Rightarrow>
          (if us_kind x \<noteq> ''Application'' \<and> us_kind x \<noteq> ''Work''
           then Inl (EPanic (''unknown kind: '' @ us_kind x))
           else (case ov_convert V x of
                   Inl e \<Rightarrow> Inl (EPanic ''convert'')
                 | Inr v \<Rightarrow>
                     Inr (Some (if co_kind (ov_ctl V v) = '''' then ov_setKind V (us_apiVersion x) (us_kind x) v
                                else v)))))"

definition iface_of :: "'o object_view \<Rightarrow> 'o option \<Rightarrow> obj_arg" where
  "iface_of V v = (case v of None \<Rightarrow> NilIface | Some x \<Rightarrow> AnObject (ov_ctl V x))"

text \<open>A panic in a goroutine of the controller ends the process: it is no error the runner sees.\<close>

fun has_panic :: "gerr \<Rightarrow> bool" where
  "has_panic (EPanic s) = True"
| "has_panic (EMulti es) = (\<exists>e \<in> set es. has_panic e)"
| "has_panic e = False"

section \<open>Tests\<close>

record validate_test =
  va_resource :: "unstr option"
  va_invalid :: bool
  va_old :: "unstr option"
  va_type :: string

record defaulting_test =
  df_resource :: "unstr option"
  df_expected :: "unstr option"

record sync_test =
  sy_resource :: "unstr option"
  sy_expected :: "unstr option"
  sy_lookup :: "unstr list"

record delete_test =
  dl_resource :: "unstr option"
  dl_notFound :: "unstr list"

record test =
  tt_name :: string
  tt_validate :: "validate_test option"
  tt_defaulting :: "defaulting_test option"
  tt_sync :: "sync_test option"
  tt_delete :: "delete_test option"

text \<open>
  What a test runs on: the extensions of a kind and what they answer, the outcome of \<open>Sync\<close>, the
  objects of the cluster after the call (for a lookup and a namespace), and the two merge functions.
  A result is a panic or whether the test passes.
\<close>

record 'o test_env =
  tv_behaviour :: behaviour
  tv_exts :: "string \<Rightarrow> managed list"
  tv_sync :: "'o \<Rightarrow> gerr option \<times> (changeset \<times> string list) option"
  tv_get :: "unstr \<Rightarrow> string \<Rightarrow> gerr + unstr"
  tv_sameUnstr :: "unstr \<Rightarrow> unstr \<Rightarrow> bool"
  tv_mmp :: "raw \<Rightarrow> raw \<Rightarrow> gerr + raw"
  tv_mp :: "raw \<Rightarrow> raw \<Rightarrow> gerr + raw"

definition failed_by :: "gerr \<Rightarrow> gerr + bool" where
  "failed_by e = (if has_panic e then Inl e else Inr False)"

definition test_type :: "string \<Rightarrow> validation_type option" where
  "test_type s = (if s = ''create'' then Some VT_CREATE else if s = ''update'' then Some VT_UPDATE
     else if s = ''delete'' then Some VT_DELETE else None)"

text \<open>For a deletion the resource becomes the old object, and the new one the nil interface.\<close>

definition test_old :: "'o object_view \<Rightarrow> validate_test \<Rightarrow> 'o option \<Rightarrow> gerr + 'o option" where
  "test_old V t newO =
     (if va_type t = ''update''
      then (case va_old t of None \<Rightarrow> newObject V (va_resource t) | Some u \<Rightarrow> newObject V (Some u))
      else if va_type t = ''delete'' then Inr newO
      else Inr None)"

definition test_validate :: "'o object_view \<Rightarrow> 'o test_env \<Rightarrow> validate_test \<Rightarrow> gerr + bool" where
  "test_validate V env t =
     (case test_type (va_type t) of
        None \<Rightarrow> Inr False
      | Some typ \<Rightarrow>
          (case newObject V (va_resource t) of
             Inl e \<Rightarrow> Inl e
           | Inr newO \<Rightarrow>
               (case test_old V t newO of
                  Inl e \<Rightarrow> Inl e
                | Inr old \<Rightarrow>
                    (case controller_validate (tv_behaviour env) typ
                            (if va_type t = ''delete'' then NilIface else iface_of V newO) (iface_of V old)
                            (tv_exts env) of
                       Some e \<Rightarrow> if has_panic e then Inl e else Inr (va_invalid t)
                     | None \<Rightarrow> Inr (\<not> va_invalid t)))))"

text \<open>The object after the call is compared with the expected one, or with the one before.\<close>

definition compare_expected :: "'o object_view \<Rightarrow> unstr option \<Rightarrow> 'o \<Rightarrow> 'o \<Rightarrow> gerr + bool" where
  "compare_expected V expected before after =
     (case expected of
        None \<Rightarrow> Inr (ov_equal V after before)
      | Some u \<Rightarrow>
          (case newObject V (Some u) of
             Inl e \<Rightarrow> Inl e
           | Inr None \<Rightarrow> Inr False
           | Inr (Some x) \<Rightarrow> Inr (ov_equal V after x)))"

definition test_defaulting :: "'o object_view \<Rightarrow> 'o test_env \<Rightarrow> defaulting_test \<Rightarrow> gerr + bool" where
  "test_defaulting V env t =
     (case newObject V (df_resource t) of
        Inl e \<Rightarrow> Inl e
      | Inr None \<Rightarrow> Inl (EPanic ''nil pointer dereference'')
      | Inr (Some ob) \<Rightarrow>
          (case controller_default (tv_behaviour env) (ov_ctl V ob) (tv_exts env (co_kind (ov_ctl V ob))) of
             (Some e, resp) \<Rightarrow> failed_by e
           | (None, resp) \<Rightarrow>
               (if length resp \<noteq> 1 then Inr False
                else (case AddMergePatch (tv_mmp env) (ds_spec (hd resp)) empty_changeset of
                        (Some e, c) \<Rightarrow> Inr False
                      | (None, c) \<Rightarrow>
                          (case changeset_apply (tv_mp env) (ov_ops V) c ob of
                             (Some e, after) \<Rightarrow> Inr False
                           | (None, after) \<Rightarrow> compare_expected V (df_expected t) ob after)))))"

definition lookup_namespace :: "'o object_view \<Rightarrow> 'o \<Rightarrow> unstr \<Rightarrow> string" where
  "lookup_namespace V ob u =
     (if us_namespace u = '''' then om_namespace (co_meta (ov_ctl V ob)) else us_namespace u)"

fun lookups_found :: "'o object_view \<Rightarrow> 'o test_env \<Rightarrow> 'o \<Rightarrow> unstr list \<Rightarrow> bool" where
  "lookups_found V env ob [] = True"
| "lookups_found V env ob (u # us) =
     (case tv_get env u (lookup_namespace V ob u) of
        Inl e \<Rightarrow> False
      | Inr x \<Rightarrow> if \<not> tv_sameUnstr env u x then False else lookups_found V env ob us)"

text \<open>The namespace of a lookup is read from the object after the changeset was applied.\<close>

definition test_sync :: "'o object_view \<Rightarrow> 'o test_env \<Rightarrow> sync_test \<Rightarrow> gerr + bool" where
  "test_sync V env t =
     (case newObject V (sy_resource t) of
        Inl e \<Rightarrow> Inl e
      | Inr None \<Rightarrow> Inl (EPanic ''nil pointer dereference'')
      | Inr (Some ob) \<Rightarrow>
          (case tv_sync env ob of
             (Some e, r) \<Rightarrow> failed_by e
           | (None, None) \<Rightarrow> Inl (EPanic ''nil pointer dereference'')
           | (None, Some (c, names)) \<Rightarrow>
               (case changeset_apply (tv_mp env) (ov_ops V) c ob of
                  (Some e, after) \<Rightarrow> Inr False
                | (None, after) \<Rightarrow>
                    (case compare_expected V (sy_expected t) ob after of
                       Inl e \<Rightarrow> Inl e
                     | Inr False \<Rightarrow> Inr False
                     | Inr True \<Rightarrow> Inr (lookups_found V env after (sy_lookup t))))))"

fun lookups_gone :: "'o object_view \<Rightarrow> 'o test_env \<Rightarrow> 'o \<Rightarrow> unstr list \<Rightarrow> bool" where
  "lookups_gone V env ob [] = True"
| "lookups_gone V env ob (u # us) =
     (case tv_get env u (lookup_namespace V ob u) of
        Inl e \<Rightarrow> if \<not> is_not_found e then False else lookups_gone V env ob us
      | Inr x \<Rightarrow> False)"

definition test_delete :: "'o object_view \<Rightarrow> 'o test_env \<Rightarrow> delete_test \<Rightarrow> gerr + bool" where
  "test_delete V env t =
     (case newObject V (dl_resource t) of
        Inl e \<Rightarrow> Inl e
      | Inr None \<Rightarrow> Inl (EPanic ''nil pointer dereference'')
      | Inr (Some ob) \<Rightarrow>
          (case controller_delete (tv_behaviour env) (ov_ctl V ob) (tv_exts env (co_kind (ov_ctl V ob))) of
             Some e \<Rightarrow> failed_by e
           | None \<Rightarrow> Inr (lookups_gone V env ob (dl_notFound t))))"

text \<open>\<open>Test\<close>: the first part that is there; a test without any part fails.\<close>

definition run_test :: "'o object_view \<Rightarrow> 'o test_env \<Rightarrow> test \<Rightarrow> gerr + bool" where
  "run_test V env t =
     (case tt_validate t of Some v \<Rightarrow> test_validate V env v | None \<Rightarrow>
     (case tt_defaulting t of Some d \<Rightarrow> test_defaulting V env d | None \<Rightarrow>
     (case tt_sync t of Some s \<Rightarrow> test_sync V env s | None \<Rightarrow>
     (case tt_delete t of Some d \<Rightarrow> test_delete V env d | None \<Rightarrow> Inr False))))"

section \<open>Test files\<close>

fun run_tests :: "(nat \<Rightarrow> test \<Rightarrow> gerr + bool) \<Rightarrow> nat \<Rightarrow> test list \<Rightarrow> gerr option" where
  "run_tests run n [] = None"
| "run_tests run n (t # ts) =
     (case run n t of
        Inl e \<Rightarrow> Some e
      | Inr False \<Rightarrow> Some (EMsg (''test failed: '' @ tt_name t))
      | Inr True \<Rightarrow> run_tests run (Suc n) ts)"

text \<open>A config needs an extension that names a config map; \<open>WASI\<close> is dereferenced before it is looked at.\<close>

definition config_error :: "(string, string) gomap \<Rightarrow> extension \<Rightarrow> gerr option" where
  "config_error config ext =
     (if config = [] then None
      else (case cs_wasi (es_controller (ex_spec ext)) of
              None \<Rightarrow> Some (EPanic ''nil pointer dereference'')
            | Some w \<Rightarrow>
                (case wc_configMap w of
                   None \<Rightarrow> Some (EMsg ''config not supported when no config map is defined in the extension CRD'')
                 | Some cm \<Rightarrow>
                     (if cm_name cm = ''''
                      then Some (EMsg ''config not supported when no config map name is defined in the extension CRD'')
                      else if cm_namespace cm = ''''
                      then Some (EMsg ''config not supported when no config map namespace is defined in the extension CRD'')
                      else None))))"

text \<open>\<open>loader\<close>: whatever the image and tag, the file that was given.\<close>

definition test_loader :: "byte list \<Rightarrow> string \<Rightarrow> string \<Rightarrow> gerr + layers" where
  "test_loader b img tag = Inr [(MediaTypeWASI, b)]"

text \<open>
  What \<open>testFile\<close> needs besides the file: the base resources of the manager and their parser, the
  module of the extension, and what each test runs on (the extensions come from the manager).
\<close>

record ('f, 'p, 'o) test_setup =
  ts_parse :: "'f \<Rightarrow> gerr + (string, string) gomap \<times> test list"
  ts_bases :: "(gerr + string \<times> (gerr + 'f)) list"
  ts_parseBase :: "'f \<Rightarrow> gerr + crd_file"
  ts_manager :: "'p manager_env"
  ts_module :: "byte list"
  ts_env :: "nat \<Rightarrow> 'o test_env"

definition test_manager :: "('f, 'p, 'o) test_setup \<Rightarrow> extension \<Rightarrow> gerr option \<times> 'p ext_manager" where
  "test_manager S ext =
     (case new_manager (ts_parseBase S) (ts_bases S) of
        (Some e, m) \<Rightarrow> (Some (EWrap ''failed to create extension manager'' e), m)
      | (None, m) \<Rightarrow>
          (case manager_add (ts_manager S\<lparr>mv_loader := test_loader (ts_module S)\<rparr>) ext m of
             (Some e, m1) \<Rightarrow> (Some (EWrap ''failed to add extension'' e), m1)
           | (None, m1) \<Rightarrow> (None, m1)))"

definition test_file ::
    "'o object_view \<Rightarrow> ('f, 'p, 'o) test_setup \<Rightarrow> extension \<Rightarrow> gerr + 'f \<Rightarrow> gerr option" where
  "test_file V S ext content =
     (case content of
        Inl e \<Rightarrow> Some (EWrap ''failed to read test file'' e)
      | Inr b \<Rightarrow>
          (case ts_parse S b of
             Inl e \<Rightarrow> Some (EWrap ''failed to unmarshal test file'' e)
           | Inr (config, tests) \<Rightarrow>
               (case config_error config ext of
                  Some e \<Rightarrow> Some e
                | None \<Rightarrow>
                    (case test_manager S ext of
                       (Some e, m) \<Rightarrow> Some e
                     | (None, m) \<Rightarrow>
                         run_tests (\<lambda>n. run_test V (ts_env S n\<lparr>tv_exts := extensions_for m\<rparr>)) 0 tests))))"

text \<open>The walk over the directory of tests: path, error of the walk, directory or the content.\<close>

fun test_dir ::
    "'o object_view \<Rightarrow> ('f, 'p, 'o) test_setup \<Rightarrow> extension \<Rightarrow>
     (string \<times> gerr option \<times> bool \<times> (gerr + 'f)) list \<Rightarrow> gerr option" where
  "test_dir V S ext [] = None"
| "test_dir V S ext ((path, err, dir, content) # fs) =
     (case err of
        Some e \<Rightarrow> Some e
      | None \<Rightarrow>
          (if dir \<or> path_ext path \<noteq> ''.yaml'' then test_dir V S ext fs
           else (case test_file V S ext content of
                   Some e \<Rightarrow> Some (EWrap path e)
                 | None \<Rightarrow> test_dir V S ext fs)))"

section \<open>The runner and the webhooks\<close>

text \<open>The controller does not tell the nil interface from a nil pointer.\<close>

lemma no_spec_no_request: "createOrUpdateRequest arg None x = Inr None"
  by (simp add: createOrUpdateRequest_def)

lemma validate_one_nil:
  "validate_one bh typ NilIface o1 None v = validate_one bh typ TypedNil o1 None v"
  "validate_one bh typ n NilIface v None = validate_one bh typ n TypedNil v None"
  by (rule ext, simp add: validate_one_def no_spec_no_request split: sum.split)+

lemma typed_nil:
  "controller_validate bh typ NilIface o1 exts = controller_validate bh typ TypedNil o1 exts"
  "controller_validate bh typ n NilIface exts = controller_validate bh typ n TypedNil exts"
  by (simp_all add: controller_validate_def validate_one_nil raw_nonempty_def split: sum.split obj_arg.split)

text \<open>What the webhook of the operator answers to the request that a test describes.\<close>

definition webhook_answer ::
    "'o object_view \<Rightarrow> 'o test_env \<Rightarrow> string \<Rightarrow> 'o \<Rightarrow> 'o \<Rightarrow> gerr option" where
  "webhook_answer V env typ v old =
     (if typ = ''create'' then ValidateCreate (ov_ctl V) (tv_behaviour env) (tv_exts env) v
      else if typ = ''update'' then ValidateUpdate (ov_ctl V) (tv_behaviour env) (tv_exts env) old v
      else ValidateDelete (ov_ctl V) (tv_behaviour env) (tv_exts env) v)"

lemma hook_validate_None:
  "hook_validate ob bh exts typ n old = None \<longleftrightarrow>
   (n \<noteq> None \<or> old \<noteq> None) \<and> controller_validate bh typ (hook_arg ob n) (hook_arg ob old) exts = None"
  by (auto simp: hook_validate_def split: option.splits gerr.splits)

lemma iface_hook:
  "controller_validate bh typ (iface_of V n) (iface_of V old) exts =
   controller_validate bh typ (hook_arg (ov_ctl V) n) (hook_arg (ov_ctl V) old) exts"
  by (cases n; cases old) (simp_all add: iface_of_def hook_arg_def typed_nil)

text \<open>
  C31: The test runner predicts the validating webhook: a validation test of a resource that converts
  passes exactly when its expectation agrees with what the operator's webhook answers with the same
  extensions, for creations, updates (also when the old object is left out) and deletions, unless an
  extension panics.
\<close>

theorem runner_predicts_validation:
  assumes "newObject V (Some u) = Inr (Some v)" "va_resource t = Some u" "test_type (va_type t) \<noteq> None"
    and "va_type t = ''update'' \<Longrightarrow> case va_old t of None \<Rightarrow> old = v | Some u0 \<Rightarrow> newObject V (Some u0) = Inr (Some old)"
    and "\<And>e. test_validate V env t \<noteq> Inl e"
  shows "test_validate V env t = Inr (va_invalid t \<longleftrightarrow> webhook_answer V env (va_type t) v old \<noteq> None)"
proof -
  let ?cv = "\<lambda>typ n old. controller_validate (tv_behaviour env) typ (iface_of V n) (iface_of V old) (tv_exts env)"
  have verdict: "test_validate V env t = Inr (va_invalid t \<longleftrightarrow> r \<noteq> None)"
    if "test_validate V env t = (case r of Some e \<Rightarrow> if has_panic e then Inl e else Inr (va_invalid t)
          | None \<Rightarrow> Inr (\<not> va_invalid t))" for r
    using that assms(5) by (auto split: option.splits if_splits)
  consider (create) "va_type t = ''create''" | (update) "va_type t = ''update''" | (delete) "va_type t = ''delete''"
    using assms(3) by (auto simp: test_type_def split: if_splits)
  then show ?thesis
  proof cases
    case create
    then have "test_validate V env t = Inr (va_invalid t \<longleftrightarrow> ?cv VT_CREATE (Some v) None \<noteq> None)"
      using assms(1,2) by (intro verdict) (simp add: test_validate_def test_type_def test_old_def)
    with create show ?thesis
      by (simp add: webhook_answer_def ValidateCreate_def hook_validate_None iface_hook)
  next
    case update
    then have "test_validate V env t = Inr (va_invalid t \<longleftrightarrow> ?cv VT_UPDATE (Some v) (Some old) \<noteq> None)"
      using assms(1,2,4) by (intro verdict) (auto simp: test_validate_def test_type_def test_old_def split: option.splits)
    with update show ?thesis
      by (simp add: webhook_answer_def ValidateUpdate_def hook_validate_None iface_hook)
  next
    case delete
    then have "test_validate V env t = Inr (va_invalid t \<longleftrightarrow> ?cv VT_DELETE None (Some v) \<noteq> None)"
      using assms(1,2) by (intro verdict) (simp add: test_validate_def test_type_def test_old_def iface_of_def)
    with delete show ?thesis
      by (simp add: webhook_answer_def ValidateDelete_def hook_validate_None iface_hook)
  qed
qed

text \<open>
  The test runner predicts the defaulting webhook: with one extension that has defaults, a
  defaulting test passes exactly when the operator's webhook would leave the object equal to the
  expected one, provided the defaults of the kind itself change nothing and no extension panics.
\<close>

theorem runner_predicts_defaults:
  assumes "newObject V (df_resource t) = Inr (Some v)" "df_expected t = Some u" "newObject V (Some u) = Inr (Some x)"
    and "filter (\<lambda>x. wh_defaulting (es_webhooks (mg_spec x))) (tv_exts env (co_kind (ov_ctl V v))) = [ext]"
    and "case ch_default ch of None \<Rightarrow> True | Some f \<Rightarrow> f v = (None, v)"
    and "\<And>e. test_defaulting V env t \<noteq> Inl e"
  shows "test_defaulting V env t = Inr (\<exists>after.
    hook_default ch (ov_ctl V) (tv_behaviour env) (tv_exts env) (tv_mmp env) (tv_mp env) (ov_ops V) v = (None, after) \<and>
    ov_equal V after x)"
proof -
  have own: "(case ch_default ch of None \<Rightarrow> (None, v) | Some f \<Rightarrow> f v) = (None, v)"
    using assms(5) by (auto split: option.splits)
  obtain e resp where cd: "controller_default (tv_behaviour env) (ov_ctl V v) (tv_exts env (co_kind (ov_ctl V v))) = (e, resp)"
    by force
  show ?thesis
  proof (cases e)
    case (Some err)
    have "\<not> has_panic err"
      using assms(6)[of err] assms(1) cd Some by (auto simp: test_defaulting_def failed_by_def)
    with assms(1) cd Some show ?thesis
      by (simp add: test_defaulting_def hook_default_def own failed_by_def)
  next
    case None
    then obtain r where r: "resp = [r]"
      using cd assms(4) by (auto simp: controller_default_def values_of_def errors_of_def map_filter_simps Let_def
          split: sum.splits if_splits)
    show ?thesis
      using assms(1-3) cd None r
      by (auto simp: test_defaulting_def hook_default_def own compare_expected_def split: prod.splits option.splits)
  qed
qed

text \<open>
  A test file passes exactly when its extension can be added and every test of it passes: there
  is a manager that has taken the extension, and the tests, in order, succeed on the extensions that
  this manager calls.
\<close>

lemma test_file_passes_iff:
  assumes "ts_parse S b = Inr (config, tests)"
  shows "test_file V S ext (Inr b) = None \<longleftrightarrow>
    config_error config ext = None \<and>
    (\<exists>m. test_manager S ext = (None, m) \<and>
       (\<forall>i < length tests. run_test V (ts_env S i\<lparr>tv_exts := extensions_for m\<rparr>) (tests ! i) = Inr True))"
proof -
  have "run_tests run n ts = None \<longleftrightarrow> (\<forall>i < length ts. run (n + i) (ts ! i) = Inr True)"
    for run :: "nat \<Rightarrow> test \<Rightarrow> gerr + bool" and n ts
  proof (induction ts arbitrary: n)
    case (Cons t ts)
    have "(\<forall>i < length (t # ts). run (n + i) ((t # ts) ! i) = Inr True) \<longleftrightarrow>
        run n t = Inr True \<and> (\<forall>i < length ts. run (Suc n + i) (ts ! i) = Inr True)"
      by (simp add: All_less_Suc2)
    then show ?case by (auto simp: Cons.IH split: sum.splits bool.splits)
  qed simp
  then show ?thesis
    using assms by (auto simp: test_file_def split: option.splits prod.splits)
qed

text \<open>The documented default of the type is not applied: without a type a validation test fails.\<close>

lemma no_default_type: "va_type t = '''' \<Longrightarrow> test_validate V env t = Inr False"
  by (simp add: test_validate_def test_type_def)

section \<open>Witnesses\<close>

definition ex_ctl_ops :: "ctl_object object_ops" where
  "ex_ctl_ops = \<lparr>oo_getLabels = (\<lambda>v. om_labels (co_meta v)),
     oo_setLabels = (\<lambda>m v. v\<lparr>co_meta := (co_meta v)\<lparr>om_labels := m\<rparr>\<rparr>),
     oo_getAnnotations = (\<lambda>v. om_annotations (co_meta v)),
     oo_setAnnotations = (\<lambda>m v. v\<lparr>co_meta := (co_meta v)\<lparr>om_annotations := m\<rparr>\<rparr>),
     oo_marshal = (\<lambda>v. Inr (co_spec v)), oo_unmarshal = (\<lambda>b v. (None, v))\<rparr>"

definition ex_view :: "ctl_object object_view" where
  "ex_view = \<lparr>ov_ctl = (\<lambda>v. v), ov_ops = ex_ctl_ops, ov_setKind = (\<lambda>a k v. v\<lparr>co_apiVersion := a, co_kind := k\<rparr>),
     ov_convert = (\<lambda>u. Inr ex_object), ov_equal = (=)\<rparr>"

definition ex_unstr :: unstr where
  "ex_unstr = \<lparr>us_kind = ''Application'', us_apiVersion = ''suffiks.com/v1'', us_namespace = ''ns'', us_name = ''web'',
     us_body = JNull\<rparr>"

definition ex_test_env :: "ctl_object test_env" where
  "ex_test_env = \<lparr>tv_behaviour = ex_behaviour, tv_exts = (\<lambda>k. [ex_managed]),
     tv_sync = (\<lambda>v. (None, Some (empty_changeset, []))), tv_get = (\<lambda>u ns. Inr u), tv_sameUnstr = (=),
     tv_mmp = (\<lambda>a b. Inr b), tv_mp = (\<lambda>a b. Inr b)\<rparr>"

lemma ex_new: "newObject ex_view (Some ex_unstr) = Inr (Some ex_object)"
  by (simp add: newObject_def ex_unstr_def ex_view_def ex_object_def)

lemma ex_webhooks: "es_webhooks (mg_spec ex_managed) = \<lparr>wh_validation = True, wh_defaulting = True\<rparr>"
  by (simp add: ex_managed_def ex_ingress_def ex_extension_def)

lemma ex_validates: "\<exists>fs. controller_validate ex_behaviour VT_CREATE (AnObject ex_object) NilIface (\<lambda>k. [ex_managed]) =
    Some (EFieldErrs fs)"
proof -
  have "raw_nonempty (co_spec ex_object)" by (simp add: ex_object_def raw_nonempty_def)
  then show ?thesis
    by (simp add: controller_validate_def ex_object_spec validate_one_def request_of_eq ex_webhooks ex_behaviour_def
        raw_nonempty_def Let_def map_filter_simps)
qed

theorem runner_predicts_validation_witness:
  "test_validate ex_view ex_test_env \<lparr>va_resource = Some ex_unstr, va_invalid = True, va_old = None, va_type = ''create''\<rparr> =
   Inr True"
proof -
  let ?t = "\<lparr>va_resource = Some ex_unstr, va_invalid = True, va_old = None, va_type = ''create''\<rparr>"
  obtain fs where fs: "controller_validate ex_behaviour VT_CREATE (AnObject ex_object) NilIface (\<lambda>k. [ex_managed]) =
      Some (EFieldErrs fs)" using ex_validates by blast
  have view: "ov_ctl ex_view = (\<lambda>v. v)" "tv_behaviour ex_test_env = ex_behaviour" "tv_exts ex_test_env = (\<lambda>k. [ex_managed])"
    by (simp_all add: ex_view_def ex_test_env_def)
  have "test_validate ex_view ex_test_env ?t \<noteq> Inl e" for e
    by (simp add: test_validate_def test_type_def test_old_def ex_new iface_of_def view fs)
  from runner_predicts_validation[OF ex_new _ _ _ this, of ex_object]
  have predicted: "test_validate ex_view ex_test_env ?t =
      Inr (webhook_answer ex_view ex_test_env ''create'' ex_object ex_object \<noteq> None)"
    by (simp add: test_type_def)
  have "webhook_answer ex_view ex_test_env ''create'' ex_object ex_object \<noteq> None"
    using fs by (simp add: webhook_answer_def ValidateCreate_def hook_validate_None hook_arg_def view typed_nil)
  with predicted show ?thesis by simp
qed

definition ex_plain_child :: "(ctl_object, unit) child" where
  "ex_plain_child = \<lparr>ch_createOrUpdate = (\<lambda>v c w. (None, w)), ch_delete = (\<lambda>v w. (None, w)),
     ch_updateStatus = (\<lambda>v ns w. ((False, None, v), w)), ch_isModified = (\<lambda>v w. (Inr False, w)),
     ch_extensions = (\<lambda>v. []), ch_default = None\<rparr>"

theorem runner_predicts_defaults_witness:
  "test_defaulting ex_view ex_test_env \<lparr>df_resource = Some ex_unstr, df_expected = Some ex_unstr\<rparr> = Inr True"
proof -
  let ?t = "\<lparr>df_resource = Some ex_unstr, df_expected = Some ex_unstr\<rparr>"
  have view: "ov_ctl ex_view = (\<lambda>v. v)" "ov_ops ex_view = ex_ctl_ops" "ov_equal ex_view = (=)"
      "tv_behaviour ex_test_env = ex_behaviour" "tv_exts ex_test_env = (\<lambda>k. [ex_managed])"
    by (simp_all add: ex_view_def ex_test_env_def)
  have default1: "controller_default ex_behaviour ex_object [ex_managed] = (None, [\<lparr>ds_spec = RawNil\<rparr>])"
    by (simp add: controller_default_def ex_object_spec defaulter_def request_of_eq ex_webhooks ex_behaviour_def
        errors_of_def values_of_def map_filter_simps Let_def)
  have same: "changeset_apply mp ex_ctl_ops empty_changeset ex_object = (None, ex_object)" for mp
    by (simp add: changeset_apply_def ex_ctl_ops_def empty_changeset_def ex_object_def zero_meta_def mergeMaps_def
        raw_nonempty_def Let_def)
  have pass: "test_defaulting ex_view ex_test_env ?t \<noteq> Inl e" for e
    by (simp add: test_defaulting_def ex_new view default1 AddMergePatch_def raw_nonempty_def same compare_expected_def)
  from runner_predicts_defaults[OF _ _ ex_new _ _ pass, of ex_object ex_managed ex_plain_child]
  have "test_defaulting ex_view ex_test_env ?t = Inr (\<exists>after. hook_default ex_plain_child (\<lambda>v. v) ex_behaviour (\<lambda>k. [ex_managed])
      (tv_mmp ex_test_env) (tv_mp ex_test_env) ex_ctl_ops ex_object = (None, after) \<and> after = ex_object)"
    by (simp add: ex_new ex_webhooks ex_plain_child_def view)
  moreover have "hook_default ex_plain_child (\<lambda>v. v) ex_behaviour (\<lambda>k. [ex_managed])
      (tv_mmp ex_test_env) (tv_mp ex_test_env) ex_ctl_ops ex_object = (None, ex_object)"
    by (simp add: hook_default_def ex_plain_child_def default1 AddMergePatch_def raw_nonempty_def same)
  ultimately show ?thesis by simp
qed

end
