(* ===== verification/Sdk.thy ===== *)
theory Sdk
  imports Ext_Controller
begin

text \<open>
  The kit for writing extensions in Go, \<open>extension/server.go\<close>, \<open>wrapper.go\<close>, \<open>response_writer.go\<close>,
  \<open>config.go\<close> and \<open>validation.go\<close>, and the extension for ingresses that is written with it,
  \<open>extension/example/controller/ingress.go\<close>.
\<close>

section \<open>Owner\<close>

text \<open>\<open>Owner\<close> wraps a pointer; its methods dereference it.\<close>

definition owner_field :: "(owner \<Rightarrow> 'a) \<Rightarrow> owner option \<Rightarrow> gerr + 'a" where
  "owner_field f ow = (case ow of None \<Rightarrow> Inl (EPanic ''nil pointer dereference'') | Some x \<Rightarrow> Inr (f x))"

definition OwnerReference :: "owner option \<Rightarrow> gerr + owner_ref" where
  "OwnerReference ow = owner_field (\<lambda>x. \<lparr>or_apiVersion = ow_apiVersion x, or_kind = ow_kind x,
     or_name = ow_name x, or_uid = ow_uid x\<rparr>) ow"

definition ObjectMeta :: "owner option \<Rightarrow> gerr + obj_meta" where
  "ObjectMeta ow = owner_field (\<lambda>x. zero_meta\<lparr>om_name := ow_name x, om_namespace := ow_namespace x,
     om_labels := ow_labels x, om_annotations := ow_annotations x,
     om_owners := [\<lparr>or_apiVersion = ow_apiVersion x, or_kind = ow_kind x,
       or_name = ow_name x, or_uid = ow_uid x\<rparr>]\<rparr>) ow"

definition validation_type_string :: "validation_type \<Rightarrow> string" where
  "validation_type_string v =
     (if v = 0 then ''create'' else if v = 1 then ''update'' else if v = 2 then ''delete'' else ''unknown'')"

section \<open>Response writer\<close>

text \<open>
  What an extension does in \<open>Sync\<close>: it sends responses, sees whether sending failed, works on its own
  resources, and returns.
\<close>

datatype 'w writer_prog =
    WReturn "gerr option"
  | WSend response "gerr option \<Rightarrow> 'w writer_prog"
  | WDo "'w \<Rightarrow> 'w \<times> 'w writer_prog"

definition AddEnv_to :: "string \<Rightarrow> string \<Rightarrow> (gerr option \<Rightarrow> 'w writer_prog) \<Rightarrow> 'w writer_prog" where
  "AddEnv_to name value k = WSend (REnv \<lparr>kv_name = name, kv_value = value\<rparr>) k"

definition AddLabel_to :: "string \<Rightarrow> string \<Rightarrow> (gerr option \<Rightarrow> 'w writer_prog) \<Rightarrow> 'w writer_prog" where
  "AddLabel_to name value k = WSend (RLabel \<lparr>kv_name = name, kv_value = value\<rparr>) k"

definition AddAnnotation_to :: "string \<Rightarrow> string \<Rightarrow> (gerr option \<Rightarrow> 'w writer_prog) \<Rightarrow> 'w writer_prog" where
  "AddAnnotation_to name value k = WSend (RAnnotation \<lparr>kv_name = name, kv_value = value\<rparr>) k"

definition MergePatch_to :: "raw \<Rightarrow> (gerr option \<Rightarrow> 'w writer_prog) \<Rightarrow> 'w writer_prog" where
  "MergePatch_to b k = WSend (RMergePatch b) k"

text \<open>
  Running it: \<open>send n\<close> is the error of the \<open>n\<close>-th message, if sending it fails; what was sent is
  collected.
\<close>

primrec run_writer ::
    "(nat \<Rightarrow> gerr option) \<Rightarrow> 'w writer_prog \<Rightarrow> response list \<Rightarrow> 'w \<Rightarrow> gerr option \<times> response list \<times> 'w" where
  "run_writer send (WReturn e) sent w = (e, sent, w)"
| "run_writer send (WSend r k) sent w =
     (case send (length sent) of
        None \<Rightarrow> run_writer send (k None) (sent @ [r]) w
      | Some e \<Rightarrow> run_writer send (k (Some e)) sent w)"
| "run_writer send (WDo f) sent w =
     (let r = map_prod id (\<lambda>p. run_writer send p sent) (f w) in snd r (fst r))"

section \<open>Server\<close>

text \<open>
  The extension, over the type \<open>'o\<close> of its specs: \<open>xe_zero\<close> is the zero value (nil for a pointer),
  \<open>xe_instance\<close> a new one, and \<open>xe_validate\<close> and \<open>xe_default\<close> are there if it has these methods.
\<close>

record ('o, 'w) sdk_extension =
  xe_decode :: "raw \<Rightarrow> gerr + 'o"
  xe_encode :: "'o \<Rightarrow> gerr + raw"
  xe_zero :: 'o
  xe_instance :: 'o
  xe_sync :: "owner option \<Rightarrow> 'o \<Rightarrow> 'w writer_prog"
  xe_delete :: "owner option \<Rightarrow> 'o \<Rightarrow> 'w \<Rightarrow> (delete_response \<times> gerr option) \<times> 'w"
  xe_validate :: "(validation_type \<Rightarrow> owner option \<Rightarrow> 'o \<Rightarrow> 'o \<Rightarrow> 'w \<Rightarrow> (gerr + validation_error list) \<times> 'w) option"
  xe_default :: "(owner option \<Rightarrow> 'o \<Rightarrow> 'w \<Rightarrow> (gerr + 'o) \<times> 'w) option"

definition decode_or :: "('o, 'w) sdk_extension \<Rightarrow> 'o \<Rightarrow> raw \<Rightarrow> gerr + 'o" where
  "decode_or x zero b = (if raw_nonempty b then xe_decode x b else Inr zero)"

definition server_sync ::
    "('o, 'w) sdk_extension \<Rightarrow> (nat \<Rightarrow> gerr option) \<Rightarrow> sync_request option \<Rightarrow> 'w \<Rightarrow>
     gerr option \<times> response list \<times> 'w" where
  "server_sync x send req w =
     (case decode_or x (xe_zero x) (sync_get_spec req) of
        Inl e \<Rightarrow> (Some e, [], w)
      | Inr obj \<Rightarrow> run_writer send (xe_sync x (sync_get_owner req) obj) [] w)"

definition server_delete ::
    "('o, 'w) sdk_extension \<Rightarrow> sync_request option \<Rightarrow> 'w \<Rightarrow> (gerr + delete_response) \<times> 'w" where
  "server_delete x req w =
     (case decode_or x (xe_zero x) (sync_get_spec req) of
        Inl e \<Rightarrow> (Inl e, w)
      | Inr obj \<Rightarrow>
          (case xe_delete x (sync_get_owner req) obj w of
             ((resp, Some e), w1) \<Rightarrow> (Inl e, w1)
           | ((resp, None), w1) \<Rightarrow> (Inr resp, w1)))"

text \<open>A nil response, which goes over the wire as the empty message.\<close>

definition server_default ::
    "('o, 'w) sdk_extension \<Rightarrow> sync_request option \<Rightarrow> 'w \<Rightarrow> (gerr + default_response option) \<times> 'w" where
  "server_default x req w =
     (case xe_default x of
        None \<Rightarrow> (Inr None, w)
      | Some f \<Rightarrow>
          (case decode_or x (xe_zero x) (sync_get_spec req) of
             Inl e \<Rightarrow> (Inl e, w)
           | Inr obj \<Rightarrow>
               (case f (sync_get_owner req) obj w of
                  (Inl e, w1) \<Rightarrow> (Inl e, w1)
                | (Inr def, w1) \<Rightarrow>
                    (case xe_encode x def of
                       Inl e \<Rightarrow> (Inl e, w1)
                     | Inr b \<Rightarrow> (Inr (Some \<lparr>ds_spec = b\<rparr>), w1)))))"

text \<open>The owner handed to the extension is the one of the new object, \<open>sync.GetOwner()\<close>.\<close>

definition server_validate ::
    "('o, 'w) sdk_extension \<Rightarrow> validation_request \<Rightarrow> 'w \<Rightarrow> (gerr + validation_response) \<times> 'w" where
  "server_validate x req w =
     (case xe_validate x of
        None \<Rightarrow> (Inr \<lparr>vs_errors = []\<rparr>, w)
      | Some f \<Rightarrow>
          (case decode_or x (xe_instance x) (sync_get_spec (vr_sync req)) of
             Inl e \<Rightarrow> (Inl (EWrap ''error unmarshaling newObject'' e), w)
           | Inr newO \<Rightarrow>
               (case decode_or x (xe_instance x) (sync_get_spec (vr_old req)) of
                  Inl e \<Rightarrow> (Inl (EWrap ''error unmarshaling oldObject'' e), w)
                | Inr oldO \<Rightarrow>
                    (case f (vr_type req) (sync_get_owner (vr_sync req)) newO oldO w of
                       (Inl e, w1) \<Rightarrow> (Inl e, w1)
                     | (Inr errs, w1) \<Rightarrow> (Inr \<lparr>vs_errors = errs\<rparr>, w1)))))"

text \<open>
  The pages that \<open>Serve\<close> collects: each entry of the walk is an error, or a path that is a directory
  or a file with its content.
\<close>

definition has_suffix :: "string \<Rightarrow> string \<Rightarrow> bool" where
  "has_suffix s suf \<longleftrightarrow> length suf \<le> length s \<and> drop (length s - length suf) s = suf"

fun serve_pages :: "(gerr + string \<times> bool \<times> (gerr + string)) list \<Rightarrow> gerr + string list" where
  "serve_pages [] = Inr []"
| "serve_pages (Inl e # es) = Inl e"
| "serve_pages (Inr (path, dir, content) # es) =
     (if dir \<or> \<not> has_suffix path ''.md'' then serve_pages es
      else (case content of
              Inl e \<Rightarrow> Inl e
            | Inr b \<Rightarrow> (case serve_pages es of Inl e \<Rightarrow> Inl e | Inr bs \<Rightarrow> Inr (b # bs))))"

definition server_documentation :: "string list \<Rightarrow> documentation_response" where
  "server_documentation pages = \<lparr>dc_pages = pages\<rparr>"

section \<open>Configuration and validation\<close>

record config_spec =
  cf_listenAddress :: string
  cf_otlpEndpoint :: string

definition getListenAddress :: "config_spec \<Rightarrow> string" where
  "getListenAddress c = (if cf_listenAddress c = '''' then '':4269'' else cf_listenAddress c)"

definition tracing_enabled :: "config_spec \<Rightarrow> bool" where
  "tracing_enabled c \<longleftrightarrow> cf_otlpEndpoint c \<noteq> ''''"

definition ReadConfig ::
    "(string \<Rightarrow> gerr + 'b) \<Rightarrow> ('b \<Rightarrow> config_spec \<Rightarrow> gerr option \<times> config_spec) \<Rightarrow> string \<Rightarrow> config_spec \<Rightarrow>
     gerr option \<times> config_spec" where
  "ReadConfig readFile unmarshal path v =
     (case readFile path of
        Inl e \<Rightarrow> (Some e, v)
      | Inr b \<Rightarrow> (case unmarshal b v of (Some e, v1) \<Rightarrow> (Some e, v1) | (None, v1) \<Rightarrow> (None, v1)))"

text \<open>
  \<open>AutoValidate\<close>: the validator finds nothing, cannot validate, or lists the fields that fail
  (their name, value and message).
\<close>

datatype validator_outcome = VOk | VInvalidArgument gerr | VFields "(string \<times> string \<times> string) list"

definition AutoValidate :: "validator_outcome \<Rightarrow> gerr + validation_response option" where
  "AutoValidate r =
     (case r of
        VOk \<Rightarrow> Inr None
      | VInvalidArgument e \<Rightarrow> Inl e
      | VFields fs \<Rightarrow> Inr (Some \<lparr>vs_errors = map (\<lambda>(field, val, err).
          \<lparr>ve_path = field, ve_detail = err, ve_value = val\<rparr>) fs\<rparr>))"

section \<open>The ingress extension\<close>

record ingress_path =
  ip_path :: string
  ip_service :: string
  ip_portName :: string

record ingress_rule =
  ir_host :: string
  ir_paths :: "ingress_path list"

record kube_ingress =
  ki_meta :: obj_meta
  ki_rules :: "ingress_rule list"

record ingress =
  in_host :: string
  in_paths :: "string list"

definition IngressPath :: "string \<Rightarrow> string \<Rightarrow> string \<Rightarrow> ingress_path" where
  "IngressPath p svc portName = \<lparr>ip_path = p, ip_service = svc, ip_portName = portName\<rparr>"

definition Rule :: "ingress \<Rightarrow> string \<Rightarrow> ingress_rule" where
  "Rule i svc = \<lparr>ir_host = in_host i,
     ir_paths = (if length (in_paths i) = 0 then [IngressPath ''/'' svc ''http'']
                 else map (\<lambda>p. IngressPath p svc ''http'') (in_paths i))\<rparr>"

record 'w ingress_client =
  ig_get :: "string \<Rightarrow> string \<Rightarrow> 'w \<Rightarrow> (gerr + kube_ingress) \<times> 'w"
  ig_create :: "string \<Rightarrow> kube_ingress \<Rightarrow> 'w \<Rightarrow> gerr option \<times> 'w"
  ig_update :: "string \<Rightarrow> kube_ingress \<Rightarrow> 'w \<Rightarrow> gerr option \<times> 'w"
  ig_delete :: "string \<Rightarrow> string \<Rightarrow> 'w \<Rightarrow> gerr option \<times> 'w"

definition ing_name :: "owner \<Rightarrow> string" where
  "ing_name ow = ow_name ow @ ''-ing''"

text \<open>\<open>Sync\<close>: a nil spec or a nil owner is dereferenced.\<close>

definition ingress_apply :: "'w ingress_client \<Rightarrow> owner \<Rightarrow> ingress list \<Rightarrow> 'w \<Rightarrow> gerr option \<times> 'w" where
  "ingress_apply k ow is w =
     (let rules = map (\<lambda>i. Rule i (ow_name ow)) is
      in (case ig_get k (ow_namespace ow) (ing_name ow) w of
            (Inl e, w1) \<Rightarrow>
              (if \<not> is_not_found e then (Some e, w1)
               else ig_create k (ow_namespace ow)
                      \<lparr>ki_meta = zero_meta\<lparr>om_name := ing_name ow, om_namespace := ow_namespace ow,
                         om_owners := [\<lparr>or_apiVersion = ow_apiVersion ow, or_kind = ow_kind ow,
                           or_name = ow_name ow, or_uid = ow_uid ow\<rparr>]\<rparr>,
                       ki_rules = rules\<rparr> w1)
          | (Inr ing, w1) \<Rightarrow> ig_update k (ow_namespace ow) (ing\<lparr>ki_rules := rules\<rparr>) w1))"

definition ingress_sync :: "'w ingress_client \<Rightarrow> owner option \<Rightarrow> ingress list option \<Rightarrow> 'w writer_prog" where
  "ingress_sync k ow obj =
     (case (obj, ow) of
        (Some is, Some x) \<Rightarrow> WDo (\<lambda>w. case ingress_apply k x is w of (e, w1) \<Rightarrow> (w1, WReturn e))
      | _ \<Rightarrow> WReturn (Some (EPanic ''nil pointer dereference'')))"

definition ingress_delete ::
    "'w ingress_client \<Rightarrow> (gerr \<Rightarrow> string) \<Rightarrow> owner option \<Rightarrow> ingress list option \<Rightarrow> 'w \<Rightarrow>
     (delete_response \<times> gerr option) \<times> 'w" where
  "ingress_delete k err_text ow v w =
     (case ow of
        None \<Rightarrow> ((\<lparr>dr_error = ''''\<rparr>, Some (EPanic ''nil pointer dereference'')), w)
      | Some x \<Rightarrow>
          (case ig_delete k (ow_namespace x) (ing_name x) w of
             (Some e, w1) \<Rightarrow>
               (if \<not> is_not_found e then ((\<lparr>dr_error = err_text e\<rparr>, Some e), w1)
                else ((\<lparr>dr_error = ''''\<rparr>, None), w1))
           | (None, w1) \<Rightarrow> ((\<lparr>dr_error = ''''\<rparr>, None), w1)))"

text \<open>The extension served by \<open>extension/example/main.go\<close>: a pointer type, no validation or defaulting.\<close>

definition ingress_extension ::
    "'w ingress_client \<Rightarrow> (gerr \<Rightarrow> string) \<Rightarrow> (raw \<Rightarrow> gerr + ingress list option) \<Rightarrow>
     (ingress list option \<Rightarrow> gerr + raw) \<Rightarrow> (ingress list option, 'w) sdk_extension" where
  "ingress_extension k err_text dec enc =
     \<lparr>xe_decode = dec, xe_encode = enc, xe_zero = None, xe_instance = Some [],
      xe_sync = ingress_sync k, xe_delete = ingress_delete k err_text, xe_validate = None, xe_default = None\<rparr>"

end
