(* ===== verification/Sdk_Facts.thy ===== *)
theory Sdk_Facts
  imports Sdk
begin

text \<open>Properties of extensions written with the kit, also together with the operator that calls them.\<close>

section \<open>The writer\<close>

text \<open>
  An extension that sends a list of responses and gives up at the first failure delivers all of them,
  or those before the failure.
\<close>

fun send_all :: "response list \<Rightarrow> 'w writer_prog" where
  "send_all [] = WReturn None"
| "send_all (r # rs) = WSend r (\<lambda>e. case e of None \<Rightarrow> send_all rs | Some x \<Rightarrow> WReturn (Some x))"

lemma run_send_all:
  "(\<forall>n < length sent + length rs. send n = None) \<Longrightarrow>
   run_writer send (send_all rs) sent w = (None, sent @ rs, w)"
  by (induction rs arbitrary: sent) auto

lemma run_send_all_fails:
  "send (length sent + length rs) = Some e \<Longrightarrow> (\<forall>n < length sent + length rs. send n = None) \<Longrightarrow>
   run_writer send (send_all (rs @ r # rs')) sent w = (Some e, sent @ rs, w)"
  by (induction rs arbitrary: sent) auto

section \<open>The ingress extension\<close>

text \<open>What the client relies on: reading gives what was last written, and does not change anything.\<close>

definition ingress_client_law :: "'w ingress_client \<Rightarrow> bool" where
  "ingress_client_law k \<longleftrightarrow>
     (\<forall>ns n w. snd (ig_get k ns n w) = w) \<and>
     (\<forall>ns n w ing. fst (ig_get k ns n w) = Inr ing \<longrightarrow> om_name (ki_meta ing) = n) \<and>
     (\<forall>ns ing w w'. ig_create k ns ing w = (None, w') \<longrightarrow> fst (ig_get k ns (om_name (ki_meta ing)) w') = Inr ing) \<and>
     (\<forall>ns ing w w'. ig_update k ns ing w = (None, w') \<longrightarrow> fst (ig_get k ns (om_name (ki_meta ing)) w') = Inr ing)"

lemma ingress_apply_rules:
  assumes "ingress_client_law k" "ingress_apply k ow is w = (None, w')"
  shows "\<exists>ing. fst (ig_get k (ow_namespace ow) (ing_name ow) w') = Inr ing \<and>
    ki_rules ing = map (\<lambda>i. Rule i (ow_name ow)) is"
proof -
  let ?rules = "map (\<lambda>i. Rule i (ow_name ow)) is"
  have law: "\<And>ns n ing. fst (ig_get k ns n w) = Inr ing \<Longrightarrow> om_name (ki_meta ing) = n"
    "\<And>ns ing w w'. ig_create k ns ing w = (None, w') \<Longrightarrow> fst (ig_get k ns (om_name (ki_meta ing)) w') = Inr ing"
    "\<And>ns ing w w'. ig_update k ns ing w = (None, w') \<Longrightarrow> fst (ig_get k ns (om_name (ki_meta ing)) w') = Inr ing"
    using assms(1) unfolding ingress_client_law_def by blast+
  obtain r w1 where get: "ig_get k (ow_namespace ow) (ing_name ow) w = (r, w1)"
    by (cases "ig_get k (ow_namespace ow) (ing_name ow) w")
  show ?thesis
  proof (cases r)
    case (Inl e)
    with assms(2) get obtain ing where "ig_create k (ow_namespace ow) ing w1 = (None, w')"
      "om_name (ki_meta ing) = ing_name ow" "ki_rules ing = ?rules"
      by (auto simp: ingress_apply_def Let_def split: if_splits)
    with law(2) show ?thesis by metis
  next
    case (Inr ing)
    with assms(2) get have up: "ig_update k (ow_namespace ow) (ing\<lparr>ki_rules := ?rules\<rparr>) w1 = (None, w')"
      by (simp add: ingress_apply_def Let_def)
    have "om_name (ki_meta ing) = ing_name ow" using law(1)[of "ow_namespace ow" "ing_name ow" ing] get Inr by simp
    with law(3)[OF up] show ?thesis by simp
  qed
qed

text \<open>
  The ingress follows the spec: after a sync that succeeds, the ingress named after the owner has
  exactly one rule per listed host, in order, each with the listed paths, or with the root path if
  none is listed, all leading to the owner's service.
\<close>

theorem ingress_follows_spec:
  assumes "ingress_client_law k" "dec b = Inr (Some is)" "raw_nonempty b"
    and "server_sync (ingress_extension k err_text dec enc) send (Some \<lparr>sr_owner = Some ow, sr_spec = b\<rparr>) w = (None, sent, w')"
  shows "sent = [] \<and> (\<exists>ing. fst (ig_get k (ow_namespace ow) (ing_name ow) w') = Inr ing \<and>
    map ir_host (ki_rules ing) = map in_host is \<and>
    map (map ip_path \<circ> ir_paths) (ki_rules ing) = map (\<lambda>i. if in_paths i = [] then [''/''] else in_paths i) is \<and>
    (\<forall>r \<in> set (ki_rules ing). \<forall>p \<in> set (ir_paths r). ip_service p = ow_name ow))"
proof -
  have "ingress_apply k ow is w = (None, w')" "sent = []"
    using assms(2-4) by (auto simp: server_sync_def decode_or_def ingress_extension_def sync_get_spec_def
        sync_get_owner_def ingress_sync_def Let_def split: prod.splits)
  from ingress_apply_rules[OF assms(1) this(1)] this(2) show ?thesis
    by (auto simp: Rule_def IngressPath_def o_def)
qed

text \<open>
  An extension that is always called gets no spec when the object has none of its keys, and the
  ingress extension then dereferences a nil pointer.
\<close>

lemma ingress_without_spec_panics:
  "server_sync (ingress_extension k err_text dec enc) send (Some \<lparr>sr_owner = ow, sr_spec = RawNil\<rparr>) w =
   (Some (EPanic ''nil pointer dereference''), [], w)"
  by (simp add: server_sync_def decode_or_def ingress_extension_def sync_get_spec_def raw_nonempty_def ingress_sync_def)

section \<open>Validating a deletion\<close>

text \<open>
  When a deletion is validated there is no owner: the operator sends no new object, and the kit
  takes the owner from the new object only, so the extension gets the nil owner and any method of it
  panics, although the old object carries the owner.
\<close>

theorem delete_validation_has_no_owner:
  assumes "bh_validate bh x = (\<lambda>req. fst (server_validate e req w))" "xe_validate e = Some f"
    and "createOrUpdateRequest (AnObject ob) (Some m) x = Inr (Some old)" "decode_or e (xe_instance e) (sr_spec old) = Inr oldO"
    and "fst (f VT_DELETE None (xe_instance e) oldO w) = Inl err"
  shows "validate_one bh VT_DELETE TypedNil (AnObject ob) None (Some m) x = Some err \<and>
    sr_owner old = Some (owner_of ob) \<and> owner_field g None = Inl (EPanic ''nil pointer dereference'')"
proof -
  obtain w1 where f: "f VT_DELETE None (xe_instance e) oldO w = (Inl err, w1)" using assms(5) by (metis fst_conv surj_pair)
  have none: "createOrUpdateRequest TypedNil None x = Inr None" by (simp add: createOrUpdateRequest_def)
  have "fst (server_validate e \<lparr>vr_type = VT_DELETE, vr_sync = None, vr_old = Some old\<rparr> w) = Inl err"
    using assms(2,4) f by (simp add: server_validate_def sync_get_spec_def sync_get_owner_def decode_or_def raw_nonempty_def)
  then show ?thesis
    using assms(1,3) none
    by (auto simp: validate_one_def owner_field_def createOrUpdateRequest_def Let_def)
qed

section \<open>Witnesses\<close>

definition ex_ingresses :: "(string \<times> string, kube_ingress) gomap ingress_client" where
  "ex_ingresses =
     \<lparr>ig_get = (\<lambda>ns n w. (case mget w (ns, n) of None \<Rightarrow> Inl (EApi RNotFound ''not found'')
          | Some ing \<Rightarrow> Inr (ing\<lparr>ki_meta := (ki_meta ing)\<lparr>om_name := n\<rparr>\<rparr>), w)),
      ig_create = (\<lambda>ns ing w. (None, mset_key (ns, om_name (ki_meta ing)) ing w)),
      ig_update = (\<lambda>ns ing w. (None, mset_key (ns, om_name (ki_meta ing)) ing w)),
      ig_delete = (\<lambda>ns n w. (None, mdel (ns, n) w))\<rparr>"

lemma ex_ingresses_law: "ingress_client_law ex_ingresses"
  by (auto simp: ingress_client_law_def ex_ingresses_def mget_update split: option.splits)

definition ex_owner :: owner where
  "ex_owner = \<lparr>ow_kind = ''Application'', ow_name = ''web'', ow_namespace = ''ns'', ow_apiVersion = ''suffiks.com/v1'',
     ow_uid = ''1'', ow_labels = [], ow_annotations = [], ow_revisionID = ''1''\<rparr>"

theorem ingress_follows_spec_witness:
  "\<exists>ing w'. fst (ig_get ex_ingresses ''ns'' ''web-ing'' w') = Inr ing \<and> map ir_host (ki_rules ing) = [''a.example'']"
proof -
  let ?x = "ingress_extension ex_ingresses (\<lambda>e. '''') (\<lambda>b. Inr (Some [\<lparr>in_host = ''a.example'', in_paths = []\<rparr>])) (\<lambda>o1. Inl EEOF)"
  obtain sent w' where "server_sync ?x (\<lambda>n. None) (Some \<lparr>sr_owner = Some ex_owner, sr_spec = RawJSON JNull\<rparr>) [] = (None, sent, w')"
    by (simp add: server_sync_def decode_or_def ingress_extension_def sync_get_spec_def sync_get_owner_def
        raw_nonempty_def ingress_sync_def ingress_apply_def ex_ingresses_def is_not_found_def Let_def)
  from ingress_follows_spec[OF ex_ingresses_law refl _ this] show ?thesis
    by (auto simp: raw_nonempty_def ex_owner_def ing_name_def)
qed

end
