(* ===== verification/Testkit.thy ===== *)
theory Testkit
  imports Ext_Sync_One Ext_Test Sdk_Facts
begin

text \<open>
  The kit for testing Go extensions, \<open>extension/testutil\<close>: an extension is served over an in-memory
  connection, registered in an extension manager, and called by the operator's own controller; its
  cluster is a fake client set, which records the actions it has performed.
\<close>

section \<open>The fake client set\<close>

record gvr =
  gv_group :: string
  gv_version :: string
  gv_resource :: string

text \<open>
  An object, with its Go type, and the two methods of metadata if it has them. An action has an object
  if it implements \<open>GetObject\<close>, and a namespace and a name if it is a \<open>DeleteAction\<close>.
\<close>

record fake_object =
  fo_type :: string
  fo_namespace :: "string option"
  fo_name :: "string option"
  fo_body :: json

record fake_action =
  fa_resource :: gvr
  fa_object :: "fake_object option"
  fa_delete :: "(string \<times> string) option"

record 'w fake_client =
  fk_new :: "fake_object list \<Rightarrow> 'w"
  fk_actions :: "'w \<Rightarrow> fake_action list"
  fk_get :: "gvr \<Rightarrow> string \<Rightarrow> string \<Rightarrow> 'w \<Rightarrow> gerr + fake_object"
  fk_equal :: "fake_object \<Rightarrow> fake_object \<Rightarrow> bool"
  fk_sameChangeset :: "changeset \<Rightarrow> changeset \<Rightarrow> bool"

definition getNamespace :: "fake_object \<Rightarrow> string" where
  "getNamespace o1 = (case fo_namespace o1 of None \<Rightarrow> '''' | Some ns \<Rightarrow> ns)"

definition getName :: "fake_object \<Rightarrow> string" where
  "getName o1 = (case fo_name o1 of None \<Rightarrow> '''' | Some n \<Rightarrow> n)"

section \<open>The extension behind a connection\<close>

text \<open>
  What crosses the connection: \<open>wire\<close> is how an error of the server looks to the client. A panic of
  the server ends the process of the test.
\<close>

record ('o, 'w) kit =
  kt_ext :: "('o, 'w) sdk_extension"
  kt_send :: "nat \<Rightarrow> gerr option"
  kt_wire :: "gerr \<Rightarrow> gerr"

definition over_wire :: "('o, 'w) kit \<Rightarrow> gerr \<Rightarrow> gerr" where
  "over_wire K e = (if is_panic e then e else kt_wire K e)"

definition kit_behaviour :: "('o, 'w) kit \<Rightarrow> 'w \<Rightarrow> behaviour" where
  "kit_behaviour K w =
     \<lparr>bh_sync = (\<lambda>x req. case server_sync (kt_ext K) (kt_send K) req w of
          (e, sent, w1) \<Rightarrow> Inr (sent, case e of None \<Rightarrow> RecvEOF | Some err \<Rightarrow> RecvErr (over_wire K err))),
      bh_validate = (\<lambda>x req. map_sum (over_wire K) id (fst (server_validate (kt_ext K) req w))),
      bh_default = (\<lambda>x req. map_sum (over_wire K) (\<lambda>r. case r of None \<Rightarrow> \<lparr>ds_spec = RawNil\<rparr> | Some d \<Rightarrow> d)
          (fst (server_default (kt_ext K) req w))),
      bh_delete = (\<lambda>x req. map_sum (over_wire K) id (fst (server_delete (kt_ext K) req w)))\<rparr>"

text \<open>\<open>New\<close>: the manager with the one extension that the specification describes.\<close>

definition kit_new ::
    "('b \<Rightarrow> gerr + crd_file) \<Rightarrow> (gerr + string \<times> (gerr + 'b)) list \<Rightarrow> 'p manager_env \<Rightarrow> ('c \<Rightarrow> gerr + extension) \<Rightarrow>
     'c \<Rightarrow> gerr + 'p ext_manager" where
  "kit_new parse bases mv yaml b =
     (case new_manager parse bases of
        (Some e, m) \<Rightarrow> Inl e
      | (None, m) \<Rightarrow>
          (case yaml b of
             Inl e \<Rightarrow> Inl e
           | Inr ext \<Rightarrow> (case manager_add mv ext m of (Some e, m1) \<Rightarrow> Inl e | (None, m1) \<Rightarrow> Inr m1)))"

section \<open>Calling the controller\<close>

text \<open>The request that the extension is called with, if it is called.\<close>

definition called_with ::
    "ctl_object \<Rightarrow> (string, json) gomap option \<Rightarrow> managed \<Rightarrow> sync_request option option" where
  "called_with ob v x =
     (case createOrUpdateRequest (AnObject ob) v x of
        Inl e \<Rightarrow> None
      | Inr req \<Rightarrow> (case runs_always_or_spec x req of Inr True \<Rightarrow> Some req | _ \<Rightarrow> None))"

text \<open>
  \<open>ctrl.Sync\<close> in the kit: the manager has one extension or, for the kind of the object, none. The
  result is a panic, or the error and the result; the extension has worked on the cluster if it was
  called.
\<close>

definition kit_sync ::
    "(json \<Rightarrow> gerr + json) \<Rightarrow> (raw \<Rightarrow> raw \<Rightarrow> gerr + raw) \<Rightarrow> ('o, 'w) kit \<Rightarrow> 'p ext_manager \<Rightarrow> ctl_object \<Rightarrow> 'w \<Rightarrow>
     (gerr + gerr option \<times> (changeset \<times> string list) option) \<times> 'w" where
  "kit_sync conv mmp K m ob w =
     (case unmarshal_map (co_spec ob) of
        Inl e \<Rightarrow> (Inr (Some e, None), w)
      | Inr v \<Rightarrow>
          (case extensions_for m (co_kind ob) of
             [] \<Rightarrow> (Inr (None, Some (empty_changeset, [])), w)
           | x # xs \<Rightarrow>
               (map_sum id (map_prod id Some) (sync_one conv mmp (kit_behaviour K w) ob v x),
                case called_with ob v x of
                  None \<Rightarrow> w
                | Some req \<Rightarrow> snd (snd (server_sync (kt_ext K) (kt_send K) req w)))))"

definition kit_delete :: "('o, 'w) kit \<Rightarrow> 'p ext_manager \<Rightarrow> ctl_object \<Rightarrow> 'w \<Rightarrow> (gerr + gerr option) \<times> 'w" where
  "kit_delete K m ob w =
     (let exts = extensions_for m (co_kind ob);
          err = controller_delete (kit_behaviour K w) ob exts
      in (case err of
            Some e \<Rightarrow> if has_panic e then Inl e else Inr (Some e)
          | None \<Rightarrow> Inr None,
          case unmarshal_map (co_spec ob) of
            Inl e \<Rightarrow> w
          | Inr v \<Rightarrow>
              (case exts of
                 [] \<Rightarrow> w
               | x # xs \<Rightarrow>
                   (case called_with ob v x of
                      None \<Rightarrow> w
                    | Some req \<Rightarrow> snd (server_delete (kt_ext K) req w)))))"

section \<open>Test cases\<close>

datatype object_type = TApplication | TWork | TOther

text \<open>\<open>fixObject\<close>: \<open>None\<close> is \<open>t.Fatalf\<close>, which ends the test as failed.\<close>

definition fixObject :: "'v object_view \<Rightarrow> ('v \<Rightarrow> object_type) \<Rightarrow> 'v \<Rightarrow> 'v option" where
  "fixObject V typ v =
     (if co_kind (ov_ctl V v) = ''''
      then (case typ v of
              TApplication \<Rightarrow> Some (ov_setKind V ''v1'' ''Application'' v)
            | TWork \<Rightarrow> Some (ov_setKind V ''v1'' ''Work'' v)
            | TOther \<Rightarrow> None)
      else Some v)"

text \<open>What an error check of a test does: nothing, report with \<open>t.Error\<close>, or end the test.\<close>

datatype check_result = Checked | Errored | Fataled

text \<open>The outcome of calling the controller: \<open>None\<close> ends the test, else whether it has passed so far.\<close>

definition check_error :: "(gerr \<Rightarrow> check_result) option \<Rightarrow> gerr option \<Rightarrow> bool option" where
  "check_error chk err =
     (case err of
        None \<Rightarrow> Some True
      | Some e \<Rightarrow>
          (case chk of
             None \<Rightarrow> None
           | Some f \<Rightarrow> (case f e of Checked \<Rightarrow> Some True | Errored \<Rightarrow> Some False | Fataled \<Rightarrow> None)))"

text \<open>
  The resource of a Go type is that of the last action on an object of the type; the zero value for a
  type that no action has seen.
\<close>

definition resource_map :: "fake_action list \<Rightarrow> (string, gvr) gomap" where
  "resource_map as =
     fold (\<lambda>a m. case fa_object a of None \<Rightarrow> m | Some o1 \<Rightarrow> mset_key (fo_type o1) (fa_resource a) m) as []"

definition resource_of :: "fake_action list \<Rightarrow> string \<Rightarrow> gvr" where
  "resource_of as typ =
     (case mget (resource_map as) typ of
        None \<Rightarrow> \<lparr>gv_group = '''', gv_version = '''', gv_resource = ''''\<rparr>
      | Some g \<Rightarrow> g)"

text \<open>
  The loop over expected objects: a missing object ends the test, a different one is reported; the
  test has failed in either case, whatever the rest of the loop reports.
\<close>

fun check_objects :: "'w fake_client \<Rightarrow> 'w \<Rightarrow> fake_object list \<Rightarrow> bool" where
  "check_objects C w [] = True"
| "check_objects C w (exp # es) =
     (case fk_get C (resource_of (fk_actions C w) (fo_type exp)) (getNamespace exp) (getName exp) w of
        Inl e \<Rightarrow> False
      | Inr found \<Rightarrow> (if \<not> fk_equal C exp found then False else check_objects C w es))"

subsection \<open>SyncTest\<close>

record 'v sync_case =
  sc_name :: string
  sc_existing :: "fake_object list"
  sc_object :: 'v
  sc_expected :: "fake_object list"
  sc_errCheck :: "(gerr \<Rightarrow> check_result) option"
  sc_changeset :: "changeset option"

definition sync_run_test ::
    "'v object_view \<Rightarrow> ('v \<Rightarrow> object_type) \<Rightarrow> (json \<Rightarrow> gerr + json) \<Rightarrow> (raw \<Rightarrow> raw \<Rightarrow> gerr + raw) \<Rightarrow>
     ('o, 'w) kit \<Rightarrow> 'p ext_manager \<Rightarrow> 'w fake_client \<Rightarrow> 'v sync_case \<Rightarrow> 'w \<Rightarrow> (gerr + bool) \<times> 'w" where
  "sync_run_test V typ conv mmp K m C t w =
     (case fixObject V typ (sc_object t) of
        None \<Rightarrow> (Inr False, w)
      | Some v \<Rightarrow>
          (case kit_sync conv mmp K m (ov_ctl V v) w of
             (Inl e, w1) \<Rightarrow> (Inl e, w1)
           | (Inr (err, res), w1) \<Rightarrow>
               (case check_error (sc_errCheck t) err of
                  None \<Rightarrow> (Inr False, w1)
                | Some ok \<Rightarrow>
                    (case sc_changeset t of
                       None \<Rightarrow> (Inr (ok \<and> check_objects C w1 (sc_expected t)), w1)
                     | Some cs \<Rightarrow>
                         (case res of
                            None \<Rightarrow> (Inl (EPanic ''nil pointer dereference''), w1)
                          | Some (got, names) \<Rightarrow>
                              (Inr (ok \<and> fk_sameChangeset C cs got \<and> check_objects C w1 (sc_expected t)), w1))))))"

subsection \<open>DeleteTest\<close>

record deleted =
  de_namespace :: string
  de_name :: string
  de_resource :: string

definition deleted_key :: "deleted \<Rightarrow> string" where
  "deleted_key d = de_resource d @ '' '' @ de_namespace d @ ''/'' @ de_name d"

definition deleted_matches :: "deleted \<Rightarrow> fake_action \<Rightarrow> bool" where
  "deleted_matches d a \<longleftrightarrow>
     (case fa_delete a of
        None \<Rightarrow> False
      | Some (ns, name) \<Rightarrow> de_namespace d = ns \<and> de_name d = name \<and> de_resource d = gv_resource (fa_resource a))"

text \<open>The keys in \<open>toDelete\<close> after the loop over the actions.\<close>

definition not_deleted :: "deleted list \<Rightarrow> fake_action list \<Rightarrow> string list" where
  "not_deleted ds as =
     fold (\<lambda>a. fold (\<lambda>d keys. if deleted_matches d a then filter (\<lambda>k. k \<noteq> deleted_key d) keys else keys) ds) as
       (map deleted_key ds)"

record 'v delete_case =
  dc_name :: string
  dc_existing :: "fake_object list"
  dc_object :: 'v
  dc_remaining :: "fake_object list"
  dc_deleted :: "deleted list"
  dc_errCheck :: "(gerr \<Rightarrow> check_result) option"

definition delete_run_test ::
    "'v object_view \<Rightarrow> ('v \<Rightarrow> object_type) \<Rightarrow> ('o, 'w) kit \<Rightarrow> 'p ext_manager \<Rightarrow> 'w fake_client \<Rightarrow> 'v delete_case \<Rightarrow>
     'w \<Rightarrow> (gerr + bool) \<times> 'w" where
  "delete_run_test V typ K m C t w =
     (case fixObject V typ (dc_object t) of
        None \<Rightarrow> (Inr False, w)
      | Some v \<Rightarrow>
          (case kit_delete K m (ov_ctl V v) w of
             (Inl e, w1) \<Rightarrow> (Inl e, w1)
           | (Inr err, w1) \<Rightarrow>
               (case check_error (dc_errCheck t) err of
                  None \<Rightarrow> (Inr False, w1)
                | Some ok \<Rightarrow>
                    (Inr (ok \<and> not_deleted (dc_deleted t) (fk_actions C w1) = [] \<and>
                          check_objects C w1 (dc_remaining t)), w1))))"

section \<open>IntegrationTester\<close>

datatype 'v test_case = SyncCase "'v sync_case" | DeleteCase "'v delete_case"

fun case_name :: "'v test_case \<Rightarrow> string" where
  "case_name (SyncCase t) = sc_name t"
| "case_name (DeleteCase t) = dc_name t"

fun case_existing :: "'v test_case \<Rightarrow> fake_object list" where
  "case_existing (SyncCase t) = sc_existing t"
| "case_existing (DeleteCase t) = dc_existing t"

fun run_case ::
    "'v object_view \<Rightarrow> ('v \<Rightarrow> object_type) \<Rightarrow> (json \<Rightarrow> gerr + json) \<Rightarrow> (raw \<Rightarrow> raw \<Rightarrow> gerr + raw) \<Rightarrow>
     ('o, 'w) kit \<Rightarrow> 'p ext_manager \<Rightarrow> 'w fake_client \<Rightarrow> 'v test_case \<Rightarrow> 'w \<Rightarrow> (gerr + bool) \<times> 'w" where
  "run_case V typ conv mmp K m C (SyncCase t) w = sync_run_test V typ conv mmp K m C t w"
| "run_case V typ conv mmp K m C (DeleteCase t) w = delete_run_test V typ K m C t w"

text \<open>The subtests run one after the other on one client; a panic ends them all.\<close>

fun run_cases ::
    "('c \<Rightarrow> 'w \<Rightarrow> (gerr + bool) \<times> 'w) \<Rightarrow> 'c list \<Rightarrow> 'w \<Rightarrow> (gerr + bool) list \<times> 'w" where
  "run_cases run [] w = ([], w)"
| "run_cases run (c # cs) w =
     (case run c w of
        (Inl e, w1) \<Rightarrow> ([Inl e], w1)
      | (Inr ok, w1) \<Rightarrow> (case run_cases run cs w1 of (rs, w2) \<Rightarrow> (Inr ok # rs, w2)))"

text \<open>\<open>Run\<close>: the verdicts of the subtests; \<open>None\<close> if the kit cannot be set up.\<close>

definition integration_run ::
    "'v object_view \<Rightarrow> ('v \<Rightarrow> object_type) \<Rightarrow> (json \<Rightarrow> gerr + json) \<Rightarrow> (raw \<Rightarrow> raw \<Rightarrow> gerr + raw) \<Rightarrow>
     ('o, 'w) kit \<Rightarrow> gerr + 'p ext_manager \<Rightarrow> 'w fake_client \<Rightarrow> 'v test_case list \<Rightarrow> (gerr + bool) list option" where
  "integration_run V typ conv mmp K mk C tests =
     (let w = fk_new C (concat (map case_existing tests))
      in (case mk of
            Inl e \<Rightarrow> None
          | Inr m \<Rightarrow> Some (fst (run_cases (run_case V typ conv mmp K m C) tests w))))"

text \<open>\<open>AppSpec\<close>: the given fields replace the rest of the spec, which has defaults if it is nil.\<close>

definition AppSpec :: "app_spec option \<Rightarrow> (string, json) gomap \<Rightarrow> app_spec" where
  "AppSpec known rest =
     (case known of
        None \<Rightarrow> zero_app_spec\<lparr>as_image := ''some-image'', as_port := 8080, as_rest := rest\<rparr>
      | Some s \<Rightarrow> s\<lparr>as_rest := rest\<rparr>)"

definition testkit_OwnerReference :: "string \<Rightarrow> string \<Rightarrow> owner_ref" where
  "testkit_OwnerReference kind name = \<lparr>or_apiVersion = ''v1'', or_kind = kind, or_name = name, or_uid = ''''\<rparr>"

section \<open>What a deletion test checks\<close>

lemma fold_filter: "fold (\<lambda>d keys. if P d then filter (\<lambda>k. k \<noteq> f d) keys else keys) ds keys =
    filter (\<lambda>k. \<forall>d \<in> set ds. P d \<longrightarrow> k \<noteq> f d) keys"
  by (induction ds arbitrary: keys) (auto intro: filter_cong)

lemma not_deleted_filter:
  "not_deleted ds as = filter (\<lambda>k. \<forall>a \<in> set as. \<forall>d \<in> set ds. deleted_matches d a \<longrightarrow> k \<noteq> deleted_key d) (map deleted_key ds)"
proof -
  have "fold (\<lambda>a. fold (\<lambda>d keys. if deleted_matches d a then filter (\<lambda>k. k \<noteq> deleted_key d) keys else keys) ds) as keys =
      filter (\<lambda>k. \<forall>a \<in> set as. \<forall>d \<in> set ds. deleted_matches d a \<longrightarrow> k \<noteq> deleted_key d) keys" for keys
    by (induction as arbitrary: keys) (auto simp: fold_filter intro: filter_cong)
  then show ?thesis by (simp add: not_deleted_def)
qed

text \<open>
  Every expected deletion is among the actions of the client, also when it was done before the call:
  the actions of earlier tests count.
\<close>

lemma deletions_found:
  "(\<forall>d \<in> set ds. \<exists>a \<in> set as. deleted_matches d a) \<Longrightarrow> not_deleted ds as = []"
  unfolding not_deleted_filter filter_empty_conv by auto blast

lemma earlier_deletions_count:
  assumes "set as \<subseteq> set (fk_actions C w')" "\<forall>d \<in> set (dc_deleted t). \<exists>a \<in> set as. deleted_matches d a"
    and "fixObject V typ (dc_object t) = Some v" "kit_delete K m (ov_ctl V v) w = (Inr None, w')" "dc_remaining t = []"
  shows "delete_run_test V typ K m C t w = (Inr True, w')"
proof -
  have "not_deleted (dc_deleted t) (fk_actions C w') = []" using assms(1,2) by (intro deletions_found) blast
  with assms(3-5) show ?thesis by (simp add: delete_run_test_def check_error_def)
qed

text \<open>An error check does not keep a test with a changeset from looking at the missing result.\<close>

lemma checked_error_dereferenced:
  assumes "fixObject V typ (sc_object t) = Some v" "unmarshal_map (co_spec (ov_ctl V v)) = Inl e"
    and "sc_errCheck t = Some f" "f e \<noteq> Fataled" "sc_changeset t = Some cs"
  shows "sync_run_test V typ conv mmp K m C t w = (Inl (EPanic ''nil pointer dereference''), w)"
  using assms by (cases "f e") (simp_all add: sync_run_test_def kit_sync_def check_error_def)

section \<open>From the spec of an application to the cluster\<close>

text \<open>The manager of the kit has the one extension for the kinds it targets, and none for others.\<close>

lemma kit_new_one:
  assumes "kit_new parse bases mv yaml b = Inr m" "yaml b = Inr ext"
  shows "length (extensions_for m kind) \<le> 1"
proof -
  obtain m0 where m0: "new_manager parse bases = (None, m0)" "manager_add mv ext m0 = (None, m)"
    using assms by (auto simp: kit_new_def split: prod.splits option.splits)
  have "em_extensions m0 = []" using m0(1) by (auto simp: new_manager_def split: prod.splits)
  then have none: "mget (em_extensions m) n = None" if "n \<noteq> ex_name ext" for n
    using add_targets_frame[OF m0(2)[unfolded manager_add_def]] that by simp
  have "manager_ok m0" using \<open>em_extensions m0 = []\<close> by (simp add: manager_ok_def)
  from manager_add_ok[OF m0(2) this] have "gomap_ok (em_extensions m)" unfolding manager_ok_def by blast
  moreover have "mkeys (em_extensions m) \<subseteq> {ex_name ext}" using none mget_None_iff[of "em_extensions m"] by auto
  ultimately have "length (em_extensions m) \<le> 1"
    by (cases "em_extensions m" rule: remdups_adj.cases) (auto simp: mkeys_def gomap_ok_def)
  then show ?thesis
    unfolding extensions_for_def
    using length_filter_le[of "\<lambda>v. kind \<in> set (es_targets (mg_spec v))" "map snd (em_extensions m)"]
    unfolding length_map by linarith
qed

lemma filter_one_key: "gomap_ok m \<Longrightarrow> mget m n = Some j \<Longrightarrow> filter (\<lambda>kv. fst kv = n) m = [(n, j)]"
proof (induction m)
  case (Cons kv m)
  then show ?case by (cases kv) (auto simp: filter_empty_conv mkeys_def rev_image_eqI)
qed simp

text \<open>The request that an extension with one root key gets, if the spec has that key.\<close>

lemma called_with_key:
  assumes "gomap_ok v" "mget v n = Some j" "mg_rootKeys x = [n]"
  shows "called_with ob (Some v) x = Some (Some \<lparr>sr_owner = Some (owner_of ob), sr_spec = marshal_map [(n, j)]\<rparr>)"
    "createOrUpdateRequest (AnObject ob) (Some v) x =
       Inr (Some \<lparr>sr_owner = Some (owner_of ob), sr_spec = marshal_map [(n, j)]\<rparr>)"
    "runs_always_or_spec x (Some \<lparr>sr_owner = Some (owner_of ob), sr_spec = marshal_map [(n, j)]\<rparr>) = Inr True"
  using assms by (simp_all add: called_with_def createOrUpdateRequest_def runs_always_or_spec_def filter_one_key
      raw_nonempty_def marshal_map_def)

text \<open>
  C13: The way of a spec through the whole system: the members of an application go through the
  operator's controller into the request, over the connection into the server of the extension kit, and
  to the ingress extension. If the sync succeeds, the cluster has the ingress of that application,
  with exactly one rule per listed host, in order, each with the listed paths, or with the root path if none
  is listed, all leading to the application's service; and the changeset for the application is empty.
\<close>

theorem ingress_reaches_cluster:
  assumes client: "ingress_client_law k"
    and spec: "unmarshal_map (co_spec ob) = Inr (Some v)" "gomap_ok v" "mget v ''ingresses'' = Some j"
    and registered: "extensions_for m (co_kind ob) = [x]" "mg_rootKeys x = [''ingresses'']"
    and decoded: "dec (marshal_map [(''ingresses'', j)]) = Inr (Some is)"
    and kit: "kt_ext K = ingress_extension k err_text dec enc"
    and run: "kit_sync conv mmp K m ob w = (Inr (None, r), w')"
  shows "r = Some (empty_changeset, [mg_name x]) \<and>
    (\<exists>ing. fst (ig_get k (om_namespace (co_meta ob)) (om_name (co_meta ob) @ ''-ing'') w') = Inr ing \<and>
       map ir_host (ki_rules ing) = map in_host is \<and>
       map (map ip_path \<circ> ir_paths) (ki_rules ing) = map (\<lambda>i. if in_paths i = [] then [''/''] else in_paths i) is \<and>
       (\<forall>rl \<in> set (ki_rules ing). \<forall>p \<in> set (ir_paths rl). ip_service p = om_name (co_meta ob)))"
proof -
  let ?ow = "owner_of ob"
  note req = called_with_key[OF spec(2,3) registered(2)]
  have "raw_nonempty (marshal_map [(''ingresses'', j)])" by (simp add: raw_nonempty_def marshal_map_def)
  then obtain e w1 where apply_is: "ingress_apply k ?ow is w = (e, w1)"
    and server: "server_sync (kt_ext K) (kt_send K) (Some \<lparr>sr_owner = Some ?ow, sr_spec = marshal_map [(''ingresses'', j)]\<rparr>) w = (e, [], w1)"
    using decoded by (cases "ingress_apply k ?ow is w")
      (simp add: kit server_sync_def decode_or_def ingress_extension_def sync_get_spec_def sync_get_owner_def ingress_sync_def)
  have "e = None" "r = Some (empty_changeset, [mg_name x])" "w' = w1"
    using run by (cases e; simp add: kit_sync_def spec(1) registered(1) sync_one_def req kit_behaviour_def server end_with_def
        split: if_splits)+
  with ingress_apply_rules[OF client, of ?ow "is" w w1] apply_is show ?thesis
    by (auto simp: Rule_def IngressPath_def o_def owner_of_def ing_name_def)
qed

section \<open>Witness\<close>

definition ex_kit :: "(ingress list option, (string \<times> string, kube_ingress) gomap) kit" where
  "ex_kit = \<lparr>kt_ext = ingress_extension ex_ingresses (\<lambda>e. '''') (\<lambda>b. Inr (Some [\<lparr>in_host = ''a.example'', in_paths = []\<rparr>])) (\<lambda>o1. Inl EEOF),
     kt_send = (\<lambda>n. None), kt_wire = (\<lambda>e. e)\<rparr>"

definition ex_kit_managed :: managed where
  "ex_kit_managed = ex_managed\<lparr>mg_rootKeys := [''ingresses'']\<rparr>"

definition ex_kit_manager :: "string ext_manager" where
  "ex_kit_manager = \<lparr>em_spec = [], em_extensions = [(''ingress'', ex_kit_managed)], em_wasi = []\<rparr>"

definition ex_kit_object :: ctl_object where
  "ex_kit_object = ex_object\<lparr>co_spec := marshal_map [(''ingresses'', JArr []), (''image'', JStr ''img'')]\<rparr>"

theorem ingress_reaches_cluster_witness:
  "\<exists>ing w'. snd (kit_sync Inr (\<lambda>a b. Inr b) ex_kit ex_kit_manager ex_kit_object []) = w' \<and>
     fst (ig_get ex_ingresses ''ns'' ''web-ing'' w') = Inr ing \<and> map ir_host (ki_rules ing) = [''a.example'']"
proof -
  let ?v = "[(''ingresses'', JArr []), (''image'', JStr ''img'')]"
  have spec: "unmarshal_map (co_spec ex_kit_object) = Inr (Some ?v)" "gomap_ok ?v" "mget ?v ''ingresses'' = Some (JArr [])"
    by (simp_all add: ex_kit_object_def marshal_map_def obj_map_def)
  have reg: "extensions_for ex_kit_manager (co_kind ex_kit_object) = [ex_kit_managed]" "mg_rootKeys ex_kit_managed = [''ingresses'']"
    by (simp_all add: ex_kit_manager_def ex_kit_object_def ex_object_def extensions_for_def ex_kit_managed_def ex_managed_def)
  have own: "om_name (co_meta ex_kit_object) = ''web''" "om_namespace (co_meta ex_kit_object) = ''ns''"
    by (simp_all add: ex_kit_object_def ex_object_def)
  have "\<exists>w1. server_sync (kt_ext ex_kit) (kt_send ex_kit) (Some \<lparr>sr_owner = Some ow, sr_spec = marshal_map n\<rparr>) [] = (None, [], w1)"
    for ow n
    by (simp add: ex_kit_def server_sync_def decode_or_def ingress_extension_def sync_get_spec_def sync_get_owner_def
        raw_nonempty_def marshal_map_def ingress_sync_def ingress_apply_def ex_ingresses_def is_not_found_def Let_def)
  then obtain w1 where "server_sync (kt_ext ex_kit) (kt_send ex_kit) (Some \<lparr>sr_owner = Some (owner_of ex_kit_object),
      sr_spec = marshal_map [(''ingresses'', JArr [])]\<rparr>) [] = (None, [], w1)" by blast
  then have "\<exists>r w'. kit_sync Inr (\<lambda>a b. Inr b) ex_kit ex_kit_manager ex_kit_object [] = (Inr (None, r), w')"
    by (simp only: kit_sync_def spec(1) reg(1) sync_one_def called_with_key[OF spec(2,3) reg(2)] kit_behaviour_def
        sum.case list.case bool.case prod.case option.case behaviour.select_convs changeset_add_all.simps recv_end.case
        map_sum.simps map_prod_simp) simp
  then obtain r w' where run: "kit_sync Inr (\<lambda>a b. Inr b) ex_kit ex_kit_manager ex_kit_object [] = (Inr (None, r), w')"
    by blast
  have kit: "kt_ext ex_kit = ingress_extension ex_ingresses (\<lambda>e. '''')
      (\<lambda>b. Inr (Some [\<lparr>in_host = ''a.example'', in_paths = []\<rparr>])) (\<lambda>o1. Inl EEOF)"
    by (simp add: ex_kit_def)
  from ingress_reaches_cluster[OF ex_ingresses_law spec reg refl kit run] own run show ?thesis by fastforce
qed

end
