(* ===== verification/Publish.thy ===== *)
theory Publish
  imports Wasi_Extension
begin

text \<open>
  How a WASI extension gets to the operator: \<open>cmd/extgen/wasi/publish.go\<close> puts the module and its
  documentation into a registry, \<open>internal/extension/oci/oci.go\<close> gets them back. The content store,
  the registry, the archive format and the JSON of manifests belong to libraries: they are parameters.
\<close>

section \<open>Stores and registries\<close>

text \<open>\<open>v1.Descriptor\<close> and \<open>v1.Manifest\<close>, with the fields that are used.\<close>

record descriptor =
  dt_mediaType :: string
  dt_digest :: string
  dt_size :: int

record manifest =
  mf_config :: descriptor
  mf_layers :: "descriptor list"

record 's content_store =
  st_empty :: 's
  st_push :: "descriptor \<Rightarrow> byte list \<Rightarrow> 's \<Rightarrow> gerr option \<times> 's"
  st_tag :: "descriptor \<Rightarrow> string \<Rightarrow> 's \<Rightarrow> gerr option \<times> 's"
  st_fetch :: "descriptor \<Rightarrow> 's \<Rightarrow> gerr + byte list"

text \<open>\<open>remote.NewRepository\<close> of a name, and \<open>oras.Copy\<close> to and from it under a tag.\<close>

record ('s, 'r) registry =
  rg_repository :: "string \<Rightarrow> gerr option"
  rg_push :: "string \<Rightarrow> string \<Rightarrow> 's \<Rightarrow> 'r \<Rightarrow> gerr option \<times> 'r"
  rg_pull :: "string \<Rightarrow> string \<Rightarrow> 'r \<Rightarrow> gerr + descriptor \<times> 's"

section \<open>Publishing\<close>

text \<open>\<open>parseTag\<close>; the error text quotes the tag.\<close>

definition parseTag :: "string \<Rightarrow> gerr + string \<times> string" where
  "parseTag tag =
     (case split_on (CHR '':'') tag of
        [name] \<Rightarrow> Inr (name, ''latest'')
      | [name, ref] \<Rightarrow> Inr (name, ref)
      | _ \<Rightarrow> Inl (EMsg (''invalid tag '' @ tag @ '', expected name:tag'')))"

definition pushBlob ::
    "'s content_store \<Rightarrow> (byte list \<Rightarrow> string) \<Rightarrow> string \<Rightarrow> byte list \<Rightarrow> 's \<Rightarrow> (descriptor \<times> gerr option) \<times> 's" where
  "pushBlob st digest mediaType blob s =
     (let desc = \<lparr>dt_mediaType = mediaType, dt_digest = digest blob, dt_size = int (length blob)\<rparr>
      in case st_push st desc blob s of (e, s1) \<Rightarrow> ((desc, e), s1))"

text \<open>
  The walk over the documentation: every entry with its path, the error of the walk, the error of
  making the header, whether it is a directory, and its content or the error of reading it. An error
  of the walk is dropped; the first other error ends it. \<open>wr\<close> is the error of writing an entry.
\<close>

record doc_entry =
  dn_path :: string
  dn_err :: "gerr option"
  dn_header :: "gerr option"
  dn_dir :: bool
  dn_content :: "gerr + byte list"

fun archive_docs :: "(tar_entry \<Rightarrow> gerr option) \<Rightarrow> doc_entry list \<Rightarrow> gerr + tar_entry list" where
  "archive_docs wr [] = Inr []"
| "archive_docs wr (d # ds) =
     (if dn_err d \<noteq> None \<or> path_ext (dn_path d) \<noteq> ''.md'' then archive_docs wr ds
      else (case dn_header d of
              Some e \<Rightarrow> Inl e
            | None \<Rightarrow>
                (case (if dn_dir d then Inr [] else dn_content d) of
                   Inl e \<Rightarrow> Inl e
                 | Inr b \<Rightarrow>
                     (let en = \<lparr>te_name = dn_path d, te_content = Inr b\<rparr>
                      in case wr en of
                           Some e \<Rightarrow> Inl e
                         | None \<Rightarrow> (case archive_docs wr ds of Inl e \<Rightarrow> Inl e | Inr es \<Rightarrow> Inr (en # es))))))"

text \<open>\<open>Before\<close>: the arguments; a stat is an error or tells whether there is a directory.\<close>

definition publish_before :: "nat \<Rightarrow> gerr + bool \<Rightarrow> string \<Rightarrow> gerr + bool \<Rightarrow> gerr option" where
  "publish_before nargs wasi docs docs_stat =
     (if nargs \<noteq> 1 then Some (EMsg ''path to wasi file is required'')
      else (case wasi of
              Inl e \<Rightarrow> Some e
            | Inr True \<Rightarrow> Some (EMsg ''path to wasi file is required'')
            | Inr False \<Rightarrow>
                (if docs = '''' then None
                 else (case docs_stat of
                         Inl e \<Rightarrow> Some (EMsg ''error when opening docs directory: %w'')
                       | Inr False \<Rightarrow> Some (EMsg ''--dir must be a directory'')
                       | Inr True \<Rightarrow> None))))"

text \<open>What the command finds: the file, the documentation if asked for, and the credentials.\<close>

record publish_env =
  pe_file :: "gerr + byte list"
  pe_docs :: "doc_entry list option"
  pe_write :: "tar_entry \<Rightarrow> gerr option"
  pe_pack :: "tar_entry list \<Rightarrow> byte list"
  pe_digest :: "byte list \<Rightarrow> string"
  pe_manifest :: "manifest \<Rightarrow> byte list"
  pe_config :: "byte list"
  pe_credentials :: "gerr option"

text \<open>The layers: the module, and the documentation as an archive.\<close>

definition publish_layers ::
    "'s content_store \<Rightarrow> publish_env \<Rightarrow> 's \<Rightarrow> (gerr + descriptor list) \<times> 's" where
  "publish_layers st env s =
     (case pe_file env of
        Inl e \<Rightarrow> (Inl e, s)
      | Inr b \<Rightarrow>
          (case pushBlob st (pe_digest env) MediaTypeWASI b s of
             ((d, Some e), s1) \<Rightarrow> (Inl e, s1)
           | ((d, None), s1) \<Rightarrow>
               (case pe_docs env of
                  None \<Rightarrow> (Inr [d], s1)
                | Some ds \<Rightarrow>
                    (case archive_docs (pe_write env) ds of
                       Inl e \<Rightarrow> (Inl e, s1)
                     | Inr es \<Rightarrow>
                         (case pushBlob st (pe_digest env) MediaTypeDocs (pe_pack env es) s1 of
                            ((dd, Some e), s2) \<Rightarrow> (Inl e, s2)
                          | ((dd, None), s2) \<Rightarrow> (Inr [d, dd], s2))))))"

definition MediaTypeImageConfig :: string where
  "MediaTypeImageConfig = ''application/vnd.oci.image.config.v1+json''"

definition MediaTypeImageManifest :: string where
  "MediaTypeImageManifest = ''application/vnd.oci.image.manifest.v1+json''"

text \<open>Config and manifest: an error there is a panic.\<close>

definition publish_manifest ::
    "'s content_store \<Rightarrow> publish_env \<Rightarrow> descriptor list \<Rightarrow> 's \<Rightarrow> (gerr + descriptor) \<times> 's" where
  "publish_manifest st env layers s =
     (case pushBlob st (pe_digest env) MediaTypeImageConfig (pe_config env) s of
        ((d, Some e), s1) \<Rightarrow> (Inl (EPanic ''config''), s1)
      | ((d, None), s1) \<Rightarrow>
          (let content = \<lparr>mf_config = d, mf_layers = layers\<rparr>
           in case pushBlob st (pe_digest env) MediaTypeImageManifest (pe_manifest env content) s1 of
                ((m, Some e), s2) \<Rightarrow> (Inl (EPanic ''manifest''), s2)
              | ((m, None), s2) \<Rightarrow> (Inr m, s2)))"

text \<open>\<open>Action\<close>.\<close>

definition publish ::
    "'s content_store \<Rightarrow> ('s, 'r) registry \<Rightarrow> publish_env \<Rightarrow> string \<Rightarrow> 'r \<Rightarrow> gerr option \<times> 'r" where
  "publish st rg env tag r =
     (case parseTag tag of
        Inl e \<Rightarrow> (Some e, r)
      | Inr (name, ref) \<Rightarrow>
          (case publish_layers st env (st_empty st) of
             (Inl e, s1) \<Rightarrow> (Some e, r)
           | (Inr layers, s1) \<Rightarrow>
               (case publish_manifest st env layers s1 of
                  (Inl e, s2) \<Rightarrow> (Some e, r)
                | (Inr m, s2) \<Rightarrow>
                    (case st_tag st m ref s2 of
                       (Some e, s3) \<Rightarrow> (Some e, r)
                     | (None, s3) \<Rightarrow>
                         (case pe_credentials env of
                            Some e \<Rightarrow> (Some e, r)
                          | None \<Rightarrow>
                              (case rg_repository rg name of
                                 Some e \<Rightarrow> (Some (EPanic ''repository''), r)
                               | None \<Rightarrow>
                                   (case rg_push rg name ref s3 r of
                                      (Some e, r1) \<Rightarrow> (Some (EWrap ''failed to copy'' e), r1)
                                    | (None, r1) \<Rightarrow> (None, r1))))))))"

section \<open>Getting\<close>

fun get_layers ::
    "'s content_store \<Rightarrow> descriptor list \<Rightarrow> 's \<Rightarrow> layers \<Rightarrow> gerr + layers" where
  "get_layers st [] s files = Inr files"
| "get_layers st (l # ls) s files =
     (if dt_mediaType l = MediaTypeWASI \<or> dt_mediaType l = MediaTypeDocs
      then (case st_fetch st l s of
              Inl e \<Rightarrow> Inl (EWrap ''oci.Get: unable to fetch layer'' e)
            | Inr b \<Rightarrow> get_layers st ls s (mset_key (dt_mediaType l) b files))
      else get_layers st ls s files)"

definition oci_get ::
    "'s content_store \<Rightarrow> ('s, 'r) registry \<Rightarrow> (byte list \<Rightarrow> gerr + manifest) \<Rightarrow> string \<Rightarrow> string \<Rightarrow> 'r \<Rightarrow>
     gerr + layers" where
  "oci_get st rg dec img tag r =
     (case rg_repository rg img of
        Some e \<Rightarrow> Inl (EWrap ''oci.Get: unable to create remote repository'' e)
      | None \<Rightarrow>
          (case rg_pull rg img tag r of
             Inl e \<Rightarrow> Inl (EWrap ''oci.Get: unable to copy from remote repository'' e)
           | Inr (d, s) \<Rightarrow>
               (case st_fetch st d s of
                  Inl e \<Rightarrow> Inl (EWrap ''oci.Get: unable to fetch from OCI registry'' e)
                | Inr b \<Rightarrow>
                    (case dec b of
                       Inl e \<Rightarrow> Inl (EWrap ''oci.Get: unable to unmarshal manifest'' e)
                     | Inr m \<Rightarrow> get_layers st (mf_layers m) s []))))"

text \<open>
  \<open>extgen wasi download\<close> prints the names and sizes of the layers of one fixed image; its argument
  is not read.
\<close>

definition download ::
    "(string \<Rightarrow> string \<Rightarrow> gerr + layers) \<Rightarrow> string list \<Rightarrow> gerr + (string \<times> nat) list" where
  "download get args =
     (case get ''ghcr.io/suffiks/suffiks/test'' ''latest'' of
        Inl e \<Rightarrow> Inl e
      | Inr files \<Rightarrow> Inr (map (\<lambda>(f, b). (f, length b)) files))"

section \<open>What is published is what is loaded\<close>

text \<open>
  What is relied on of the libraries. A pushed blob can be fetched by its descriptor, and blobs stay;
  tagging changes no blob. Copying a tag to a repository and pulling it gives the tagged manifest and
  the layers it lists.
\<close>

definition store_law :: "'s content_store \<Rightarrow> bool" where
  "store_law st \<longleftrightarrow>
     (\<forall>d b s s'. st_push st d b s = (None, s') \<longrightarrow> st_fetch st d s' = Inr b \<and>
        (\<forall>d' b'. st_fetch st d' s = Inr b' \<longrightarrow> st_fetch st d' s' = Inr b')) \<and>
     (\<forall>d d' t s s'. st_tag st d t s = (None, s') \<longrightarrow> st_fetch st d' s' = st_fetch st d' s)"

definition registry_law ::
    "'s content_store \<Rightarrow> ('s, 'r) registry \<Rightarrow> (byte list \<Rightarrow> gerr + manifest) \<Rightarrow> bool" where
  "registry_law st rg dec \<longleftrightarrow>
     (\<forall>name ref d b m s s1 r r'. st_tag st d ref s = (None, s1) \<and> rg_push rg name ref s1 r = (None, r') \<and>
        st_fetch st d s1 = Inr b \<and> dec b = Inr m \<longrightarrow>
        (\<exists>s2. rg_pull rg name ref r' = Inr (d, s2) \<and> st_fetch st d s2 = Inr b \<and>
           (\<forall>l \<in> set (mf_layers m). st_fetch st l s2 = st_fetch st l s1)))"

text \<open>The pages in a directory: the markdown files in the order of the walk.\<close>

definition md_pages :: "doc_entry list \<Rightarrow> byte list list" where
  "md_pages ds = List.map_filter (\<lambda>d. if dn_err d \<noteq> None \<or> path_ext (dn_path d) \<noteq> ''.md'' then None
     else if dn_dir d then Some [] else (case dn_content d of Inl e \<Rightarrow> None | Inr b \<Rightarrow> Some b)) ds"

definition readable :: "tar_entry \<Rightarrow> bool" where
  "readable en \<longleftrightarrow> (\<exists>b. te_content en = Inr b)"

lemma archive_readable: "archive_docs wr ds = Inr es \<Longrightarrow> \<forall>en \<in> set es. readable en"
  by (induction wr ds arbitrary: es rule: archive_docs.induct)
    (auto simp: readable_def Let_def split: if_splits option.splits sum.splits)

lemma archive_pages:
  "archive_docs wr ds = Inr es \<Longrightarrow> read_docs es None pages = (None, pages @ md_pages ds)"
proof (induction wr ds arbitrary: es pages rule: archive_docs.induct)
  case (2 wr d ds)
  show ?case
  proof (cases "dn_err d \<noteq> None \<or> path_ext (dn_path d) \<noteq> ''.md''")
    case True
    with 2 show ?thesis by (auto simp: md_pages_def map_filter_simps)
  next
    case False
    with 2(3) obtain b es' where b: "(if dn_dir d then Inr [] else dn_content d) = Inr b" "dn_header d = None"
        "archive_docs wr ds = Inr es'" "es = \<lparr>te_name = dn_path d, te_content = Inr b\<rparr> # es'"
        "wr \<lparr>te_name = dn_path d, te_content = Inr b\<rparr> = None"
      by (auto simp: Let_def split: option.splits sum.splits if_splits)
    have "read_docs es' None (pages @ [b]) = (None, (pages @ [b]) @ md_pages ds)"
      using False b by (intro 2(2)) auto
    moreover have "md_pages (d # ds) = b # md_pages ds"
      using False b(1) by (auto simp: md_pages_def map_filter_simps split: if_splits)
    ultimately show ?thesis using False b(4) by simp
  qed
qed (simp add: md_pages_def map_filter_simps)

lemma pushBlob_ok:
  assumes "store_law st" "pushBlob st dg mt b s = ((d, None), s')"
  shows "dt_mediaType d = mt \<and> st_fetch st d s' = Inr b \<and>
    (\<forall>d' b'. st_fetch st d' s = Inr b' \<longrightarrow> st_fetch st d' s' = Inr b')"
  using assms by (auto simp: pushBlob_def store_law_def Let_def split: prod.splits)

lemma media_types_differ [simp]: "MediaTypeDocs \<noteq> MediaTypeWASI" "MediaTypeWASI \<noteq> MediaTypeDocs"
  by (simp_all add: MediaTypeDocs_def MediaTypeWASI_def)

text \<open>The layers that were pushed hold the module and the archive.\<close>

definition layers_hold :: "'s content_store \<Rightarrow> publish_env \<Rightarrow> descriptor list \<Rightarrow> 's \<Rightarrow> bool" where
  "layers_hold st env ls s \<longleftrightarrow>
     (\<exists>d b. pe_file env = Inr b \<and> dt_mediaType d = MediaTypeWASI \<and> st_fetch st d s = Inr b \<and>
        (case pe_docs env of
           None \<Rightarrow> ls = [d]
         | Some ds \<Rightarrow> (\<exists>dd es. archive_docs (pe_write env) ds = Inr es \<and> ls = [d, dd] \<and>
             dt_mediaType dd = MediaTypeDocs \<and> st_fetch st dd s = Inr (pe_pack env es))))"

lemma publish_layers_hold:
  assumes "store_law st" "publish_layers st env s = (Inr ls, s')"
  shows "layers_hold st env ls s'"
  using assms(2)
  by (auto simp: publish_layers_def layers_hold_def split: sum.splits prod.splits option.splits
      dest!: pushBlob_ok[OF assms(1)])

lemma layers_hold_mono:
  assumes "layers_hold st env ls s"
    and "\<And>l b. l \<in> set ls \<Longrightarrow> st_fetch st l s = Inr b \<Longrightarrow> st_fetch st l s' = Inr b"
  shows "layers_hold st env ls s'"
  using assms by (fastforce simp: layers_hold_def split: option.splits)

lemma get_layers_held:
  assumes "layers_hold st env ls s"
  shows "\<exists>files. get_layers st ls s [] = Inr files \<and> pe_file env = Inr (the (mget files MediaTypeWASI)) \<and>
    mget files MediaTypeWASI \<noteq> None \<and>
    (case pe_docs env of None \<Rightarrow> mget files MediaTypeDocs = None
     | Some ds \<Rightarrow> \<exists>es. archive_docs (pe_write env) ds = Inr es \<and> mget files MediaTypeDocs = Some (pe_pack env es))"
  using assms by (cases "pe_docs env") (auto simp: layers_hold_def)

lemma publish_manifest_ok:
  assumes "store_law st" "publish_manifest st env ls s = (Inr m, s')"
  shows "\<exists>d. st_fetch st m s' = Inr (pe_manifest env \<lparr>mf_config = d, mf_layers = ls\<rparr>) \<and>
    (\<forall>d' b'. st_fetch st d' s = Inr b' \<longrightarrow> st_fetch st d' s' = Inr b')"
  using assms(2)
  by (auto simp: publish_manifest_def Let_def split: prod.splits option.splits dest!: pushBlob_ok[OF assms(1)])


section \<open>Tags\<close>

text \<open>
  The tag under which an extension asks for its image is split back into image and tag when neither
  has a colon; an image on a registry with a port is refused, or split at the port.
\<close>

lemma parseTag_image_tag:
  "CHR '':'' \<notin> set (wc_image w) \<Longrightarrow> CHR '':'' \<notin> set (wc_tag w) \<Longrightarrow>
   parseTag (image_tag w) = Inr (wc_image w, wc_tag w)"
  by (simp add: parseTag_def image_tag_def split_on_none split_on_sep)

lemma registry_port_misread:
  assumes "CHR '':'' \<notin> set host" "CHR '':'' \<notin> set port_path" "CHR '':'' \<notin> set t"
  shows "parseTag (host @ CHR '':'' # port_path) = Inr (host, port_path) \<and>
    (\<exists>e. parseTag (host @ CHR '':'' # port_path @ CHR '':'' # t) = Inl e)"
  using assms by (simp add: parseTag_def split_on_none split_on_sep)

text \<open>\<open>download\<close> does not look at its argument.\<close>

lemma download_ignores_argument: "download get args = download get args'"
  by (simp add: download_def)

section \<open>Witnesses\<close>

text \<open>A manifest as bytes: each list item is preceded by a one, and a zero ends the list.\<close>

definition en_list :: "('x \<Rightarrow> byte list) \<Rightarrow> 'x list \<Rightarrow> byte list" where
  "en_list f xs = concat (map (\<lambda>x. 1 # f x) xs) @ [0]"

fun un_items :: "nat \<Rightarrow> (byte list \<Rightarrow> 'x \<times> byte list) \<Rightarrow> byte list \<Rightarrow> 'x list \<times> byte list" where
  "un_items (Suc n) d (b # bs) =
     (if b = 0 then ([], bs)
      else (case d bs of (x, r) \<Rightarrow> (case un_items n d r of (xs, r1) \<Rightarrow> (x # xs, r1))))"
| "un_items n d bs = ([], bs)"

definition un_list :: "(byte list \<Rightarrow> 'x \<times> byte list) \<Rightarrow> byte list \<Rightarrow> 'x list \<times> byte list" where
  "un_list d bs = un_items (length bs) d bs"

lemma un_items_en:
  "length xs < n \<Longrightarrow> \<forall>x \<in> set xs. \<forall>r. d (f x @ r) = (x, r) \<Longrightarrow> un_items n d (en_list f xs @ r) = (xs, r)"
proof (induction xs arbitrary: n)
  case Nil
  then show ?case by (cases n) (simp_all add: en_list_def)
next
  case (Cons x xs)
  then obtain k where "n = Suc k" "length xs < k" by (cases n) auto
  with Cons.IH[of k] Cons.prems(2) show ?case by (simp add: en_list_def)
qed

lemma un_list_en:
  assumes "\<forall>x \<in> set xs. \<forall>r. d (f x @ r) = (x, r)"
  shows "un_list d (en_list f xs @ r) = (xs, r)"
proof -
  have "length xs < length (en_list f xs @ r)" by (induction xs) (auto simp: en_list_def)
  from un_items_en[OF this assms] show ?thesis by (simp add: un_list_def)
qed

definition en_string :: "string \<Rightarrow> byte list" where "en_string = en_list (\<lambda>c. [of_nat (of_char c)])"
definition un_string :: "byte list \<Rightarrow> string \<times> byte list" where
  "un_string = un_list (\<lambda>bs. (char_of (unat (hd bs)), tl bs))"

lemma un_string_en: "un_string (en_string s @ r) = (s, r)"
  unfolding un_string_def en_string_def
  by (rule un_list_en) (simp add: unat_of_nat of_char_mod_256)

definition en_int :: "int \<Rightarrow> byte list" where
  "en_int i = (if i < 0 then 1 else 0) # en_list (\<lambda>u. []) (replicate (nat \<bar>i\<bar>) ())"

definition un_int :: "byte list \<Rightarrow> int \<times> byte list" where
  "un_int bs = (case un_list (\<lambda>r. ((), r)) (tl bs) of
     (us, r) \<Rightarrow> (if hd bs = 1 then - int (length us) else int (length us), r))"

lemma un_int_en: "un_int (en_int i @ r) = (i, r)"
  by (simp add: un_int_def en_int_def un_list_en)

definition en_desc :: "descriptor \<Rightarrow> byte list" where
  "en_desc d = en_string (dt_mediaType d) @ en_string (dt_digest d) @ en_int (dt_size d)"

definition un_desc :: "byte list \<Rightarrow> descriptor \<times> byte list" where
  "un_desc bs = (case un_string bs of (mt, r1) \<Rightarrow> (case un_string r1 of (dg, r2) \<Rightarrow> (case un_int r2 of
     (i, r3) \<Rightarrow> (\<lparr>dt_mediaType = mt, dt_digest = dg, dt_size = i\<rparr>, r3))))"

lemma un_desc_en: "un_desc (en_desc d @ r) = (d, r)"
  by (simp add: un_desc_def en_desc_def un_string_en un_int_en)

definition ex_manifest :: "manifest \<Rightarrow> byte list" where
  "ex_manifest m = en_desc (mf_config m) @ en_list en_desc (mf_layers m)"

definition ex_read_manifest :: "byte list \<Rightarrow> gerr + manifest" where
  "ex_read_manifest bs = (case un_desc bs of (c, r) \<Rightarrow>
     Inr \<lparr>mf_config = c, mf_layers = fst (un_list un_desc r)\<rparr>)"

lemma ex_read_written: "ex_read_manifest (ex_manifest m) = Inr m"
  using un_list_en[of "mf_layers m" un_desc en_desc "[]"]
  by (simp add: ex_read_manifest_def ex_manifest_def un_desc_en)

text \<open>A store of blobs by descriptor, and a registry that keeps stores by name and tag.\<close>

definition ex_store :: "((descriptor, byte list) gomap \<times> (string, descriptor) gomap) content_store" where
  "ex_store = \<lparr>st_empty = ([], []),
     st_push = (\<lambda>d b s. if mget (fst s) d = None then (None, (mset_key d b (fst s), snd s)) else (Some (EMsg ''already exists''), s)),
     st_tag = (\<lambda>d t s. (None, (fst s, mset_key t d (snd s)))),
     st_fetch = (\<lambda>d s. case mget (fst s) d of None \<Rightarrow> Inl (EMsg ''not found'') | Some b \<Rightarrow> Inr b)\<rparr>"

type_synonym ex_blobs = "(descriptor, byte list) gomap \<times> (string, descriptor) gomap"

definition ex_registry :: "(ex_blobs, (string \<times> string, descriptor \<times> ex_blobs) gomap) registry" where
  "ex_registry = \<lparr>rg_repository = (\<lambda>n. None),
     rg_push = (\<lambda>n t s r. case mget (snd s) t of None \<Rightarrow> (Some (EMsg ''not found''), r)
        | Some d \<Rightarrow> (None, mset_key (n, t) (d, s) r)),
     rg_pull = (\<lambda>n t r. case mget r (n, t) of None \<Rightarrow> Inl (EMsg ''not found'') | Some x \<Rightarrow> Inr x)\<rparr>"

lemma ex_store_law: "store_law ex_store"
  by (auto simp: store_law_def ex_store_def mget_update split: option.splits if_splits)

lemma ex_registry_law: "registry_law ex_store ex_registry dec"
  by (auto simp: registry_law_def ex_store_def ex_registry_def mget_update split: option.splits)

text \<open>Archives of entries that can be read.\<close>

definition en_entry :: "tar_entry \<Rightarrow> byte list" where
  "en_entry en = en_string (te_name en) @ en_list (\<lambda>b. [b]) (case te_content en of Inl e \<Rightarrow> [] | Inr b \<Rightarrow> b)"

definition un_entry :: "byte list \<Rightarrow> tar_entry \<times> byte list" where
  "un_entry bs = (case un_string bs of (n, r1) \<Rightarrow> (case un_list (\<lambda>r. (hd r, tl r)) r1 of (b, r2) \<Rightarrow>
     (\<lparr>te_name = n, te_content = Inr b\<rparr>, r2)))"

definition ex_untar :: "byte list \<Rightarrow> gerr + tar_entry list \<times> gerr option" where
  "ex_untar bs = Inr (fst (un_list un_entry bs), None)"

lemma ex_untar_packed: "\<forall>en \<in> set es. readable en \<Longrightarrow> ex_untar (en_list en_entry es) = Inr (es, None)"
proof -
  assume rd: "\<forall>en \<in> set es. readable en"
  have "un_entry (en_entry en @ r) = (en, r)" if "readable en" for en r
    using that by (auto simp: readable_def un_entry_def en_entry_def un_string_en un_list_en)
  with rd un_list_en[of es un_entry en_entry "[]"] show ?thesis by (simp add: ex_untar_def)
qed

definition ex_publish :: publish_env where
  "ex_publish = \<lparr>pe_file = Inr [0, 97, 115, 109],
     pe_docs = Some [\<lparr>dn_path = ''a.md'', dn_err = None, dn_header = None, dn_dir = False, dn_content = Inr [35]\<rparr>],
     pe_write = (\<lambda>en. None), pe_pack = en_list en_entry, pe_digest = (\<lambda>b. ''sha''),
     pe_manifest = ex_manifest, pe_config = [72], pe_credentials = None\<rparr>"

lemma ex_published: "fst (publish ex_store ex_registry ex_publish ''ext:v1'' []) = None"
  by (simp add: publish_def parseTag_def publish_layers_def ex_publish_def pushBlob_def ex_store_def path_ext_def
      publish_manifest_def ex_registry_def MediaTypeImageConfig_def MediaTypeImageManifest_def
      MediaTypeDocs_def MediaTypeWASI_def Let_def)


end
