(* ===== verification/Extgen.thy ===== *)
theory Extgen
  imports Wasi_Extension Api_Facts
begin

text \<open>
  \<open>cmd/extgen/main.go\<close>: the tool that generates the Extension resource of a Go type (\<open>crd\<close>), its
  role (\<open>rbac\<close>) and the skeleton of a new extension (\<open>new\<close>). Loading Go packages, schemas, markers,
  templates and the formatter belong to libraries: they are parameters, like the outcome of every
  file operation. Paths are made by putting a slash between their parts.
\<close>

section \<open>Strings\<close>

definition trim_prefix :: "string \<Rightarrow> string \<Rightarrow> string" where
  "trim_prefix s p = (if take (length p) s = p then drop (length p) s else s)"

definition trim_suffix :: "string \<Rightarrow> string \<Rightarrow> string" where
  "trim_suffix s p = rev (trim_prefix (rev s) (rev p))"

function replace_all :: "string \<Rightarrow> string \<Rightarrow> string \<Rightarrow> string" where
  "replace_all old new [] = []"
| "replace_all old new (c # s) =
     (if old \<noteq> '''' \<and> take (length old) (c # s) = old
      then new @ replace_all old new (drop (length old) (c # s))
      else c # replace_all old new s)"
  by pat_completeness auto
termination
  by (relation "measure (\<lambda>(old, new, s). length s)") auto

definition to_lower :: "string \<Rightarrow> string" where
  "to_lower = map lower_char"

section \<open>crd\<close>

text \<open>\<open>ExtensionMarker\<close>.\<close>

record marker =
  mk_types :: "string list"
  mk_validation :: bool
  mk_defaulting :: bool
  mk_always :: bool

text \<open>
  What the libraries find: the packages, the types in \<open>pars.Schemata\<close> (package and name) in the
  order of that map, the flattened schema of a type as JSON, and for the type specs of a package that
  have markers their name and the marker \<open>suffiks:extension\<close>, if it is one of them.
\<close>

record crd_env =
  ce_types :: "string list"
  ce_packages :: "gerr + string list"
  ce_define :: "gerr option"
  ce_mkdir :: "gerr option"
  ce_schemata :: "(string \<times> string) list"
  ce_schema :: "string \<times> string \<Rightarrow> gerr + raw"
  ce_markers :: "string \<Rightarrow> gerr + (string \<times> marker option) list"
  ce_write :: "string \<Rightarrow> extension \<Rightarrow> gerr option"

definition bare_extension :: "string \<Rightarrow> raw \<Rightarrow> extension" where
  "bare_extension name b =
     \<lparr>ex_meta = zero_meta\<lparr>om_name := to_lower name\<rparr>,
      ex_spec = \<lparr>es_targets = [], es_schema = b,
        es_controller = \<lparr>cs_grpc = Some \<lparr>gc_namespace = '''', gc_service = '''', gc_port = 0\<rparr>, cs_wasi = None\<rparr>,
        es_webhooks = \<lparr>wh_validation = False, wh_defaulting = False\<rparr>, es_always = False\<rparr>,
      ex_status = StatusNone\<rparr>"

definition apply_marker :: "marker \<Rightarrow> ext_spec \<Rightarrow> ext_spec" where
  "apply_marker m sp =
     (let sp1 = sp\<lparr>es_targets := es_targets sp @ mk_types m, es_always := mk_always m\<rparr>
      in if mk_defaulting m \<or> mk_validation m
         then sp1\<lparr>es_webhooks := \<lparr>wh_validation = mk_validation m, wh_defaulting = mk_defaulting m\<rparr>\<rparr>
         else sp1)"

text \<open>A type of that name without the marker fails the type assertion.\<close>

fun apply_markers :: "string \<Rightarrow> (string \<times> marker option) list \<Rightarrow> ext_spec \<Rightarrow> gerr + ext_spec" where
  "apply_markers name [] sp = Inr sp"
| "apply_markers name ((n, m) # ms) sp =
     (if n = name
      then (case m of
              None \<Rightarrow> Inl (EPanic ''interface conversion'')
            | Some mk \<Rightarrow> apply_markers name ms (apply_marker mk sp))
      else apply_markers name ms sp)"

definition generate_extension :: "crd_env \<Rightarrow> string \<times> string \<Rightarrow> gerr + extension" where
  "generate_extension env k =
     (case ce_schema env k of
        Inl e \<Rightarrow> Inl e
      | Inr b \<Rightarrow>
          (case ce_markers env (fst k) of
             Inl e \<Rightarrow> Inl e
           | Inr ms \<Rightarrow>
               (let ext = bare_extension (snd k) b
                in case apply_markers (snd k) ms (ex_spec ext) of
                     Inl e \<Rightarrow> Inl e
                   | Inr sp \<Rightarrow> Inr (ext\<lparr>ex_spec := sp\<rparr>))))"

text \<open>The loop over \<open>pars.Schemata\<close>; the files written so far are kept with their content.\<close>

fun crd_loop ::
    "crd_env \<Rightarrow> (string \<times> string) list \<Rightarrow> (string \<times> extension) list \<Rightarrow> gerr option \<times> (string \<times> extension) list" where
  "crd_loop env [] ws = (None, ws)"
| "crd_loop env (k # ks) ws =
     (if snd k \<notin> set (ce_types env) then crd_loop env ks ws
      else (case generate_extension env k of
              Inl e \<Rightarrow> (Some e, ws)
            | Inr ext \<Rightarrow>
                (let f = to_lower (snd k) @ ''.yaml''
                 in case ce_write env f ext of
                      Some e \<Rightarrow> (Some e, ws)
                    | None \<Rightarrow> crd_loop env ks (ws @ [(f, ext)]))))"

definition crd_gen :: "crd_env \<Rightarrow> gerr option \<times> (string \<times> extension) list" where
  "crd_gen env =
     (if ce_types env = [] then (Some (EMsg ''no types specified''), [])
      else (case ce_packages env of
              Inl e \<Rightarrow> (Some e, [])
            | Inr pkgs \<Rightarrow>
                (case ce_define env of
                   Some e \<Rightarrow> (Some e, [])
                 | None \<Rightarrow>
                     (case ce_mkdir env of
                        Some e \<Rightarrow> (Some e, [])
                      | None \<Rightarrow>
                          (if pkgs = [] then (Some (EPanic ''index out of range''), [])
                           else (case crd_loop env (ce_schemata env) [] of
                                   (Some e, ws) \<Rightarrow> (Some e, ws)
                                 | (None, ws) \<Rightarrow>
                                     (if length ws = 0 then (Some (EMsg ''no CRDs created''), ws)
                                      else (None, ws))))))))"

section \<open>rbac\<close>

text \<open>
  One file for all roles, each after a document separator; \<open>yaml\<close> prints a role. Nothing is written
  when there is none. \<open>create\<close> and \<open>put\<close> are the outcomes of creating the file and of the writes.
\<close>

definition doc_separator :: string where
  "doc_separator = ''---'' @ [CHR 0x0A]"

fun role_file :: "('o \<Rightarrow> gerr + string) \<Rightarrow> (string \<Rightarrow> gerr option) \<Rightarrow> 'o list \<Rightarrow> string \<Rightarrow> gerr option \<times> string" where
  "role_file yaml put [] out = (None, out)"
| "role_file yaml put (v # vs) out =
     (case put doc_separator of
        Some e \<Rightarrow> (Some e, out)
      | None \<Rightarrow>
          (case yaml v of
             Inl e \<Rightarrow> (Some e, out @ doc_separator)
           | Inr b \<Rightarrow>
               (case put b of
                  Some e \<Rightarrow> (Some e, out @ doc_separator)
                | None \<Rightarrow> role_file yaml put vs (out @ doc_separator @ b))))"

definition rbac_gen ::
    "gerr + string list \<Rightarrow> (string list \<Rightarrow> gerr + 'o list) \<Rightarrow> gerr option \<Rightarrow> gerr option \<Rightarrow>
     ('o \<Rightarrow> gerr + string) \<Rightarrow> (string \<Rightarrow> gerr option) \<Rightarrow> gerr option \<times> string option" where
  "rbac_gen packages roles mkdir create yaml put =
     (case packages of
        Inl e \<Rightarrow> (Some e, None)
      | Inr pkgs \<Rightarrow>
          (case roles pkgs of
             Inl e \<Rightarrow> (Some e, None)
           | Inr vs \<Rightarrow>
               (case mkdir of
                  Some e \<Rightarrow> (Some e, None)
                | None \<Rightarrow>
                    (if vs = [] then (None, None)
                     else (case create of
                             Some e \<Rightarrow> (Some e, None)
                           | None \<Rightarrow> (case role_file yaml put vs '''' of (e, out) \<Rightarrow> (e, Some out)))))))"

section \<open>new\<close>

text \<open>\<open>Before\<close>: the targets.\<close>

definition new_before :: "string list \<Rightarrow> gerr option" where
  "new_before targets =
     (if targets = [] then Some (EMsg ''target is required'')
      else if \<exists>t \<in> set targets. t \<noteq> ''Application'' \<and> t \<noteq> ''Work''
      then Some (EMsg ''target must be one of: Application, Work'')
      else None)"

record new_flags =
  nf_validation :: bool
  nf_defaulting :: bool
  nf_kubernetes :: bool
  nf_always :: bool
  nf_targets :: "string list"

text \<open>The data of the templates; \<open>title\<close> is the caser of the text library.\<close>

record new_data =
  nd_repo :: string
  nd_name :: string
  nd_goName :: string
  nd_receiver :: string
  nd_flags :: new_flags
  nd_targets :: string

definition new_name :: "string \<Rightarrow> string" where
  "new_name repo = last (split_on (CHR ''/'') repo)"

definition make_data :: "(string \<Rightarrow> string) \<Rightarrow> string \<Rightarrow> new_flags \<Rightarrow> gerr + new_data" where
  "make_data title repo fl =
     (let name = new_name repo
      in if name = '''' then Inl (EPanic ''slice bounds out of range'')
         else Inr \<lparr>nd_repo = repo, nd_name = name, nd_goName = title name, nd_receiver = to_lower (take 1 name),
                   nd_flags = fl, nd_targets = join_with '';'' (nf_targets fl)\<rparr>)"

text \<open>
  The walk over the embedded files. An entry has its path, the error of the walk, whether it is a
  directory, and the error of reading it or its text. What is done to the file system is recorded;
  \<open>io\<close> is the outcome of an operation.
\<close>

record scaffold_entry =
  sc_path :: string
  sc_err :: "gerr option"
  sc_dir :: bool
  sc_content :: "gerr + string"

datatype fs_op = FMkdir string | FCreate string | FWrite string string

record new_env =
  ne_title :: "string \<Rightarrow> string"
  ne_parse :: "string \<Rightarrow> gerr option"
  ne_execute :: "string \<Rightarrow> new_data \<Rightarrow> gerr + string"
  ne_format :: "string \<Rightarrow> gerr + string"
  ne_io :: "fs_op \<Rightarrow> gerr option"

definition scaffold_path :: "string \<Rightarrow> string \<Rightarrow> string" where
  "scaffold_path name path = name @ ''/'' @ replace_all ''NAME'' name (trim_prefix path ''scaffold/'')"

definition scaffold_file ::
    "new_env \<Rightarrow> new_data \<Rightarrow> string \<Rightarrow> string \<Rightarrow> string \<Rightarrow> gerr option \<times> fs_op list" where
  "scaffold_file env data path fname text =
     (case ne_parse env text of
        Some e \<Rightarrow> (Some (EWrap path e), [])
      | None \<Rightarrow>
          (case ne_io env (FCreate fname) of
             Some e \<Rightarrow> (Some (EWrap path e), [])
           | None \<Rightarrow>
               (case ne_execute env text data of
                  Inl e \<Rightarrow> (Some (EWrap path e), [FCreate fname])
                | Inr b \<Rightarrow>
                    (case (if path_ext fname = ''.go'' then ne_format env b else Inr b) of
                       Inl e \<Rightarrow> (Some (EWrap path e), [FCreate fname])
                     | Inr b1 \<Rightarrow>
                         (case ne_io env (FWrite fname b1) of
                            Some e \<Rightarrow> (Some (EWrap path e), [FCreate fname])
                          | None \<Rightarrow> (None, [FCreate fname, FWrite fname b1]))))))"

fun scaffold_walk ::
    "new_env \<Rightarrow> new_data \<Rightarrow> scaffold_entry list \<Rightarrow> fs_op list \<Rightarrow> gerr option \<times> fs_op list" where
  "scaffold_walk env data [] ops = (None, ops)"
| "scaffold_walk env data (s # ss) ops =
     (case sc_err s of
        Some e \<Rightarrow> (Some e, ops)
      | None \<Rightarrow>
          (if sc_path s = ''scaffold'' then scaffold_walk env data ss ops
           else if sc_dir s
           then (let d = scaffold_path (nd_name data) (sc_path s)
                 in case ne_io env (FMkdir d) of
                      Some e \<Rightarrow> (Some e, ops)
                    | None \<Rightarrow> scaffold_walk env data ss (ops @ [FMkdir d]))
           else (case sc_content s of
                   Inl e \<Rightarrow> (Some e, ops)
                 | Inr text \<Rightarrow>
                     (let fname = trim_suffix (scaffold_path (nd_name data) (sc_path s)) ''.tpl''
                      in case scaffold_file env data (sc_path s) fname text of
                           (Some e, done1) \<Rightarrow> (Some e, ops @ done1)
                         | (None, done1) \<Rightarrow> scaffold_walk env data ss (ops @ done1)))))"

text \<open>The directory of the documentation may exist already: that error is dropped.\<close>

definition new_gen ::
    "new_env \<Rightarrow> string \<Rightarrow> new_flags \<Rightarrow> scaffold_entry list \<Rightarrow> gerr option \<times> fs_op list" where
  "new_gen env repo fl files =
     (if repo = '''' then (Some (EMsg ''missing repo url''), [])
      else (case make_data (ne_title env) repo fl of
              Inl e \<Rightarrow> (Some e, [])
            | Inr data \<Rightarrow>
                (case ne_io env (FMkdir (nd_name data)) of
                   Some e \<Rightarrow> (Some e, [])
                 | None \<Rightarrow>
                     (case scaffold_walk env data files [FMkdir (nd_name data)] of
                        (Some e, ops) \<Rightarrow> (Some e, ops)
                      | (None, ops) \<Rightarrow>
                          (let d = nd_name data @ ''/docs''
                           in (None, if ne_io env (FMkdir d) = None then ops @ [FMkdir d] else ops))))))"

section \<open>The resource that is generated\<close>

text \<open>All markers of the types of a name, and the last of them.\<close>

definition markers_of :: "string \<Rightarrow> (string \<times> marker option) list \<Rightarrow> marker list" where
  "markers_of name ms = List.map_filter snd (filter (\<lambda>p. fst p = name) ms)"

lemma apply_marker_simps [simp]:
  "es_targets (apply_marker m sp) = es_targets sp @ mk_types m"
  "es_schema (apply_marker m sp) = es_schema sp"
  "es_controller (apply_marker m sp) = es_controller sp"
  "es_always (apply_marker m sp) = mk_always m"
  by (simp_all add: apply_marker_def Let_def)

lemma apply_markers_spec:
  assumes "apply_markers name ms sp = Inr sp'"
  shows "es_targets sp' = es_targets sp @ concat (map mk_types (markers_of name ms)) \<and>
    es_schema sp' = es_schema sp \<and> es_controller sp' = es_controller sp \<and>
    es_always sp' = (if markers_of name ms = [] then es_always sp else mk_always (last (markers_of name ms)))"
  using assms
  by (induction name ms sp rule: apply_markers.induct)
    (auto simp: markers_of_def map_filter_simps split: if_splits option.splits)

lemma generate_extension_spec:
  assumes "generate_extension env k = Inr x"
  obtains b ms where "ce_schema env k = Inr b" "ce_markers env (fst k) = Inr ms"
    "ex_name x = to_lower (snd k)" "es_schema (ex_spec x) = b"
    "es_targets (ex_spec x) = concat (map mk_types (markers_of (snd k) ms))"
    "es_always (ex_spec x) = (markers_of (snd k) ms \<noteq> [] \<and> mk_always (last (markers_of (snd k) ms)))"
    "cs_wasi (es_controller (ex_spec x)) = None" "cs_grpc (es_controller (ex_spec x)) \<noteq> None"
  using assms
  by (auto simp: generate_extension_def bare_extension_def Let_def zero_meta_def split: sum.splits if_splits
      dest!: apply_markers_spec)

lemma list_all2_in_right: "list_all2 P xs ys \<Longrightarrow> y \<in> set ys \<Longrightarrow> \<exists>x \<in> set xs. P x y"
  by (induction rule: list_all2_induct) auto

lemma crd_loop_writes:
  assumes "crd_loop env ks ws = (None, ws')"
  shows "\<exists>xs. ws' = ws @ xs \<and> list_all2 (\<lambda>k (f, x). f = to_lower (snd k) @ ''.yaml'' \<and> generate_extension env k = Inr x)
    (filter (\<lambda>k. snd k \<in> set (ce_types env)) ks) xs"
  using assms
proof (induction ks arbitrary: ws)
  case (Cons k ks)
  show ?case
  proof (cases "snd k \<in> set (ce_types env)")
    case False
    with Cons show ?thesis by simp
  next
    case True
    with Cons.prems obtain x where x: "generate_extension env k = Inr x"
        "crd_loop env ks (ws @ [(to_lower (snd k) @ ''.yaml'', x)]) = (None, ws')"
      by (auto simp: Let_def split: sum.splits option.splits)
    from Cons.IH[OF x(2)] x(1) True show ?thesis by auto
  qed
qed simp


section \<open>Where a skeleton is written\<close>

fun op_path :: "fs_op \<Rightarrow> string" where
  "op_path (FMkdir p) = p"
| "op_path (FCreate p) = p"
| "op_path (FWrite p b) = p"

definition inside :: "string \<Rightarrow> fs_op \<Rightarrow> bool" where
  "inside name p \<longleftrightarrow> op_path p = name \<or> (\<exists>rest. op_path p = name @ CHR ''/'' # rest)"

lemma trim_suffix_inside:
  assumes "CHR ''/'' \<notin> set suf"
  shows "\<exists>rest'. trim_suffix (name @ CHR ''/'' # rest) suf = name @ CHR ''/'' # rest'"
proof (cases "take (length suf) (rev (name @ CHR ''/'' # rest)) = rev suf")
  case True
  have "length suf \<le> length rest"
  proof (rule ccontr)
    assume "\<not> length suf \<le> length rest"
    then have "CHR ''/'' \<in> set (take (length suf) (rev rest @ CHR ''/'' # rev name))"
      by (simp add: take_Cons')
    with True assms show False by (metis append.assoc append_Cons append_Nil rev.simps(2) rev_append set_rev)
  qed
  then show ?thesis by (simp add: trim_suffix_def trim_prefix_def)
next
  case False
  then show ?thesis by (simp add: trim_suffix_def trim_prefix_def)
qed

lemma scaffold_file_inside:
  assumes "scaffold_file env data path (name @ CHR ''/'' # rest) text = (e, ops)" "p \<in> set ops"
  shows "inside name p"
  using assms by (auto simp: scaffold_file_def inside_def split: option.splits sum.splits if_splits)

lemma scaffold_walk_inside:
  "scaffold_walk env data ss ops = (e, ops') \<Longrightarrow> \<forall>p \<in> set ops. inside (nd_name data) p \<Longrightarrow>
   \<forall>p \<in> set ops'. inside (nd_name data) p"
proof (induction ss arbitrary: ops)
  case (Cons s ss)
  obtain rest where path: "trim_suffix (scaffold_path (nd_name data) (sc_path s)) ''.tpl'' = nd_name data @ CHR ''/'' # rest"
    using trim_suffix_inside[of "''.tpl''" "nd_name data"] by (auto simp: scaffold_path_def)
  have dir: "inside (nd_name data) (FMkdir (scaffold_path (nd_name data) (sc_path s)))"
    by (simp add: inside_def scaffold_path_def)
  have filed: "\<forall>p \<in> set (ops @ done1). inside (nd_name data) p"
    if "scaffold_file env data (sc_path s) (nd_name data @ CHR ''/'' # rest) tx = (r, done1)" for tx r done1
    using Cons.prems(2) scaffold_file_inside[OF that] by auto
  show ?case
  proof (cases "sc_err s = None \<and> sc_path s \<noteq> ''scaffold'' \<and> \<not> sc_dir s")
    case False
    with Cons.prems dir Cons.IH[of ops] Cons.IH[of "ops @ [FMkdir (scaffold_path (nd_name data) (sc_path s))]"]
    show ?thesis by (auto simp: Let_def split: option.splits if_splits)
  next
    case True
    with Cons.prems show ?thesis
      by (auto simp: path Let_def simp del: set_append split: sum.splits prod.splits option.splits
          dest!: filed dest: Cons.IH)
  qed
qed simp

text \<open>
  A new extension is written inside the directory named by the last part of its path, which is not
  empty: no operation touches a path outside, whatever the templates are called.
\<close>

theorem new_stays_inside:
  assumes "new_gen env repo fl files = (e, ops)" "p \<in> set ops"
  shows "new_name repo \<noteq> '''' \<and> inside (new_name repo) p"
proof -
  obtain data where data: "make_data (ne_title env) repo fl = Inr data"
    using assms by (auto simp: new_gen_def split: if_splits sum.splits)
  then have name: "nd_name data = new_name repo" "new_name repo \<noteq> ''''"
    by (auto simp: make_data_def Let_def split: if_splits)
  have start: "inside (nd_name data) (FMkdir (nd_name data))" "inside (nd_name data) (FMkdir (nd_name data @ ''/docs''))"
    by (auto simp: inside_def)
  show ?thesis
  proof (cases "ne_io env (FMkdir (nd_name data)) = None")
    case False
    then obtain err where "ne_io env (FMkdir (nd_name data)) = Some err" by blast
    with assms(1) data have "ops = []" by (cases "repo = ''''") (simp_all add: new_gen_def)
    with assms(2) show ?thesis by simp
  next
    case True
    obtain r ops1 where walk: "scaffold_walk env data files [FMkdir (nd_name data)] = (r, ops1)" by force
    have "\<forall>q \<in> set ops1. inside (nd_name data) q"
      by (rule scaffold_walk_inside[OF walk]) (simp add: start)
    moreover have "set ops \<subseteq> insert (FMkdir (nd_name data @ ''/docs'')) (set ops1)"
      using assms(1) data True walk by (cases "repo = ''''"; cases r) (auto simp: new_gen_def Let_def split: if_splits)
    ultimately show ?thesis using assms(2) start name by auto
  qed
qed

section \<open>Witnesses\<close>

definition ex_crd_env :: crd_env where
  "ex_crd_env = \<lparr>ce_types = [''Route''], ce_packages = Inr [''p''], ce_define = None, ce_mkdir = None,
     ce_schemata = [(''p'', ''Host''), (''p'', ''Route'')], ce_schema = (\<lambda>k. Inr (RawJSON (JObj []))),
     ce_markers = (\<lambda>p. Inr [(''Route'', Some \<lparr>mk_types = [''Application''], mk_validation = True,
       mk_defaulting = False, mk_always = True\<rparr>)]), ce_write = (\<lambda>f x. None)\<rparr>"

definition zero_object :: schema where "zero_object = Schema ''object'' None JNull"

lemma to_lower_route: "to_lower ''Route'' = ''route''" "to_lower ''Host'' = ''host''"
  by code_simp+


end
