(* ===== verification/Gen_Env.thy ===== *)
theory Gen_Env
  imports Docs Json
begin

text \<open>
  \<open>cmd/dev/gen_wasi_env/main.go\<close>: the developer tool that prints the interface of the WASI host module,
  from the Go source of \<open>internal/waruntime\<close>. The Go parser is a parameter: the model starts at its
  syntax tree, of which it has the nodes the tool looks at.
\<close>

section \<open>The syntax tree\<close>

datatype go_expr =
    Ident string
  | StarExpr go_expr
  | SelectorExpr go_expr string
  | BasicLit string
  | KeyValueExpr go_expr go_expr
  | CompositeLit "go_expr list"
  | OtherExpr

record go_field =
  fd_names :: "string list"
  fd_type :: go_expr

datatype go_stmt = ReturnStmt "go_expr list" | OtherStmt

text \<open>A declaration of a function; \<open>fn_doc\<close> is the text of its comment, empty without one.\<close>

record func_decl =
  fn_recv :: "go_field list option"
  fn_name :: string
  fn_doc :: string
  fn_params :: "go_field list"
  fn_results :: "go_field list option"
  fn_body :: "go_stmt list option"

datatype go_decl = FuncDecl func_decl | OtherDecl

type_synonym go_file = "go_decl list"

section \<open>Panics\<close>

definition conversion_panic :: gerr where
  "conversion_panic = EPanic ''interface conversion''"

definition index_panic :: gerr where
  "index_panic = EPanic ''index out of range''"

definition nil_panic :: gerr where
  "nil_panic = EPanic ''nil pointer dereference''"

definition ident_name :: "go_expr \<Rightarrow> gerr + string" where
  "ident_name e = (case e of Ident n \<Rightarrow> Inr n | _ \<Rightarrow> Inl conversion_panic)"

section \<open>The methods of Runner\<close>

definition receiverName :: "func_decl \<Rightarrow> gerr + string" where
  "receiverName f =
     (case fn_recv f of
        None \<Rightarrow> Inr ''''
      | Some [] \<Rightarrow> Inl index_panic
      | Some (r # rs) \<Rightarrow>
          (case fd_type r of StarExpr x \<Rightarrow> ident_name x | Ident n \<Rightarrow> Inr n | _ \<Rightarrow> Inr ''''))"

text \<open>
  \<open>ast.Inspect\<close>: it goes into the package and its files, in the order in which it visits them, and no
  further. A later method of the same name takes the place of an earlier one.
\<close>

fun collect_decls :: "go_decl list \<Rightarrow> (string, func_decl) gomap \<Rightarrow> gerr + (string, func_decl) gomap" where
  "collect_decls [] funcs = Inr funcs"
| "collect_decls (OtherDecl # ds) funcs = collect_decls ds funcs"
| "collect_decls (FuncDecl f # ds) funcs =
     (case receiverName f of
        Inl e \<Rightarrow> Inl e
      | Inr recv \<Rightarrow>
          collect_decls ds (if recv = ''Runner'' then mset_key (fn_name f) f funcs else funcs))"

definition collect_funcs :: "go_file list \<Rightarrow> gerr + (string, func_decl) gomap" where
  "collect_funcs files = collect_decls (concat files) []"

section \<open>Declarations\<close>

record env_arg =
  ar_name :: string
  ar_type :: string

record env_decl =
  dl_name :: string
  dl_doc :: string
  dl_args :: "env_arg list"
  dl_return :: "env_arg list"

definition paramType :: "go_field \<Rightarrow> gerr + string" where
  "paramType p =
     (case fd_type p of
        Ident n \<Rightarrow> Inr n
      | StarExpr x \<Rightarrow> map_sum id (\<lambda>n. ''*'' @ n) (ident_name x)
      | _ \<Rightarrow> Inr '''')"

fun gen_args :: "go_field list \<Rightarrow> gerr + env_arg list" where
  "gen_args [] = Inr []"
| "gen_args (p # ps) =
     (case paramType p of
        Inl e \<Rightarrow> Inl e
      | Inr typ \<Rightarrow>
          (case gen_args ps of
             Inl e \<Rightarrow> Inl e
           | Inr as \<Rightarrow>
               Inr (if typ = '''' then as else map (\<lambda>n. \<lparr>ar_name = n, ar_type = typ\<rparr>) (fd_names p) @ as)))"

text \<open>A result field is one entry, whatever its names.\<close>

fun gen_results :: "go_field list \<Rightarrow> gerr + env_arg list" where
  "gen_results [] = Inr []"
| "gen_results (p # ps) =
     (case paramType p of
        Inl e \<Rightarrow> Inl e
      | Inr typ \<Rightarrow>
          (case gen_results ps of
             Inl e \<Rightarrow> Inl e
           | Inr as \<Rightarrow> Inr (if typ = '''' then as else \<lparr>ar_name = '''', ar_type = typ\<rparr> # as)))"

definition genDecl :: "string \<Rightarrow> func_decl option \<Rightarrow> gerr + env_decl" where
  "genDecl name target =
     (case target of
        None \<Rightarrow> Inl nil_panic
      | Some f \<Rightarrow>
          (case gen_args (fn_params f) of
             Inl e \<Rightarrow> Inl e
           | Inr args \<Rightarrow>
               (case (case fn_results f of None \<Rightarrow> Inr [] | Some rs \<Rightarrow> gen_results rs) of
                  Inl e \<Rightarrow> Inl e
                | Inr rets \<Rightarrow>
                    Inr \<lparr>dl_name = name, dl_doc = trim_space (fn_doc f), dl_args = args, dl_return = rets\<rparr>)))"

section \<open>The table of host functions\<close>

text \<open>An entry of the map that \<open>env\<close> returns; a key that cannot be unquoted is the empty string.\<close>

definition env_entry :: "(string \<Rightarrow> string option) \<Rightarrow> go_expr \<Rightarrow> gerr + string \<times> string" where
  "env_entry unquote el =
     (case el of
        KeyValueExpr (BasicLit k) (SelectorExpr x target) \<Rightarrow>
          Inr (case unquote k of None \<Rightarrow> '''' | Some s \<Rightarrow> s, target)
      | _ \<Rightarrow> Inl conversion_panic)"

fun gen_decls ::
    "(string \<Rightarrow> string option) \<Rightarrow> (string, func_decl) gomap \<Rightarrow> go_expr list \<Rightarrow> gerr + env_decl list" where
  "gen_decls unquote funcs [] = Inr []"
| "gen_decls unquote funcs (el # els) =
     (case env_entry unquote el of
        Inl e \<Rightarrow> Inl e
      | Inr (key, target) \<Rightarrow>
          (case genDecl key (mget funcs target) of
             Inl e \<Rightarrow> Inl e
           | Inr d \<Rightarrow> (case gen_decls unquote funcs els of Inl e \<Rightarrow> Inl e | Inr ds \<Rightarrow> Inr (d # ds))))"

text \<open>\<open>parseEnv\<close>: the test for a nil statement comes after the index.\<close>

definition parseEnv ::
    "(string \<Rightarrow> string option) \<Rightarrow> (string, func_decl) gomap \<Rightarrow> func_decl \<Rightarrow> gerr + env_decl list" where
  "parseEnv unquote funcs f =
     (case fn_body f of
        None \<Rightarrow> Inl nil_panic
      | Some [] \<Rightarrow> Inl index_panic
      | Some (ReturnStmt [] # ss) \<Rightarrow> Inl index_panic
      | Some (ReturnStmt (CompositeLit els # rs) # ss) \<Rightarrow> gen_decls unquote funcs els
      | Some (s # ss) \<Rightarrow> Inl conversion_panic)"

text \<open>\<open>main\<close>: the packages of the directory, and the value that is encoded.\<close>

definition gen_env_main ::
    "(string \<Rightarrow> string option) \<Rightarrow> gerr + (string, go_file list) gomap \<Rightarrow> gerr + env_decl list" where
  "gen_env_main unquote parsed =
     (case parsed of
        Inl e \<Rightarrow> Inl (EPanic ''parse'')
      | Inr pkgs \<Rightarrow>
          (case mget pkgs ''waruntime'' of
             None \<Rightarrow> Inl (EPanic ''package not found'')
           | Some files \<Rightarrow>
               (case collect_funcs files of
                  Inl e \<Rightarrow> Inl e
                | Inr funcs \<Rightarrow>
                    (case mget funcs ''env'' of
                       None \<Rightarrow> Inl (EPanic ''env not found'')
                     | Some env \<Rightarrow> parseEnv unquote funcs env))))"

text \<open>The JSON that is printed; the name of an argument is left out when it is empty.\<close>

definition arg_json :: "env_arg \<Rightarrow> json" where
  "arg_json a = JObj ((if ar_name a = '''' then [] else [(''name'', JStr (ar_name a))]) @ [(''type'', JStr (ar_type a))])"

definition decl_json :: "env_decl \<Rightarrow> json" where
  "decl_json d = JObj [(''name'', JStr (dl_name d)), (''doc'', JStr (dl_doc d)),
     (''args'', JArr (map arg_json (dl_args d))), (''return'', JArr (map arg_json (dl_return d)))]"

definition env_json :: "env_decl list \<Rightarrow> json" where
  "env_json ds = JArr (map decl_json ds)"

section \<open>The interface is complete\<close>

definition runner_methods :: "go_file list \<Rightarrow> func_decl list" where
  "runner_methods files =
     List.map_filter (\<lambda>d. case d of FuncDecl f \<Rightarrow> if receiverName f = Inr ''Runner'' then Some f else None | OtherDecl \<Rightarrow> None)
       (concat files)"

lemma runner_methods_simps:
  "f \<in> set (runner_methods files) \<longleftrightarrow> FuncDecl f \<in> set (concat files) \<and> receiverName f = Inr ''Runner''"
  by (force simp: runner_methods_def map_filter_def split: go_decl.splits if_splits)

lemma find_distinct: "distinct (map h fs) \<Longrightarrow> List.find (\<lambda>f. h f = n) fs = Some f \<longleftrightarrow> f \<in> set fs \<and> h f = n"
proof (induction fs)
  case (Cons g fs)
  then show ?case by (cases "h g = n") (auto simp: image_iff)
qed simp

lemma mset_map_filter_perm: "mset xs = mset ys \<Longrightarrow> mset (List.map_filter h xs) = mset (List.map_filter h ys)"
  by (simp add: map_filter_def)

lemma mset_concat_perm: "mset xs = mset ys \<Longrightarrow> mset (concat xs) = mset (concat ys)"
  by (metis mset_concat mset_map sum_mset_sum_list)

lemma collect_decls_funcs:
  assumes "collect_decls ds m = Inr funcs"
    and "distinct (map fn_name (runner_methods [ds]))"
  shows "mget funcs n =
    (case List.find (\<lambda>f. fn_name f = n) (runner_methods [ds]) of None \<Rightarrow> mget m n | Some f \<Rightarrow> Some f)"
  using assms
proof (induction ds m rule: collect_decls.induct)
  case (3 f ds m)
  obtain recv where recv: "receiverName f = Inr recv" using 3(2) by (auto split: sum.splits)
  show ?case
  proof (cases "recv = ''Runner''")
    case True
    have cons: "runner_methods [FuncDecl f # ds] = f # runner_methods [ds]"
      using recv True by (simp add: runner_methods_def map_filter_simps)
    have rest: "collect_decls ds (mset_key (fn_name f) f m) = Inr funcs" "distinct (map fn_name (runner_methods [ds]))"
      using 3(2,3) recv True cons by simp_all
    have fresh: "List.find (\<lambda>g. fn_name g = fn_name f) (runner_methods [ds]) = None"
      using 3(3) cons by (simp add: find_None_iff) (metis image_eqI)
    from 3(1)[OF recv, of ] rest True fresh show ?thesis
      by (auto simp: cons mget_update split: option.splits)
  next
    case False
    have "runner_methods [FuncDecl f # ds] = runner_methods [ds]"
      using recv False by (simp add: runner_methods_def map_filter_simps)
    with 3 recv False show ?thesis by simp
  qed
qed (simp_all add: runner_methods_def map_filter_simps)

text \<open>The map has the methods of \<open>Runner\<close>, in whatever order the files are visited.\<close>

lemma collected:
  assumes "collect_funcs files = Inr funcs" "distinct (map fn_name (runner_methods files))"
  shows "mget funcs n = Some f \<longleftrightarrow> f \<in> set (runner_methods files) \<and> fn_name f = n"
proof -
  have same: "runner_methods [concat files] = runner_methods files" by (simp add: runner_methods_def)
  have "mget funcs n = List.find (\<lambda>f. fn_name f = n) (runner_methods files)"
    using collect_decls_funcs[of "concat files" "[]" funcs n] assms unfolding collect_funcs_def same
    by (simp split: option.splits)
  with find_distinct[OF assms(2)] show ?thesis by simp
qed

lemma collect_decls_defined:
  "(\<exists>funcs. collect_decls ds m = Inr funcs) \<longleftrightarrow> (\<forall>f. FuncDecl f \<in> set ds \<longrightarrow> (\<exists>recv. receiverName f = Inr recv))"
  by (induction ds m rule: collect_decls.induct) (auto split: sum.splits)

lemma collected_any_order:
  assumes "collect_funcs files = Inr funcs" "distinct (map fn_name (runner_methods files))" "mset files' = mset files"
  obtains funcs' where "collect_funcs files' = Inr funcs'" "mget funcs' = mget funcs"
proof -
  have set: "set files' = set files" using assms(3) by (rule mset_eq_setD)
  have "\<forall>f. FuncDecl f \<in> set (concat files) \<longrightarrow> (\<exists>recv. receiverName f = Inr recv)"
    using assms(1) collect_decls_defined unfolding collect_funcs_def by blast
  then obtain funcs' where funcs': "collect_funcs files' = Inr funcs'"
    using collect_decls_defined[of "concat files'" "[]"] set unfolding collect_funcs_def by auto
  have "mset (runner_methods files') = mset (runner_methods files)"
    unfolding runner_methods_def by (intro mset_map_filter_perm mset_concat_perm assms(3))
  then have "mset (map fn_name (runner_methods files')) = mset (map fn_name (runner_methods files))" by simp
  then have "distinct (map fn_name (runner_methods files'))" using assms(2) by (metis mset_eq_imp_distinct_iff)
  note there = collected[OF funcs' this] and here = collected[OF assms(1,2)]
  have "f \<in> set (runner_methods files') \<longleftrightarrow> f \<in> set (runner_methods files)" for f
    using set by (simp add: runner_methods_simps)
  then have same: "mget funcs' n = Some f \<longleftrightarrow> mget funcs n = Some f" for n f
    by (simp add: there here)
  have "mget funcs' n = mget funcs n" for n
    by (metis option.exhaust same)
  with that[OF funcs'] show ?thesis by blast
qed

definition has_simple_type :: "go_field \<Rightarrow> bool" where
  "has_simple_type p \<longleftrightarrow> (case fd_type p of Ident n \<Rightarrow> n \<noteq> '''' | StarExpr x \<Rightarrow> True | _ \<Rightarrow> False)"

lemma gen_args_names: "gen_args ps = Inr as \<Longrightarrow> map ar_name as = concat (map fd_names (filter has_simple_type ps))"
  by (induction ps arbitrary: as)
    (auto simp: paramType_def has_simple_type_def ident_name_def comp_def split: sum.splits go_expr.splits if_splits)

definition entry_done :: "(string \<Rightarrow> string option) \<Rightarrow> (string \<Rightarrow> func_decl option) \<Rightarrow> go_expr \<Rightarrow> env_decl \<Rightarrow> bool" where
  "entry_done unquote funcs el d \<longleftrightarrow>
     (\<exists>target f. env_entry unquote el = Inr (dl_name d, target) \<and> funcs target = Some f \<and>
        map ar_name (dl_args d) = concat (map fd_names (filter has_simple_type (fn_params f))))"

lemma gen_decls_done: "gen_decls unquote funcs els = Inr ds \<Longrightarrow> list_all2 (entry_done unquote (mget funcs)) els ds"
  by (induction els arbitrary: ds)
    (auto simp: entry_done_def genDecl_def gen_args_names split: sum.splits option.splits)

lemma gen_decls_same: "mget funcs' = mget funcs \<Longrightarrow> gen_decls unquote funcs' els = gen_decls unquote funcs els"
  by (induction els) (simp_all cong: sum.case_cong prod.case_cong)

lemma parseEnv_same: "mget funcs' = mget funcs \<Longrightarrow> parseEnv unquote funcs' f = parseEnv unquote funcs f"
proof -
  assume "mget funcs' = mget funcs"
  from gen_decls_same[OF this] have "gen_decls unquote funcs' = gen_decls unquote funcs" by (rule ext)
  then show ?thesis unfolding parseEnv_def by (simp only:)
qed

lemma parseEnv_body:
  assumes "parseEnv unquote funcs f = Inr ds"
  obtains els rs ss where "fn_body f = Some (ReturnStmt (CompositeLit els # rs) # ss)" "gen_decls unquote funcs els = Inr ds"
proof -
  obtain st ss where st: "fn_body f = Some (st # ss)"
    using assms by (simp add: parseEnv_def split: option.splits list.splits)
  obtain r rs where r: "st = ReturnStmt (r # rs)"
    using assms st by (cases st) (simp_all add: parseEnv_def split: list.splits)
  show thesis using assms st r that by (cases r) (simp_all add: parseEnv_def)
qed


section \<open>Witness\<close>

definition ex_method :: "string \<Rightarrow> go_field list \<Rightarrow> go_stmt list \<Rightarrow> go_decl" where
  "ex_method name ps body = FuncDecl \<lparr>fn_recv = Some [\<lparr>fd_names = [''r''], fd_type = StarExpr (Ident ''Runner'')\<rparr>],
     fn_name = name, fn_doc = '''', fn_params = ps, fn_results = None, fn_body = Some body\<rparr>"

text \<open>The method \<open>addEnv\<close> with its table, in two files.\<close>

definition ex_package :: "go_file list" where
  "ex_package =
     [[OtherDecl, ex_method ''env'' [] [ReturnStmt [CompositeLit [KeyValueExpr (BasicLit ''AddEnv'') (SelectorExpr (Ident ''r'') ''addEnv'')]]]],
      [ex_method ''addEnv'' [\<lparr>fd_names = [''ctx''], fd_type = SelectorExpr (Ident ''context'') ''Context''\<rparr>,
         \<lparr>fd_names = [''m''], fd_type = SelectorExpr (Ident ''api'') ''Module''\<rparr>,
         \<lparr>fd_names = [''ptr'', ''size''], fd_type = Ident ''uint32''\<rparr>] []]]"

lemma ex_package_main: "gen_env_main Some (Inr [(''waruntime'', ex_package)]) =
    Inr [\<lparr>dl_name = ''AddEnv'', dl_doc = '''', dl_args = [\<lparr>ar_name = ''ptr'', ar_type = ''uint32''\<rparr>,
      \<lparr>ar_name = ''size'', ar_type = ''uint32''\<rparr>], dl_return = []\<rparr>]"
  by code_simp


end
