(* ===== verification/System.thy ===== *)
theory System
  imports Reconciler_Facts
begin

text \<open>
  The registry, the concurrent run, the changeset and the application reconciler put together: which
  extensions have a say for an object, and how what one of them asks for arrives in the cluster.
\<close>

section \<open>Extensions that behave the same\<close>

text \<open>Two behaviours that cannot be told apart by calling \<open>x\<close>.\<close>

definition same_answers :: "behaviour \<Rightarrow> behaviour \<Rightarrow> managed \<Rightarrow> bool" where
  "same_answers bh bh' x \<longleftrightarrow>
     bh_sync bh x = bh_sync bh' x \<and> bh_validate bh x = bh_validate bh' x \<and>
     bh_default bh x = bh_default bh' x \<and> bh_delete bh x = bh_delete bh' x"

lemma begin_ext_same: "same_answers bh bh' x \<Longrightarrow> begin_ext bh ob v x = begin_ext bh' ob v x"
  by (simp add: begin_ext_def same_answers_def cong: sum.case_cong bool.case_cong if_cong)

lemma run_delete_same:
  "same_answers bh bh' x \<Longrightarrow> run_delete bh runf arg v x = run_delete bh' runf arg v x"
  by (simp add: run_delete_def same_answers_def cong: sum.case_cong bool.case_cong if_cong)

lemma defaulter_same: "same_answers bh bh' x \<Longrightarrow> defaulter bh arg v x = defaulter bh' arg v x"
  by (simp add: defaulter_def same_answers_def cong: sum.case_cong bool.case_cong if_cong)

lemma validate_one_same:
  "same_answers bh bh' x \<Longrightarrow>
   validate_one bh typ newO oldO newV oldV x = validate_one bh' typ newO oldO newV oldV x"
  by (simp add: validate_one_def same_answers_def cong: sum.case_cong bool.case_cong if_cong)

lemma map_same:
  "(\<And>x. same_answers bh bh' x \<Longrightarrow> f x = g x) \<Longrightarrow> \<forall>x \<in> set xs. same_answers bh bh' x \<Longrightarrow> map f xs = map g xs"
  by simp

lemma ctl_delete_same:
  "\<forall>x \<in> set exts. same_answers bh bh' x \<Longrightarrow> ctl_delete bh runf ob exts = ctl_delete bh' runf ob exts"
  by (simp add: ctl_delete_def map_same[OF run_delete_same] cong: sum.case_cong)

lemma controller_default_same:
  assumes "\<forall>x \<in> set exts. same_answers bh bh' x"
  shows "controller_default bh ob exts = controller_default bh' ob exts"
proof -
  have "map (defaulter bh arg v) (filter P exts) = map (defaulter bh' arg v) (filter P exts)" for arg v P
    using assms by (intro map_same[OF defaulter_same]) auto
  then show ?thesis by (simp only: controller_default_def)
qed

lemma controller_validate_same:
  assumes "\<forall>kind. \<forall>x \<in> set (exts kind). same_answers bh bh' x"
  shows "controller_validate bh typ newO oldO exts = controller_validate bh' typ newO oldO exts"
proof -
  have "map (validate_one bh typ newO oldO newV oldV) (filter P (exts kind)) =
      map (validate_one bh' typ newO oldO newV oldV) (filter P (exts kind))" for newV oldV P kind
    using assms by (intro map_same[OF validate_one_same]) auto
  then show ?thesis by (simp only: controller_validate_def)
qed

text \<open>A run only begins extensions it was started with.\<close>

lemma run_reach_begins:
  assumes "run_reach conv mmp bh ob v exts s" "i < length (rs_gors s)" "rs_gors s ! i = GStart x"
  shows "x \<in> set exts"
proof -
  have "gor_ok (exts ! i) (stream_of bh ob v (exts ! i)) (consumed s i) (GStart x)" "i < length exts"
    using run_reach_log[OF assms(1)] assms(2,3) by (auto simp: log_inv_def)
  then show ?thesis by auto
qed

lemma run_step_same:
  assumes "run_step conv mmp bh ob v s s'"
    and "\<And>i x. i < length (rs_gors s) \<Longrightarrow> rs_gors s ! i = GStart x \<Longrightarrow> same_answers bh bh' x"
  shows "run_step conv mmp bh' ob v s s'"
  using assms(1)
proof cases
  case (begin_run i x rn g)
  then have "begin_ext bh' ob v x = (rn, g)" using begin_ext_same[OF assms(2)[OF begin_run(2,3)]] by simp
  with begin_run show ?thesis by (blast intro: run_step.begin_run)
qed (blast intro: run_step.intros)+

lemma run_reach_same:
  assumes "run_reach conv mmp bh ob v exts s" "\<forall>x \<in> set exts. same_answers bh bh' x"
  shows "run_reach conv mmp bh' ob v exts s"
  using assms
proof (induction rule: run_reach.induct)
  case (step s s')
  have "run_step conv mmp bh' ob v s s'"
    using run_step_same[OF step.hyps(2)] run_reach_begins[OF step.hyps(1)] step.prems by blast
  with step show ?case by (blast intro: run_reach.step)
qed (rule run_reach.start)

lemma sync_result_same1:
  assumes "sync_result conv mmp bh ob exts e r" "\<forall>x \<in> set exts. same_answers bh bh' x"
  shows "sync_result conv mmp bh' ob exts e r"
  using assms(1) by cases (use assms(2) run_reach_same in \<open>blast intro: sync_result.intros\<close>)+

lemma same_answers_sym: "same_answers bh bh' x \<Longrightarrow> same_answers bh' bh x"
  by (simp add: same_answers_def)

lemma sync_result_same:
  "\<forall>x \<in> set exts. same_answers bh bh' x \<Longrightarrow>
   sync_result conv mmp bh ob exts e r \<longleftrightarrow> sync_result conv mmp bh' ob exts e r"
  using sync_result_same1 same_answers_sym by blast

text \<open>The extensions a manager has for a kind after a removal, in any order.\<close>

lemma removed_is_not_called:
  assumes "manager_ok m" "manager_remove mv ext m = (None, m')"
    and "mset exts = mset (extensions_for m' kind)" "x \<in> set exts"
  shows "mg_name x \<noteq> ex_name ext"
proof -
  have "x \<in> set (extensions_for m' kind)" using assms(3,4) mset_eq_setD by blast
  with mgr.remove_gone[OF assms(1), of mv ext] assms(2) show ?thesis by simp
qed

section \<open>From a label to the cluster\<close>

lemma map_of_agreed:
  "(k, v) \<in> set xs \<Longrightarrow> (\<And>v'. (k, v') \<in> set xs \<Longrightarrow> v' = v) \<Longrightarrow> map_of xs k = Some v"
  by (metis map_of_SomeD option.exhaust weak_map_of_SomeI option.distinct(1))

lemma labels_of_set: "(n, v) \<in> set (labels_of rs) \<longleftrightarrow> RLabel \<lparr>kv_name = n, kv_value = v\<rparr> \<in> set rs"
proof -
  have kv: "\<lparr>kv_name = n, kv_value = v\<rparr> = kv \<longleftrightarrow> n = kv_name kv \<and> v = kv_value kv" for kv
    by (cases kv) simp
  show ?thesis by (induction rs) (auto simp: labels_of_def map_filter_simps kv split: response.splits)
qed

text \<open>\<open>x\<close>, called for \<open>ob\<close> with the spec \<open>v\<close>, asks for the label \<open>key = val\<close>.\<close>

definition asks_label ::
    "behaviour \<Rightarrow> ctl_object \<Rightarrow> (string, json) gomap option \<Rightarrow> managed \<Rightarrow> string \<Rightarrow> string \<Rightarrow> bool" where
  "asks_label bh ob v x key val \<longleftrightarrow>
     RLabel \<lparr>kv_name = key, kv_value = val\<rparr> \<in> set (stream_of bh ob v x)"

lemma asks_label_begins: "asks_label bh ob v x key val \<Longrightarrow> fst (begin_ext bh ob v x)"
  by (auto simp: asks_label_def stream_of_def begin_ext_def fail_with_def
      split: sum.splits bool.splits prod.splits gor.splits if_splits)

lemma sync_label:
  assumes run: "sync_result conv mmp bh ob exts None (Some (cs, names))"
    and v: "unmarshal_map (co_spec ob) = Inr v"
    and no_patch: "\<forall>x \<in> set exts. \<forall>p. RMergePatch p \<notin> set (stream_of bh ob v x)"
    and x: "x \<in> set exts" "asks_label bh ob v x key val"
    and agreed: "\<forall>y \<in> set exts. \<forall>val'. asks_label bh ob v y key val' \<longrightarrow> val' = val"
  shows "mg_name x \<in> set names" "mget (cg_labels cs) key = Some val" "cg_mergePatch cs = RawNil"
    "gomap_ok (cg_labels cs)" "gomap_ok (cg_annotations cs)"
proof -
  from run obtain log where
    log: "changeset_add_all conv mmp (map snd log) empty_changeset = (None, cs)"
    and idx: "\<forall>p \<in> set log. fst p < length exts"
    and per: "\<forall>i < length exts. map snd (filter (\<lambda>p. fst p = i) log) = stream_of bh ob v (exts ! i)"
    and names: "set names = mg_name ` {x \<in> set exts. fst (begin_ext bh ob v x)}"
    using v by (auto elim: sync_as_merge)
  note all = merged_set[OF idx per]
  show "mg_name x \<in> set names" using names x asks_label_begins by blast
  have asked: "(key, val') \<in> set (rev (labels_of (map snd log))) \<longleftrightarrow>
      (\<exists>y \<in> set exts. asks_label bh ob v y key val')" for val'
    unfolding set_rev labels_of_set all asks_label_def by simp
  have "map_of (rev (labels_of (map snd log))) key = Some val"
    using asked x agreed by (intro map_of_agreed) blast+
  then show "mget (cg_labels cs) key = Some val"
    using add_all_collects[OF log] by (simp add: empty_changeset_def)
  have "\<forall>r \<in> set (map snd log). \<forall>p. r \<noteq> RMergePatch p" unfolding all using no_patch by blast
  from no_patch_add_all[OF log this] show "cg_mergePatch cs = RawNil" by (simp add: empty_changeset_def)
  show "gomap_ok (cg_labels cs)" "gomap_ok (cg_annotations cs)"
    using changeset_add_all_ok[OF log] by (simp_all add: empty_changeset_def)
qed

text \<open>What the API server documents: what has been written can be read, with the labels it was given.\<close>

definition stores_labels :: "'w kube \<Rightarrow> bool" where
  "stores_labels k \<longleftrightarrow>
     (\<forall>d w w'. k_createDeployment k d w = (None, w') \<or> k_updateDeployment k d w = (None, w') \<longrightarrow>
        (\<exists>d'. fst (k_getDeployment k (object_key (dp_meta d)) w') = Inr d' \<and>
           mget (om_labels (dp_meta d')) = mget (om_labels (dp_meta d))))"

lemma apply_deployment_labels:
  assumes "apply_deployment k outer depl w = (None, w')" "stores_labels k"
  shows "\<exists>d. fst (k_getDeployment k (object_key (dp_meta depl)) w') = Inr d \<and>
    mget (om_labels (dp_meta d)) = mget (om_labels (dp_meta depl))"
proof -
  obtain gen w1 where "k_createDeployment k depl w1 = (None, w') \<or>
      k_updateDeployment k (depl\<lparr>dp_meta := (dp_meta depl)\<lparr>om_generation := gen\<rparr>\<rparr>) w1 = (None, w')"
    using assms(1) by (auto simp: apply_deployment_def Let_def split: prod.splits sum.splits option.splits if_splits)
  then obtain d0 where d0: "k_createDeployment k d0 w1 = (None, w') \<or> k_updateDeployment k d0 w1 = (None, w')"
    and same: "object_key (dp_meta d0) = object_key (dp_meta depl)"
      "om_labels (dp_meta d0) = om_labels (dp_meta depl)"
    using that[of depl] that[of "depl\<lparr>dp_meta := (dp_meta depl)\<lparr>om_generation := gen\<rparr>\<rparr>"]
    by (elim disjE) (simp_all add: object_key_def)
  from assms(2) d0 show ?thesis unfolding stores_labels_def same[symmetric] by blast
qed

lemma create_or_update_labels:
  assumes "app_create_or_update k mp (deployment_ops enc dec) app cs w = (None, w')"
    and "set_owner_law k" "stores_labels k" "cg_mergePatch cs = RawNil"
    and "gomap_ok (cg_labels cs)" "gomap_ok (cg_annotations cs)"
  shows "\<exists>d. fst (k_getDeployment k (object_key (ap_meta app)) w') = Inr d \<and>
    mget (om_labels (dp_meta d)) = mget (cg_labels cs)"
proof -
  obtain spec depl w1 where d: "desired_deployment k mp (deployment_ops enc dec) app spec cs = Inr depl"
    and a: "apply_deployment k None depl w1 = (None, w')"
    using assms(1) by (auto simp: app_create_or_update_def split: sum.splits prod.splits option.splits if_splits)
  from desired_deployment_Inr[OF d assms(2,4-6)]
  have "object_key (dp_meta depl) = object_key (ap_meta app)"
    "mget (om_labels (dp_meta depl)) = mget (cg_labels cs)" by metis+
  with apply_deployment_labels[OF a assms(3)] show ?thesis by simp
qed

section \<open>The whole reconciliation\<close>

text \<open>A status update of an application leaves the deployments alone.\<close>

definition status_apart :: "'w kube \<Rightarrow> 'w app_client \<Rightarrow> bool" where
  "status_apart k ac \<longleftrightarrow>
     (\<forall>key a w. fst (k_getDeployment k key (snd (ac_statusUpdate ac a w))) = fst (k_getDeployment k key w))"

lemma app_update_status_world:
  "reads_pure k \<Longrightarrow> snd (app_update_status k hashf app exts w) = w"
  by (auto simp: app_update_status_def Let_def split: sum.splits prod.splits)
     (metis reads_pure_def snd_conv)+

lemma write_status_deployments:
  assumes "write_status (app_child k hashf mp ops) (app_host ac bh exts sync) app names s = (e, s')"
    and "reads_pure k" "status_apart k ac"
  shows "fst (k_getDeployment k key (snd s')) = fst (k_getDeployment k key (snd s))"
proof -
  obtain u e1 app' where up: "app_update_status k hashf app names (snd s) = ((u, e1, app'), snd s)"
    using app_update_status_world[OF assms(2), of hashf app names "snd s"] by (metis surj_pair snd_conv)
  have "fst (k_getDeployment k key (snd (ac_statusUpdate ac app' (snd s)))) = fst (k_getDeployment k key (snd s))"
    using assms(3) unfolding status_apart_def by blast
  with assms(1) up show ?thesis
    by (cases e1) (auto simp: write_status_def app_child_def app_host_def perform_def split: prod.splits if_splits)
qed

lemma reconcile_applies:
  assumes "reconcile (app_child k hashf mp ops) (app_host ac bh exts sync) okey s = (None, s')"
    and "ac_get ac okey (snd s) = (Inr app, w1)" "\<not> om_deleting (ap_meta app)"
    and "suffiksFinalizer \<in> set (om_finalizers (ap_meta app))"
    and "app_is_modified k hashf app w1 = (Inr True, w2)" "sync app = Inr (cs, names)"
    and "reads_pure k" "status_apart k ac"
  shows "\<exists>w3 w4. app_create_or_update k mp ops app cs w3 = (None, w4) \<and>
    (\<forall>key. fst (k_getDeployment k key (snd s')) = fst (k_getDeployment k key w4))"
proof -
  let ?ch = "app_child k hashf mp ops" and ?h = "app_host ac bh exts sync"
  have h: "hs_get ?h = ac_get ac" "hs_deleting ?h app = om_deleting (ap_meta app)"
    "hs_finalizers ?h app = om_finalizers (ap_meta app)" "ch_isModified ?ch = app_is_modified k hashf"
    "ch_createOrUpdate ?ch = app_create_or_update k mp ops" "hs_sync ?h app w = (sync app, w)" for w
    by (simp_all add: app_host_def app_child_def)
  have "reconcile_modified ?ch ?h app (fst s, w2) = (None, s')"
    using assms(1-5) by (simp add: reconcile_def h)
  then obtain names' s2 s3 where cu: "perform (CApply app cs) (app_create_or_update k mp ops app cs) s2 = (None, s3)"
    and st: "write_status ?ch ?h app names' s3 = (None, s')"
    by (auto simp: reconcile_modified_def call_sync_def h assms(6) split: prod.splits option.splits)
  from cu have "app_create_or_update k mp ops app cs (snd s2) = (None, snd s3)"
    by (auto simp: perform_def split: prod.splits)
  with write_status_deployments[OF st assms(7,8)] show ?thesis by blast
qed

section \<open>A concrete installation\<close>

definition ex_site :: application where
  "ex_site = ex_live\<lparr>ap_spec := (ap_spec ex_live)\<lparr>as_rest := [(''a'', JStr ''x'')]\<rparr>\<rparr>"

abbreviation ex_after_add :: "string ext_manager" where
  "ex_after_add \<equiv> snd (manager_add ex_menv ex_ingress ex_manager)"

abbreviation ex_site_map :: "(string, json) gomap" where
  "ex_site_map \<equiv> app_known_members (ap_spec ex_site) @ [(''a'', JStr ''x'')]"

abbreviation ex_changes :: changeset where
  "ex_changes \<equiv> empty_changeset\<lparr>cg_labels := [(''team'', ''a'')]\<rparr>"

lemma ex_manager_ok: "manager_ok ex_manager"
  by (simp add: manager_ok_def ex_manager_def)

lemma digits_rev_numeral:
  "digits_rev (numeral f) n =
     char_of (48 + n mod 10) # (if n < 10 then [] else digits_rev (pred_numeral f) (n div 10))"
  using digits_rev.simps(2)[of "pred_numeral f" n] unfolding numeral_eq_Suc[symmetric] .

lemma ex_after_add_exts: "extensions_for ex_after_add ''Application'' = [ex_managed]"
proof -
  have init: "grpc_init ex_ingress \<lparr>gc_namespace = ''system'', gc_service = ''ing'', gc_port = 4269\<rparr> = Inr ex_managed"
    by (simp add: grpc_init_def ex_ingress_def ex_extension_def root_keys_def lower_char_def is_upper_letter_def
        ex_managed_def grpc_target_def itoa_def itoa_nat_def join_host_port_def digits_rev_numeral char_of_def bit_0)
  show ?thesis
    unfolding manager_add_def add_target_def ex_ingress_simps add_targets.simps addGRPC_def
    using ex_generator_add[of "es_schema (ex_spec ex_ingress)"] init
    by (auto simp: ex_menv_def ex_manager_def Let_def extensions_for_def ex_managed_def split: prod.splits option.splits)
qed

lemma ex_site_spec: "unmarshal_map (get_spec (Some ex_site)) = Inr (Some ex_site_map)"
proof -
  have "unmarshal_map (get_spec (Some ex_site)) = Inr (Some (app_known_members (ap_spec ex_site) @ as_rest (ap_spec ex_site)))"
    by (rule unmarshal_get_spec) (simp_all add: ex_site_def gomap_ok_def known_keys_def)
  then show ?thesis by (simp add: ex_site_def)
qed

lemma ex_site_begin:
  "begin_ext ex_labelling (app_object ex_site) (Some ex_site_map) ex_managed =
   (True, GReading [RLabel \<lparr>kv_name = ''team'', kv_value = ''a''\<rparr>] RecvEOF)"
  by (simp add: begin_ext_def createOrUpdateRequest_def runs_always_or_spec_def ex_labelling_def
      ex_managed_def raw_nonempty_def marshal_map_def Let_def)

lemma ex_site_sync:
  "sync_result conv mmp ex_labelling (app_object ex_site) [ex_managed] None (Some (ex_changes, [''ingress'']))"
  using sync_result.all_ran[OF _ single_run[OF ex_site_begin], of conv mmp ex_changes] ex_site_spec
  by (simp add: app_object_def run_done_def run_result_def empty_changeset_def ex_managed_def)

lemma ex_site_simps [simp]:
  "ap_meta ex_site = ap_meta ex_live" "ap_kind ex_site = ''Application''" "app_extensions ex_site = []"
  by (simp_all add: ex_site_def ex_live_def ex_web_def app_extensions_def)

lemma cluster_stores_labels [simp]: "stores_labels cluster"
  by (auto simp: stores_labels_def cluster_def mget_update split: if_splits)

lemma cluster_status_apart [simp]: "status_apart cluster (ex_client a)"
  by (simp add: status_apart_def ex_client_def)

lemma ex_site_asks:
  "asks_label ex_labelling (app_object ex_site) (Some ex_site_map) ex_managed key val \<longleftrightarrow>
   key = ''team'' \<and> val = ''a''"
  by (auto simp: asks_label_def stream_of_def ex_site_begin)

lemma ex_site_no_patch: "RMergePatch p \<notin> set (stream_of ex_labelling (app_object ex_site) (Some ex_site_map) ex_managed)"
  by (simp add: stream_of_def ex_site_begin)

lemma ex_site_apply:
  "fst (app_create_or_update cluster (\<lambda>d p. Inl EEOF) no_json ex_site ex_changes ([], [])) = None"
  by (simp add: app_create_or_update_def desired_deployment_def apply_deployment_def well_known_spec_def
      ex_site_def ex_live_def ex_app_simps no_json_def cluster_def changeset_apply_def deployment_ops_def
      empty_changeset_def raw_nonempty_def is_not_found_def not_found_def zero_deployment_def Let_def)

abbreviation ex_site_run where
  "ex_site_run \<equiv> reconcile (app_child cluster ex_hash (\<lambda>d p. Inl EEOF) no_json)
     (app_host (ex_client ex_site) ex_labelling (extensions_for ex_after_add) (\<lambda>_. Inr (ex_changes, [''ingress''])))
     (''ns'', ''web'') ([], ([], []))"

lemma ex_site_run_ok: "ex_site_run = (None, snd ex_site_run)"
proof -
  obtain w1 where cu: "app_create_or_update cluster (\<lambda>d p. Inl EEOF) no_json ex_site ex_changes ([], []) = (None, w1)"
    using ex_site_apply by (metis prod.collapse)
  obtain u a' w2 where up: "app_update_status cluster ex_hash ex_site [''ingress''] w1 = ((u, None, a'), w2)"
    by (rule ex_update_status)
  have "\<not> om_deleting (ap_meta ex_live)" "suffiksFinalizer \<in> set (om_finalizers (ap_meta ex_live))"
    by (simp_all add: ex_live_def ex_web_def zero_meta_def)
  with cu up show ?thesis
    by (cases u) (simp_all add: reconcile_def reconcile_modified_def call_sync_def perform_def write_status_def
        app_child_def app_host_def ex_client_def ex_live_modified)
qed

lemma ex_site_client:
  "ac_get (ex_client ex_site) (''ns'', ''web'') ([], []) = (Inr ex_site, ([], []))"
  "\<not> om_deleting (ap_meta ex_site)" "suffiksFinalizer \<in> set (om_finalizers (ap_meta ex_site))"
  "object_key (ap_meta ex_site) = (''ns'', ''web'')"
  by (simp_all add: ex_client_def ex_live_def ex_web_def zero_meta_def object_key_def)

text \<open>Two extensions, one of which goes, and a behaviour of it that fails.\<close>

definition ex_two :: "string ext_manager" where
  "ex_two = ex_applied\<lparr>em_extensions := [(''ingress'', ex_managed), (''database'', ex_database)]\<rparr>"

lemma ex_two_ok: "manager_ok ex_two"
  by (simp add: manager_ok_def ex_two_def ex_managed_def ex_database_def gomap_ok_def)

lemma ex_removed: "manager_remove ex_menv ex_ingress ex_two = (None, snd (manager_remove ex_menv ex_ingress ex_two))"
  by (simp add: manager_remove_def ex_two_def ex_applied_def ex_menv_def generator_remove_def ex_generator_def Let_def
      split: prod.splits)

lemma ex_remaining: "extensions_for (snd (manager_remove ex_menv ex_ingress ex_two)) ''Application'' = [ex_database]"
  by (simp add: manager_remove_def ex_two_def ex_applied_def ex_menv_def generator_remove_def ex_generator_def Let_def
      extensions_for_def ex_database_def ex_managed_def split: prod.splits)

definition ex_moody :: behaviour where
  "ex_moody = ex_labelling\<lparr>bh_sync := \<lambda>x r. if mg_name x = ''ingress'' then Inl EEOF else bh_sync ex_labelling x r\<rparr>"

lemma ex_moody_same: "\<forall>x. mg_name x \<noteq> ex_name ex_ingress \<longrightarrow> same_answers ex_labelling ex_moody x"
  by (simp add: same_answers_def ex_moody_def fun_eq_iff)

end
