(* ===== verification/Specgen_History.thy ===== *)
theory Specgen_History
  imports Specgen_Facts "HOL-Library.Sublist"
begin

text \<open>
  The generator over its whole life: extensions come, change and go in any order, and some of the
  calls fail. What stays in the schema throughout is stated with paths of property names.
\<close>

section \<open>What an extension defines\<close>

text \<open>
  The definitions of an extension are its properties that are no objects; only these are taken out
  again by \<open>remove\<close>, apart from objects left empty.
\<close>

function leaves :: "(string \<times> schema) list option \<Rightarrow> (string list \<times> schema) list" where
  "leaves None = []"
| "leaves (Some []) = []"
| "leaves (Some ((name, val) # ps)) =
     (if s_type val = ''object'' then map (\<lambda>(p, w). (name # p, w)) (leaves (s_props val))
      else [([name], val)]) @ leaves (Some ps)"
  by pat_completeness auto
termination
  by (relation "measure props_size") auto

text \<open>The same node, up to the properties below it.\<close>

definition same_node :: "schema \<Rightarrow> schema \<Rightarrow> bool" where
  "same_node t t' \<longleftrightarrow> s_type t' = s_type t \<and> s_rest t' = s_rest t"

lemma same_node_refl [simp]: "same_node t t"
  and same_node_trans: "same_node t u \<Longrightarrow> same_node u w \<Longrightarrow> same_node t w"
  and same_node_set_prop [simp]: "same_node t (set_prop n v t)"
  by (simp_all add: same_node_def)

definition has_node :: "schema \<Rightarrow> string list \<Rightarrow> schema \<Rightarrow> bool" where
  "has_node s p t \<longleftrightarrow> (\<exists>t'. at s p = Some t' \<and> same_node t t')"

lemma grows_has_node: "grows s s' \<longleftrightarrow> (\<forall>p t. at s p = Some t \<longrightarrow> has_node s' p t)"
  by (simp add: grows_def has_node_def same_node_def)

lemma has_node_grows: "has_node s p t \<Longrightarrow> grows s s' \<Longrightarrow> has_node s' p t"
  unfolding grows_has_node has_node_def by (metis same_node_trans)

lemma at_append: "at s (p @ q) = (case at s p of None \<Rightarrow> None | Some t \<Rightarrow> at t q)"
  by (induction p arbitrary: s) (auto split: option.splits)

lemma at_prefix: "at s p \<noteq> None \<Longrightarrow> prefix q p \<Longrightarrow> at s q \<noteq> None"
  by (auto simp: at_append elim!: prefixE split: option.splits)

text \<open>A successful merge found none of its definitions in the schema, and leaves all of them there.\<close>

lemma gen_add_was_free:
  "gen_add s ps = (None, s') \<Longrightarrow> (p, w) \<in> set (leaves ps) \<Longrightarrow> at s p = None"
proof (induction s ps arbitrary: s' p rule: gen_add.induct)
  case (3 s name val ps)
  have later: "at s p = None" if "at s1 p = None" "grows s s1" for s1
    using that unfolding grows_def by (metis not_None_eq)
  show ?case
  proof (cases "mget (props_of s) name")
    case None
    then have run: "gen_add (set_prop name val s) (Some ps) = (None, s')" using "3.prems" by simp
    show ?thesis
    proof (cases "(p, w) \<in> set (leaves (Some ps))")
      case True
      with later "3.IH"(1)[OF None run] grows_set_prop_new[OF None] show ?thesis by blast
    next
      case False
      with "3.prems"(2) have "\<exists>q. p = name # q" by (auto split: if_splits)
      with None show ?thesis by auto
    qed
  next
    case (Some inner)
    then obtain inner' where obj: "s_type val = ''object''" and r: "gen_add inner (s_props val) = (None, inner')"
      and run: "gen_add (set_prop name inner' s) (Some ps) = (None, s')"
      using "3.prems"(1) by (auto split: if_splits prod.splits option.splits)
    show ?thesis
    proof (cases "(p, w) \<in> set (leaves (Some ps))")
      case True
      have "grows inner inner'" using gen_add_grows[of inner "s_props val"] r by simp
      with later "3.IH"(3)[OF Some obj r[symmetric] refl run] True grows_set_prop_inner[OF Some] show ?thesis by blast
    next
      case False
      with "3.prems"(2) obj obtain q where "p = name # q" "(q, w) \<in> set (leaves (s_props val))" by auto
      with Some "3.IH"(2)[OF Some obj r] show ?thesis by simp
    qed
  qed
qed simp_all

lemma leaf_below:
  "s_type val = ''object'' \<Longrightarrow> (q, w) \<in> set (leaves (s_props val)) \<Longrightarrow>
   (name # q, w) \<in> set (leaves (Some ((name, val) # ps)))"
  by force

lemma leaves_name: "(p, w) \<in> set (leaves (Some l)) \<Longrightarrow> \<exists>n q. p = n # q \<and> n \<in> mkeys l"
  by (induction l) (auto split: if_splits)

lemma at_leaf:
  "wf_props ps \<Longrightarrow> s_props s = ps \<Longrightarrow> (p, w) \<in> set (leaves ps) \<Longrightarrow> at s p = Some w"
proof (induction ps arbitrary: s p rule: leaves.induct)
  case (3 name val ps)
  then have wf: "name \<notin> mkeys ps" "wf_props (s_props val)" "wf_props (Some ps)"
    by (simp_all add: wf_props_Cons)
  show ?case
  proof (cases "(p, w) \<in> set (leaves (Some ps))")
    case True
    then obtain n q where p: "p = n # q" "n \<in> mkeys ps" using leaves_name by blast
    let ?t = "Schema (s_type s) (Some ps) (s_rest s)"
    have "at ?t p = Some w" using "3.IH"(2)[OF wf(3), of ?t] True by simp
    moreover have "n \<noteq> name" using p(2) wf(1) by blast
    ultimately show ?thesis using "3.prems"(2) p(1) by auto
  next
    case False
    with "3.prems"(2,3) "3.IH"(1)[OF _ wf(2) refl] show ?thesis
      by (auto split: if_splits)
  qed
qed simp_all

lemma gen_add_now_there:
  "gen_add s ps = (None, s') \<Longrightarrow> wf_props ps \<Longrightarrow> (p, w) \<in> set (leaves ps) \<Longrightarrow> has_node s' p w"
proof (induction s ps arbitrary: s' p rule: gen_add.induct)
  case (3 s name val ps)
  then have wf: "wf_props (s_props val)" "wf_props (Some ps)" by (simp_all add: wf_props_Cons)
  have first: "has_node s' p w" if "gen_add s1 (Some ps) = (None, s')" "has_node s1 p w" for s1
    using that has_node_grows gen_add_grows[of s1 "Some ps"] by simp
  show ?case
  proof (cases "mget (props_of s) name")
    case None
    then have run: "gen_add (set_prop name val s) (Some ps) = (None, s')" using "3.prems" by simp
    show ?thesis
    proof (cases "(p, w) \<in> set (leaves (Some ps))")
      case True
      with "3.IH"(1)[OF None run wf(2)] show ?thesis by blast
    next
      case False
      with "3.prems"(3) at_leaf[OF wf(1) refl] have "at (set_prop name val s) p = Some w"
        by (auto simp: mget_update split: if_splits)
      then show ?thesis by (intro first[OF run]) (simp add: has_node_def)
    qed
  next
    case (Some inner)
    then obtain inner' where obj: "s_type val = ''object''" and r: "gen_add inner (s_props val) = (None, inner')"
      and run: "gen_add (set_prop name inner' s) (Some ps) = (None, s')"
      using "3.prems"(1) by (auto split: if_splits prod.splits option.splits)
    show ?thesis
    proof (cases "(p, w) \<in> set (leaves (Some ps))")
      case True
      with "3.IH"(3)[OF Some obj r[symmetric] refl run wf(2)] show ?thesis by blast
    next
      case False
      with "3.prems"(3) obj obtain q where "p = name # q" "(q, w) \<in> set (leaves (s_props val))" by auto
      with "3.IH"(2)[OF Some obj r wf(1)] have "has_node (set_prop name inner' s) p w"
        by (simp add: has_node_def mget_update)
      with run show ?thesis by (rule first)
    qed
  qed
qed simp_all

section \<open>What a removal leaves alone\<close>

lemma at_one: "at s [n] = mget (props_of s) n"
  by (simp split: option.splits)

lemma at_two: "at s [n, m] \<noteq> None \<longleftrightarrow> (\<exists>t. mget (props_of s) n = Some t \<and> mget (props_of t) m \<noteq> None)"
  by (auto split: option.splits)

lemma gen_remove_root:
  "gen_remove True s (Some ps) = drop_empty_objects (gen_remove False s (Some ps))"
  by (induction ps arbitrary: s) (auto split: option.splits)

lemma has_node_set_prop_inner:
  "mget (props_of s) n = Some inner \<Longrightarrow> (\<And>q. p = n # q \<Longrightarrow> has_node inner q t \<Longrightarrow> has_node inner' q t) \<Longrightarrow>
   has_node s p t \<Longrightarrow> has_node (set_prop n inner' s) p t"
  by (cases p) (auto simp: has_node_def mget_update intro: same_node_trans split: option.splits if_splits)

lemma has_node_del_prop: "\<not> prefix [n] p \<Longrightarrow> has_node s p t \<Longrightarrow> has_node (del_prop n s) p t"
  by (cases p) (auto simp: has_node_def mget_delete same_node_def split: option.splits if_splits)

lemma gen_remove_keeps:
  "has_node s p t \<Longrightarrow> \<forall>(q, w) \<in> set (leaves ps). \<not> prefix q p \<Longrightarrow> has_node (gen_remove False s ps) p t"
proof (induction "False" s ps arbitrary: p rule: gen_remove.induct)
  case (3 s name val ps)
  have rest: "\<forall>(q, w) \<in> set (leaves (Some ps)). \<not> prefix q p" using "3.prems"(2) by auto
  show ?case
  proof (cases "mget (props_of s) name")
    case None
    with "3.hyps"(1)[OF None] "3.prems"(1) rest show ?thesis by simp
  next
    case (Some inner)
    show ?thesis
    proof (cases "s_type val = ''object''")
      case True
      have "has_node (set_prop name (gen_remove False inner (s_props val)) s) p t"
      proof (rule has_node_set_prop_inner[OF Some _ "3.prems"(1)])
        fix q assume "p = name # q" "has_node inner q t"
        moreover have "\<forall>(q', w) \<in> set (leaves (s_props val)). \<not> prefix q' q"
        proof clarify
          fix q' w assume "(q', w) \<in> set (leaves (s_props val))" "prefix q' q"
          with "3.prems"(2) leaf_below[OF True] \<open>p = name # q\<close> show False by fastforce
        qed
        ultimately show "has_node (gen_remove False inner (s_props val)) q t" using "3.hyps"(2)[OF Some True] by blast
      qed
      from "3.hyps"(3)[OF Some True this rest] Some True show ?thesis by simp
    next
      case False
      with "3.prems" have "has_node (del_prop name s) p t" by (intro has_node_del_prop) auto
      from "3.hyps"(4)[OF Some False this rest] Some False show ?thesis by simp
    qed
  qed
qed simp_all

lemma mget_filter: "mget m n = Some v \<Longrightarrow> P (n, v) \<Longrightarrow> mget (filter P m) n = Some v"
  by (induction m) auto

lemma at_drop_empty:
  "at s (n # q) = Some t \<Longrightarrow> \<not> empty_object (the (mget (props_of s) n)) \<Longrightarrow>
   at (drop_empty_objects s) (n # q) = Some t"
  by (cases "s_props s") (auto simp: drop_empty_objects_def mget_filter split: option.splits)

lemma not_empty_below: "at s (n # m # q) = Some t \<Longrightarrow> \<not> empty_object (the (mget (props_of s) n))"
  by (auto simp: empty_object_def split: option.splits)

text \<open>A node below the top survives, and one at the top that is no object or has something below.\<close>

lemma has_node_drop_empty:
  assumes "has_node s p t" "length p = 1 \<Longrightarrow> s_type t \<noteq> ''object'' \<or> (\<exists>m. at s (p @ [m]) \<noteq> None)"
  shows "has_node (drop_empty_objects s) p t"
proof (cases p)
  case Nil
  with assms(1) show ?thesis by (auto simp: has_node_def same_node_def drop_empty_objects_def)
next
  case (Cons n q)
  from assms(1) obtain t' where t': "at s (n # q) = Some t'" "same_node t t'" by (auto simp: has_node_def Cons)
  have "\<not> empty_object (the (mget (props_of s) n))"
  proof (cases q)
    case Nil
    with t' have "mget (props_of s) n = Some t'" by (simp only: at_one)
    moreover have "s_type t \<noteq> ''object'' \<or> props_of t' \<noteq> []"
      using assms(2) Cons Nil calculation by (auto simp: at_two simp del: at.simps not_None_eq)
    ultimately show ?thesis using t'(2) by (auto simp: same_node_def empty_object_def)
  qed (use t' not_empty_below in blast)
  with at_drop_empty[OF t'(1)] t'(2) show ?thesis by (auto simp: has_node_def Cons)
qed

section \<open>The base schema\<close>

text \<open>No object at the top of the base spec is empty; such an object would be cleaned up.\<close>

definition no_empty_top :: "schema \<Rightarrow> bool" where
  "no_empty_top s \<longleftrightarrow> list_all (\<lambda>kv. \<not> empty_object (snd kv)) (props_of s)"

lemma no_empty_top_node:
  "no_empty_top s \<Longrightarrow> at s [n] = Some t \<Longrightarrow> s_type t \<noteq> ''object'' \<or> (\<exists>m. at s [n, m] \<noteq> None)"
proof -
  assume *: "no_empty_top s" "at s [n] = Some t"
  then have "\<not> empty_object t"
    by (auto simp: no_empty_top_def list_all_iff dest!: mget_in_set split: option.splits)
  moreover have "\<exists>m. mget (props_of t) m \<noteq> None" if "props_of t \<noteq> []"
    using that by (cases "props_of t") auto
  ultimately show ?thesis using *(2) unfolding at_two at_one by (auto simp: empty_object_def)
qed

lemma gen_remove_grows:
  assumes "grows base s" "no_empty_top base" "\<forall>(q, w) \<in> set (leaves ps). at base q = None"
  shows "grows base (gen_remove True s ps)"
proof (cases ps)
  case (Some l)
  have apart: "\<not> prefix q p" if "(q, w) \<in> set (leaves ps)" "at base p = Some t" for p q w t
    using at_prefix[of base p q] assms(3) that by auto
  have kept: "has_node (gen_remove False s ps) p t" if "at base p = Some t" for p t
    using assms(1) that apart by (intro gen_remove_keeps) (auto simp: grows_has_node)
  show ?thesis
    unfolding Some gen_remove_root grows_has_node
  proof (intro allI impI has_node_drop_empty)
    fix p t assume t: "at base p = Some t"
    show "has_node (gen_remove False s (Some l)) p t" using kept[OF t] by (simp add: Some)
    show "s_type t \<noteq> ''object'' \<or> (\<exists>m. at (gen_remove False s (Some l)) (p @ [m]) \<noteq> None)" if len: "length p = 1"
    proof -
      obtain n where p: "p = [n]" using len by (cases p) auto
      have "at (gen_remove False s (Some l)) [n, m] \<noteq> None" if "at base [n, m] \<noteq> None" for m
        using that kept[of "[n, m]"] unfolding Some has_node_def by blast
      with no_empty_top_node[OF assms(2), of n t] t show ?thesis unfolding p append.simps by blast
    qed
  qed
qed (use assms(1) in simp)

lemma grows_at_spec:
  assumes "grows base sch" "mget (props_of base) ''spec'' = Some bspec"
  shows "mget (props_of sch) ''spec'' \<noteq> None" "grows bspec (spec_of sch)"
proof -
  have node: "has_node sch (''spec'' # p) t" if "at bspec p = Some t" for p t
    using assms that by (auto simp: grows_has_node)
  from node[of "[]" bspec] show "mget (props_of sch) ''spec'' \<noteq> None"
    by (auto simp: has_node_def split: option.splits)
  show "grows bspec (spec_of sch)"
    unfolding grows_has_node using node
    by (fastforce simp: has_node_def spec_of_def split: option.splits)
qed

lemma grows_new_spec:
  assumes "grows base sch" "mget (props_of base) ''spec'' = Some bspec" "grows bspec spec"
  shows "grows base (set_prop ''spec'' spec sch)"
  unfolding grows_has_node
proof (intro allI impI)
  fix p t assume t: "at base p = Some t"
  with assms(1) have kept: "has_node sch p t" by (simp add: grows_has_node)
  show "has_node (set_prop ''spec'' spec sch) p t"
  proof (cases p)
    case Nil
    with kept show ?thesis by (auto simp: has_node_def same_node_def)
  next
    case (Cons n q)
    with t kept assms(2,3) show ?thesis
      by (cases "n = ''spec''") (auto simp: has_node_def grows_has_node mget_update)
  qed
qed

section \<open>Histories\<close>

text \<open>
  The calls of \<open>Add\<close> and \<open>Remove\<close> a generator receives, in their order; failed calls are followed
  by further calls, as the controllers retry.
\<close>

datatype gen_op = OpAdd string raw | OpRemove string

fun gen_step :: "(raw \<Rightarrow> gerr + schema) \<Rightarrow> gen_op \<Rightarrow> generator \<Rightarrow> generator" where
  "gen_step dec (OpAdd name ext) g = snd (generator_add dec g name ext)"
| "gen_step dec (OpRemove name) g = snd (generator_remove dec g name)"

definition gen_run :: "(raw \<Rightarrow> gerr + schema) \<Rightarrow> gen_op list \<Rightarrow> generator \<Rightarrow> generator" where
  "gen_run dec ops g = fold (gen_step dec) ops g"

text \<open>
  The invariant: the base is still there, and no applied extension defines anything on a path of
  the base.
\<close>

definition base_kept :: "(raw \<Rightarrow> gerr + schema) \<Rightarrow> schema \<Rightarrow> schema \<Rightarrow> generator \<Rightarrow> bool" where
  "base_kept dec base bspec g \<longleftrightarrow>
     (\<exists>sch. g_schema g = Some sch \<and> grows base sch) \<and>
     (\<forall>name ext inp. mget (g_applied g) name = Some ext \<longrightarrow> dec ext = Inr inp \<longrightarrow>
        (\<forall>(q, w) \<in> set (leaves (s_props inp)). at bspec q = None))"

lemma base_keptD:
  assumes "base_kept dec base bspec g"
  obtains sch where "g_schema g = Some sch" "grows base sch"
  using assms by (auto simp: base_kept_def)

lemma base_kept_schema:
  "base_kept dec base bspec g \<Longrightarrow> grows base sch \<Longrightarrow> base_kept dec base bspec (g\<lparr>g_schema := Some sch\<rparr>)"
  by (simp add: base_kept_def)

lemma base_kept_remove:
  assumes inv: "base_kept dec base bspec g" and base: "mget (props_of base) ''spec'' = Some bspec" "no_empty_top bspec"
  shows "base_kept dec base bspec (snd (generator_remove dec g name))"
proof (cases "mget (g_applied g) name")
  case (Some ext)
  obtain sch where sch: "g_schema g = Some sch" "grows base sch" using inv by (rule base_keptD)
  show ?thesis
  proof (cases "dec ext")
    case (Inr inp)
    with inv Some have "\<forall>(q, w) \<in> set (leaves (s_props inp)). at bspec q = None" unfolding base_kept_def by blast
    from grows_new_spec[OF sch(2) base(1) gen_remove_grows[OF grows_at_spec(2)[OF sch(2) base(1)] base(2) this]]
    have g': "grows base (set_prop ''spec'' (gen_remove True (spec_of sch) (s_props inp)) sch)" .
    have "s_props sch \<noteq> None" using grows_at_spec(1)[OF sch(2) base(1)] by (cases "s_props sch") auto
    then have "snd (generator_remove dec g name) =
        g\<lparr>g_applied := mdel name (g_applied g),
          g_schema := Some (set_prop ''spec'' (gen_remove True (spec_of sch) (s_props inp)) sch)\<rparr>"
      using Some Inr sch(1) by (auto simp: generator_remove_def Let_def)
    with g' inv show ?thesis by (simp add: base_kept_def mget_delete)
  qed (use inv Some in \<open>simp add: generator_remove_def\<close>)
qed (use inv in \<open>simp add: generator_remove_def\<close>)

lemma base_kept_add_new:
  assumes inv: "base_kept dec base bspec g" and base: "mget (props_of base) ''spec'' = Some bspec"
    and fresh: "mget (g_applied g) name = None"
  shows "base_kept dec base bspec (snd (generator_add dec g name ext))"
proof -
  obtain sch where sch: "g_schema g = Some sch" "grows base sch" using inv by (rule base_keptD)
  note spec = grows_at_spec[OF sch(2) base]
  have nonnil: "s_props sch \<noteq> None" using spec(1) by (cases "s_props sch") auto
  show ?thesis
  proof (cases "dec ext")
    case (Inr inp)
    obtain e spec' where r: "gen_add (spec_of sch) (s_props inp) = (e, spec')" by (metis surj_pair)
    then have "grows (spec_of sch) spec'" using gen_add_grows[of "spec_of sch" "s_props inp"] by simp
    then have grown: "grows base (set_prop ''spec'' spec' sch)"
      "grows base (set_prop ''spec'' (shared_map (spec_of sch) spec') sch)"
      using spec(2) by (auto intro!: grows_new_spec[OF sch(2) base] intro: grows_trans grows_shared_map)
    show ?thesis
    proof (cases e)
      case None
      have "at bspec q = None" if "(q, w) \<in> set (leaves (s_props inp))" for q w
        using gen_add_was_free[OF r[unfolded None] that] spec(2) unfolding grows_def by (metis not_None_eq)
      with None Inr r nonnil sch(1) fresh inv grown(1) show ?thesis
        by (auto simp: generator_add_def Let_def base_kept_def mget_update)
    next
      case (Some err)
      with Inr r sch(1) fresh spec(1) grown(2) inv show ?thesis
        by (auto simp: generator_add_def intro: base_kept_schema)
    qed
  qed (use inv fresh in \<open>simp add: generator_add_def\<close>)
qed

lemma generator_remove_applied_gone:
  "generator_remove dec g name = (None, g1) \<Longrightarrow> mget (g_applied g1) name = None"
  by (auto simp: generator_remove_def Let_def mget_delete split: option.splits sum.splits if_splits)

text \<open>\<open>Add\<close> of an extension that is applied is a removal followed by an addition.\<close>

lemma generator_add_again:
  "mget (g_applied g) name = Some old \<Longrightarrow> generator_remove dec g name = (None, g1) \<Longrightarrow>
   generator_add dec g name ext = generator_add dec g1 name ext"
  using generator_remove_applied_gone[of dec g name g1]
  by (simp add: generator_add_def)

lemma base_kept_step:
  assumes inv: "base_kept dec base bspec g" and base: "mget (props_of base) ''spec'' = Some bspec" "no_empty_top bspec"
  shows "base_kept dec base bspec (gen_step dec opn g)"
proof (cases opn)
  case (OpAdd name ext)
  show ?thesis
  proof (cases "mget (g_applied g) name")
    case None
    with base_kept_add_new[OF inv base(1)] OpAdd show ?thesis by simp
  next
    case (Some old)
    obtain e g1 where rem: "generator_remove dec g name = (e, g1)" by (metis surj_pair)
    have inv1: "base_kept dec base bspec g1" using base_kept_remove[OF inv base, of name] rem by simp
    show ?thesis
    proof (cases e)
      case None
      have "mget (g_applied g1) name = None" using rem[unfolded None] by (rule generator_remove_applied_gone)
      from base_kept_add_new[OF inv1 base(1) this] generator_add_again[OF Some rem[unfolded None]] OpAdd
      show ?thesis by simp
    next
      case err: (Some x)
      with Some rem inv1 OpAdd show ?thesis by (simp add: generator_add_def)
    qed
  qed
next
  case (OpRemove name)
  with base_kept_remove[OF inv base] show ?thesis by simp
qed

lemma base_kept_start:
  "g_schema g = Some base \<Longrightarrow> g_applied g = [] \<Longrightarrow> base_kept dec base bspec g"
  by (simp add: base_kept_def)

lemma base_kept_run:
  "base_kept dec base bspec g \<Longrightarrow> mget (props_of base) ''spec'' = Some bspec \<Longrightarrow> no_empty_top bspec \<Longrightarrow>
   base_kept dec base bspec (gen_run dec ops g)"
  unfolding gen_run_def
  by (induction ops arbitrary: g) (auto simp: base_kept_step)

text \<open>
  The schema of the base resource survives every history: whatever sequence of additions, updates
  and removals the generator receives, of whatever extensions, and whichever of the calls fail,
  every definition of the base is still there with its type and all its other fields. (The base has
  a spec without empty objects at its top.)
\<close>

theorem base_survives_history:
  assumes "g_schema g = Some base" "g_applied g = []"
    and "mget (props_of base) ''spec'' = Some bspec" "no_empty_top bspec"
  shows "\<exists>sch. g_schema (gen_run dec ops g) = Some sch \<and> grows base sch"
  using base_kept_run[OF base_kept_start[OF assms(1,2)] assms(3,4), of dec ops] by (simp add: base_kept_def)

section \<open>What the extensions define\<close>

text \<open>
  \<open>gen_add\<close> descends into any property the extension calls an object, also into one that is a string
  in the schema. An extension fits when it does so for objects only.
\<close>

function joins_objects :: "schema \<Rightarrow> (string \<times> schema) list option \<Rightarrow> bool" where
  "joins_objects s None \<longleftrightarrow> True"
| "joins_objects s (Some []) \<longleftrightarrow> True"
| "joins_objects s (Some ((name, val) # ps)) \<longleftrightarrow>
     (case mget (props_of s) name of
        None \<Rightarrow> True
      | Some inner \<Rightarrow> s_type val = ''object'' \<longrightarrow>
          s_type inner = ''object'' \<and> joins_objects inner (s_props val))
     \<and> joins_objects s (Some ps)"
  by pat_completeness auto
termination
  by (relation "measure (\<lambda>(s, ps). props_size ps)") auto

lemma leaves_type: "(q, w) \<in> set (leaves ps) \<Longrightarrow> q \<noteq> [] \<and> s_type w \<noteq> ''object''"
  by (induction ps arbitrary: q rule: leaves.induct) (auto split: if_splits)

lemma joins_objects_above:
  "joins_objects s ps \<Longrightarrow> (q, w) \<in> set (leaves ps) \<Longrightarrow> strict_prefix p q \<Longrightarrow> p \<noteq> [] \<Longrightarrow> at s p = Some t \<Longrightarrow>
   s_type t = ''object''"
proof (induction s ps arbitrary: p q rule: joins_objects.induct)
  case (3 s name val ps)
  show ?case
  proof (cases "(q, w) \<in> set (leaves (Some ps))")
    case True
    with "3.IH"(2) "3.prems" show ?thesis by auto
  next
    case False
    with "3.prems"(2,3,4) obtain q' where obj: "s_type val = ''object''"
      and q: "q = name # q'" "(q', w) \<in> set (leaves (s_props val))"
      by (cases p) (auto split: if_splits simp: strict_prefix_def)
    with "3.prems"(3,4) obtain p' where p: "p = name # p'" "strict_prefix p' q'" by (cases p) auto
    with "3.prems"(5) obtain inner where inner: "mget (props_of s) name = Some inner" "at inner p' = Some t"
      by (auto split: option.splits)
    with "3.prems"(1) obj have "s_type inner = ''object''" "joins_objects inner (s_props val)" by simp_all
    with "3.IH"(1)[OF inner(1) obj _ q(2) p(2) _ inner(2)] inner show ?thesis by (cases p') auto
  qed
qed simp_all

text \<open>Every applied extension has all its definitions in the spec, and no two of them interfere.\<close>

definition defs_of :: "(raw \<Rightarrow> gerr + schema) \<Rightarrow> (string, raw) gomap \<Rightarrow> string \<Rightarrow> (string list \<times> schema) set" where
  "defs_of dec applied name =
     {d. \<exists>ext inp. mget applied name = Some ext \<and> dec ext = Inr inp \<and> d \<in> set (leaves (s_props inp))}"

lemma defs_of_delete: "defs_of dec (mdel n applied) m = (if m = n then {} else defs_of dec applied m)"
  by (auto simp: defs_of_def mget_delete)

lemma defs_of_update:
  "dec ext = Inr inp \<Longrightarrow>
   defs_of dec (mset_key n ext applied) m = (if m = n then set (leaves (s_props inp)) else defs_of dec applied m)"
  by (auto simp: defs_of_def mget_update)

definition defs_present :: "(raw \<Rightarrow> gerr + schema) \<Rightarrow> (string, raw) gomap \<Rightarrow> schema \<Rightarrow> bool" where
  "defs_present dec applied spec \<longleftrightarrow>
     (\<forall>n. \<forall>(q, w) \<in> defs_of dec applied n. has_node spec q w \<and> s_type w \<noteq> ''object'') \<and>
     (\<forall>n m. n \<noteq> m \<longrightarrow> (\<forall>(q, w) \<in> defs_of dec applied n. \<forall>(q', w') \<in> defs_of dec applied m. \<not> prefix q q'))"

lemma defs_presentD:
  assumes "defs_present dec applied spec" "(q, w) \<in> defs_of dec applied n"
  shows "has_node spec q w" "s_type w \<noteq> ''object''"
    "n \<noteq> m \<Longrightarrow> (q', w') \<in> defs_of dec applied m \<Longrightarrow> \<not> prefix q q'"
  using assms unfolding defs_present_def by blast+

lemma defs_present_grows: "defs_present dec applied spec \<Longrightarrow> grows spec spec' \<Longrightarrow> defs_present dec applied spec'"
  unfolding defs_present_def using has_node_grows by fast

lemma defs_present_remove:
  assumes inv: "defs_present dec applied spec" and ext: "mget applied n = Some ext" "dec ext = Inr inp"
  shows "defs_present dec (mdel n applied) (gen_remove True spec (s_props inp))"
proof -
  have mine: "defs_of dec applied n = set (leaves (s_props inp))" using ext by (auto simp: defs_of_def)
  have "has_node (gen_remove True spec (s_props inp)) q w"
    if d: "(q, w) \<in> defs_of dec applied m" and other: "m \<noteq> n" for q w m
  proof (cases "s_props inp")
    case (Some l)
    have "has_node (gen_remove False spec (s_props inp)) q w"
      using defs_presentD(1)[OF inv d] defs_presentD(3)[OF inv _ other[symmetric] d] unfolding mine
      by (intro gen_remove_keeps) auto
    with defs_presentD(2)[OF inv d] show ?thesis
      unfolding Some gen_remove_root by (intro has_node_drop_empty) auto
  qed (use defs_presentD(1)[OF inv d] in simp)
  with inv show ?thesis unfolding defs_present_def defs_of_delete by (auto split: if_splits)
qed

lemma defs_present_add:
  assumes inv: "defs_present dec applied spec" and add: "gen_add spec (s_props inp) = (None, spec')"
    and ext: "dec ext = Inr inp" "wf_props (s_props inp)" "joins_objects spec (s_props inp)"
  shows "defs_present dec (mset_key n ext applied) spec'"
proof -
  have grown: "grows spec spec'" using gen_add_grows[of spec "s_props inp"] add by simp
  have old: "defs_present dec applied spec'" by (rule defs_present_grows[OF inv grown])
  have apart: "\<not> prefix q q'" "\<not> prefix q' q"
    if new: "(q, w) \<in> set (leaves (s_props inp))" and d: "(q', w') \<in> defs_of dec applied m" for q w q' w' m
  proof -
    have free: "at spec q = None" by (rule gen_add_was_free[OF add new])
    obtain t where t: "at spec q' = Some t" "same_node w' t"
      using defs_presentD(1)[OF inv d] by (auto simp: has_node_def)
    from at_prefix[of spec q' q] t(1) free show not_below: "\<not> prefix q q'" by auto
    show "\<not> prefix q' q"
    proof
      assume "prefix q' q"
      with not_below have "strict_prefix q' q" by auto
      moreover have "q' \<noteq> []" using d leaves_type by (auto simp: defs_of_def)
      ultimately have "s_type t = ''object''" using joins_objects_above[OF ext(3) new _ _ t(1)] by blast
      with t(2) defs_presentD(2)[OF inv d] show False by (simp add: same_node_def)
    qed
  qed
  have there: "has_node spec' q w \<and> s_type w \<noteq> ''object''" if "(q, w) \<in> set (leaves (s_props inp))" for q w
    using gen_add_now_there[OF add ext(2) that] leaves_type[OF that] by blast
  show ?thesis
    using old there apart
    unfolding defs_present_def defs_of_update[where dec = dec and ext = ext, OF ext(1)]
    by (auto split: if_splits)
qed

text \<open>The same for the generator: what \<open>add\<close> is called with, and what it leaves.\<close>

definition fits :: "(raw \<Rightarrow> gerr + schema) \<Rightarrow> generator \<Rightarrow> string \<Rightarrow> raw \<Rightarrow> bool" where
  "fits dec g name ext \<longleftrightarrow>
     (case (if mget (g_applied g) name \<noteq> None then generator_remove dec g name else (None, g)) of
        (Some e, g1) \<Rightarrow> True
      | (None, g1) \<Rightarrow>
          (case g_schema g1 of
             None \<Rightarrow> True
           | Some sch \<Rightarrow>
               (case dec ext of
                  Inl e \<Rightarrow> True
                | Inr inp \<Rightarrow> wf_props (s_props inp) \<and> joins_objects (spec_of sch) (s_props inp))))"

fun op_fits :: "(raw \<Rightarrow> gerr + schema) \<Rightarrow> gen_op \<Rightarrow> generator \<Rightarrow> bool" where
  "op_fits dec (OpAdd name ext) g = fits dec g name ext"
| "op_fits dec (OpRemove name) g = True"

fun run_fits :: "(raw \<Rightarrow> gerr + schema) \<Rightarrow> gen_op list \<Rightarrow> generator \<Rightarrow> bool" where
  "run_fits dec [] g = True"
| "run_fits dec (opn # ops) g = (op_fits dec opn g \<and> run_fits dec ops (gen_step dec opn g))"

definition gen_defs :: "(raw \<Rightarrow> gerr + schema) \<Rightarrow> generator \<Rightarrow> bool" where
  "gen_defs dec g \<longleftrightarrow> (\<exists>sch. g_schema g = Some sch \<and> mget (props_of sch) ''spec'' \<noteq> None \<and>
     defs_present dec (g_applied g) (spec_of sch))"

lemma gen_defsE:
  assumes "gen_defs dec g"
  obtains sch where "g_schema g = Some sch" "s_props sch \<noteq> None" "mget (props_of sch) ''spec'' \<noteq> None"
    "defs_present dec (g_applied g) (spec_of sch)"
  using assms that by (auto simp: gen_defs_def) (metis not_None_eq props_of_None map_of.simps(1))

lemma spec_of_set_spec [simp]: "spec_of (set_prop ''spec'' spec sch) = spec"
  by (simp add: spec_of_def mget_update)

lemma gen_defs_remove:
  assumes "gen_defs dec g"
  shows "gen_defs dec (snd (generator_remove dec g name))"
proof (cases "mget (g_applied g) name")
  case (Some ext)
  obtain sch where sch: "g_schema g = Some sch" "s_props sch \<noteq> None"
    and inv: "defs_present dec (g_applied g) (spec_of sch)" using assms by (rule gen_defsE)
  show ?thesis
  proof (cases "dec ext")
    case (Inr inp)
    with defs_present_remove[OF inv Some] Some sch show ?thesis
      by (auto simp: generator_remove_def gen_defs_def Let_def mget_update)
  qed (use assms Some in \<open>simp add: generator_remove_def\<close>)
qed (use assms in \<open>simp add: generator_remove_def\<close>)

lemma gen_defs_add_new:
  assumes "gen_defs dec g" "mget (g_applied g) name = None" "fits dec g name ext"
  shows "gen_defs dec (snd (generator_add dec g name ext))"
proof -
  obtain sch where sch: "g_schema g = Some sch" "s_props sch \<noteq> None" "mget (props_of sch) ''spec'' \<noteq> None"
    and inv: "defs_present dec (g_applied g) (spec_of sch)" using assms(1) by (rule gen_defsE)
  show ?thesis
  proof (cases "dec ext")
    case (Inr inp)
    have fit: "wf_props (s_props inp)" "joins_objects (spec_of sch) (s_props inp)"
      using assms(2,3) sch Inr by (simp_all add: fits_def)
    obtain e spec' where r: "gen_add (spec_of sch) (s_props inp) = (e, spec')" by (metis surj_pair)
    show ?thesis
    proof (cases e)
      case None
      with defs_present_add[OF inv r[unfolded None] Inr fit, of name] Inr r sch assms(2) show ?thesis
        by (auto simp: generator_add_def Let_def gen_defs_def mget_update)
    next
      case (Some err)
      have "grows (spec_of sch) spec'" using gen_add_grows[of "spec_of sch" "s_props inp"] r by simp
      from defs_present_grows[OF inv grows_shared_map[OF this]] Some Inr r sch assms(2) show ?thesis
        by (auto simp: generator_add_def gen_defs_def mget_update)
    qed
  qed (use assms(1,2) in \<open>simp add: generator_add_def\<close>)
qed

lemma gen_defs_step:
  assumes "gen_defs dec g" "op_fits dec opn g"
  shows "gen_defs dec (gen_step dec opn g)"
proof (cases opn)
  case (OpAdd name ext)
  show ?thesis
  proof (cases "mget (g_applied g) name")
    case None
    with gen_defs_add_new[OF assms(1)] assms(2) OpAdd show ?thesis by simp
  next
    case (Some old)
    obtain e g1 where rem: "generator_remove dec g name = (e, g1)" by (metis surj_pair)
    have inv1: "gen_defs dec g1" using gen_defs_remove[OF assms(1), of name] rem by simp
    show ?thesis
    proof (cases e)
      case None
      have gone: "mget (g_applied g1) name = None" using rem[unfolded None] by (rule generator_remove_applied_gone)
      have "fits dec g1 name ext" using assms(2) OpAdd Some rem None gone by (simp add: fits_def)
      from gen_defs_add_new[OF inv1 gone this] generator_add_again[OF Some rem[unfolded None]] OpAdd
      show ?thesis by simp
    next
      case err: (Some x)
      with Some rem inv1 OpAdd show ?thesis by (simp add: generator_add_def)
    qed
  qed
next
  case (OpRemove name)
  with gen_defs_remove[OF assms(1)] show ?thesis by simp
qed

lemma gen_defs_run: "gen_defs dec g \<Longrightarrow> run_fits dec ops g \<Longrightarrow> gen_defs dec (gen_run dec ops g)"
  unfolding gen_run_def by (induction ops arbitrary: g) (auto simp: gen_defs_step)


section \<open>The maps stay maps\<close>

text \<open>
  A Go map has one value per key. In the model this is a type invariant of the schemas, kept by every
  operation if the JSON decoder only makes such schemas.
\<close>

lemma wf_schema_iff:
  "wf_schema s \<longleftrightarrow> gomap_ok (props_of s) \<and> (\<forall>kv \<in> set (props_of s). wf_schema (snd kv))"
  by (cases s) (auto simp: gomap_ok_def list_all_iff split: option.splits)

lemma wf_schema_mget: "wf_schema s \<Longrightarrow> mget (props_of s) n = Some v \<Longrightarrow> wf_schema v"
  using mget_in_set by (fastforce simp: wf_schema_iff[of s])

lemma update_set: "kv \<in> set (mset_key n v m) \<Longrightarrow> kv = (n, v) \<or> kv \<in> set m"
  by (induction m) (auto split: if_splits)

lemma wf_schema_set_prop: "wf_schema s \<Longrightarrow> wf_schema v \<Longrightarrow> wf_schema (set_prop n v s)"
  unfolding wf_schema_iff[of s] wf_schema_iff[of "set_prop n v s"] by (auto dest!: update_set)

lemma wf_schema_del_prop: "wf_schema s \<Longrightarrow> wf_schema (del_prop n s)"
  unfolding wf_schema_iff[of s] wf_schema_iff[of "del_prop n s"] by (auto simp: AList.delete_eq)

lemma wf_schema_drop_empty: "wf_schema s \<Longrightarrow> wf_schema (drop_empty_objects s)"
  unfolding wf_schema_iff[of s] wf_schema_iff[of "drop_empty_objects s"]
  by (cases "s_props s") (auto simp: drop_empty_objects_def)

lemma wf_shared_map: "wf_schema s \<Longrightarrow> wf_schema t \<Longrightarrow> wf_schema (shared_map s t)"
  unfolding wf_schema_iff[of s] wf_schema_iff[of t] wf_schema_iff[of "shared_map s t"]
  by (cases "s_props s"; cases "s_props t") (auto simp: shared_map_def)

lemma wf_gen_add: "wf_schema s \<Longrightarrow> wf_props ps \<Longrightarrow> wf_schema (snd (gen_add s ps))"
proof (induction s ps rule: gen_add.induct)
  case (3 s name val ps)
  then have wf: "wf_props (s_props val)" "wf_props (Some ps)" "wf_schema val"
    by (simp_all add: wf_props_Cons wf_schema_props)
  show ?case
  proof (cases "mget (props_of s) name")
    case None
    with "3.IH"(1)[OF None wf_schema_set_prop[OF "3.prems"(1) wf(3)] wf(2)] show ?thesis by simp
  next
    case (Some inner)
    have inner: "wf_schema inner" by (rule wf_schema_mget[OF "3.prems"(1) Some])
    show ?thesis
    proof (cases "s_type val = ''object''")
      case True
      obtain e inner' where r: "gen_add inner (s_props val) = (e, inner')" by (metis surj_pair)
      with "3.IH"(2)[OF Some True inner wf(1)] have wi: "wf_schema inner'" by simp
      show ?thesis
      proof (cases e)
        case None
        from "3.IH"(3)[OF Some True r[symmetric] None wf_schema_set_prop[OF "3.prems"(1) wi] wf(2)] Some True r None
        show ?thesis by simp
      next
        case err: (Some x)
        with Some True r wf_schema_set_prop[OF "3.prems"(1) wf_shared_map[OF inner wi]] show ?thesis by simp
      qed
    qed (use Some "3.prems"(1) in simp)
  qed
qed simp_all

lemma wf_gen_remove: "wf_schema s \<Longrightarrow> wf_schema (gen_remove root s ps)"
  by (induction root s ps rule: gen_remove.induct)
    (auto simp: wf_schema_set_prop wf_schema_mget wf_schema_del_prop wf_schema_drop_empty split: option.splits)

definition decodes_maps :: "(raw \<Rightarrow> gerr + schema) \<Rightarrow> bool" where
  "decodes_maps dec \<longleftrightarrow> (\<forall>b s. dec b = Inr s \<longrightarrow> wf_schema s)"

definition generator_ok :: "generator \<Rightarrow> bool" where
  "generator_ok g \<longleftrightarrow> gomap_ok (g_applied g) \<and> (\<forall>sch. g_schema g = Some sch \<longrightarrow> wf_schema sch)"

lemma wf_spec_of: "wf_schema sch \<Longrightarrow> wf_schema (spec_of sch)"
  by (auto simp: spec_of_def zero_schema_def dest: wf_schema_mget split: option.splits)

lemma generator_ok_remove: "generator_ok g \<Longrightarrow> generator_ok (snd (generator_remove dec g name))"
  by (auto simp: generator_remove_def generator_ok_def Let_def
      intro!: wf_schema_set_prop wf_gen_remove wf_spec_of split: option.splits sum.splits)

lemma generator_ok_add_new:
  assumes "decodes_maps dec" "generator_ok g" "mget (g_applied g) name = None"
  shows "generator_ok (snd (generator_add dec g name ext))"
proof (cases "dec ext"; cases "g_schema g")
  fix inp sch assume inp: "dec ext = Inr inp" and sch: "g_schema g = Some sch"
  have wf: "wf_schema sch" "wf_props (s_props inp)"
    using assms(1,2) inp sch by (auto simp: generator_ok_def decodes_maps_def wf_schema_props)
  obtain e spec' where r: "gen_add (spec_of sch) (s_props inp) = (e, spec')" by (metis surj_pair)
  with wf_gen_add[OF wf_spec_of[OF wf(1)] wf(2)] have spec': "wf_schema spec'" by simp
  from wf_schema_set_prop[OF wf(1) this] wf_schema_set_prop[OF wf(1) wf_shared_map[OF wf_spec_of[OF wf(1)] spec']]
    assms(2,3) inp sch r
  show ?thesis by (cases e) (auto simp: generator_add_def generator_ok_def Let_def)
qed (use assms(2,3) in \<open>simp_all add: generator_add_def\<close>)

lemma generator_ok_add:
  assumes "decodes_maps dec" "generator_ok g"
  shows "generator_ok (snd (generator_add dec g name ext))"
proof (cases "mget (g_applied g) name")
  case None
  with generator_ok_add_new[OF assms] show ?thesis by blast
next
  case (Some old)
  obtain e g1 where rem: "generator_remove dec g name = (e, g1)" by (metis surj_pair)
  have ok1: "generator_ok g1" using generator_ok_remove[OF assms(2), of dec name] rem by simp
  show ?thesis
  proof (cases e)
    case None
    with generator_ok_add_new[OF assms(1) ok1 generator_remove_applied_gone] rem
      generator_add_again[OF Some] show ?thesis by metis
  next
    case err: (Some x)
    with Some rem ok1 show ?thesis by (simp add: generator_add_def)
  qed
qed

section \<open>Invariants of generators\<close>

text \<open>
  What whoever keeps generators (one per target \<open>t\<close>) needs to know of a property of them: no call
  destroys it, also none that fails.
\<close>

locale generator_invariant =
  fixes dec :: "raw \<Rightarrow> gerr + schema"
    and holds :: "string \<Rightarrow> generator \<Rightarrow> bool"
  assumes keep_add: "holds t g \<Longrightarrow> holds t (snd (generator_add dec g n r))"
    and keep_remove: "holds t g \<Longrightarrow> holds t (snd (generator_remove dec g n))"
begin

lemma keep_step: "holds t g \<Longrightarrow> holds t (gen_step dec opn g)"
  by (cases opn) (simp_all add: keep_add keep_remove)

lemma keep_run: "holds t g \<Longrightarrow> holds t (gen_run dec ops g)"
  unfolding gen_run_def by (induction ops arbitrary: g) (simp_all add: keep_step)

end

definition keeps_base :: "(raw \<Rightarrow> gerr + schema) \<Rightarrow> (string \<Rightarrow> schema option) \<Rightarrow> string \<Rightarrow> generator \<Rightarrow> bool" where
  "keeps_base dec bases t g \<longleftrightarrow>
     (\<forall>base bspec. bases t = Some base \<longrightarrow> mget (props_of base) ''spec'' = Some bspec \<longrightarrow> no_empty_top bspec \<longrightarrow>
        base_kept dec base bspec g)"

lemma keeps_base_step: "keeps_base dec bases t g \<Longrightarrow> keeps_base dec bases t (gen_step dec opn g)"
  using base_kept_step unfolding keeps_base_def by blast

interpretation keeps_base: generator_invariant dec "keeps_base dec bases" for dec bases
  using keeps_base_step[where opn = "OpAdd n r" for n r] keeps_base_step[where opn = "OpRemove n" for n]
  by unfold_locales simp_all

interpretation keeps_maps: generator_invariant dec "\<lambda>t g. decodes_maps dec \<longrightarrow> generator_ok g" for dec
  by unfold_locales (auto intro: generator_ok_add generator_ok_remove)

section \<open>Witnesses\<close>

definition ex_history :: "gen_op list" where
  "ex_history = [OpAdd ''first'' (RawJSON (JStr ''nested'')), OpAdd ''second'' (RawJSON (JStr ''flat'')),
     OpRemove ''first'', OpAdd ''second'' (RawJSON (JStr ''flat'')), OpRemove ''third'']"

theorem base_survives_history_witness:
  "\<exists>sch. g_schema (gen_run ex_dec ex_history ex_generator) = Some sch \<and>
     grows (the (g_schema ex_generator)) sch"
  by (rule base_survives_history[where bspec = "Schema ''object'' (Some [(''image'', ex_leaf)]) (JObj [])"])
    (simp_all add: ex_generator_def no_empty_top_def ex_leaf_def empty_object_def)


text \<open>A definition file of a kind.\<close>

definition ex_crd_file :: "string \<Rightarrow> crd_file" where
  "ex_crd_file kind = \<lparr>crd_kind = kind, crd_versions = [Some (g_schema ex_generator)]\<rparr>"

end
