(* ===== verification/Operator.thy ===== *)
theory Operator
  imports Ext_Reconciler System Specgen_History
begin

text \<open>
  The operator as a process: \<open>main\<close> of \<open>cmd/suffiks/main.go\<close> builds it step by step, and while it
  runs, the reconcilers of extensions and of applications take turns over one extension manager and
  one cluster.
\<close>

section \<open>What the manager keeps of its generators\<close>

definition gens_hold :: "(string \<Rightarrow> generator \<Rightarrow> bool) \<Rightarrow> string set \<Rightarrow> 'p ext_manager \<Rightarrow> bool" where
  "gens_hold P targets m \<longleftrightarrow> (\<forall>t \<in> targets. \<exists>g. mget (em_spec m) t = Some g \<and> P t g)"

text \<open>
  A definition that is written to the cluster. Its schema must be that of a generator of the kind
  which the map \<open>crds\<close> has for its name.
\<close>

fun written_crd :: "ext_write \<Rightarrow> crd option" where
  "written_crd (WUpdateCRD c e) = Some c"
| "written_crd (WCreateCRD c e) = Some c"
| "written_crd _ = None"

definition crd_holds :: "(string \<Rightarrow> generator \<Rightarrow> bool) \<Rightarrow> crd \<Rightarrow> bool" where
  "crd_holds P c \<longleftrightarrow>
     (\<exists>def g. mget crds (crd_name c) = Some def \<and> P (cd_kind def) g \<and> crd_schema c = Inr (g_schema g))"

definition writes_hold :: "(string \<Rightarrow> generator \<Rightarrow> bool) \<Rightarrow> ext_write list \<Rightarrow> bool" where
  "writes_hold P ws \<longleftrightarrow> (\<forall>w \<in> set ws. \<forall>c. written_crd w = Some c \<longrightarrow> crd_holds P c)"

definition state_holds ::
    "(string \<Rightarrow> generator \<Rightarrow> bool) \<Rightarrow> string set \<Rightarrow> ('p, 'w) ext_state \<Rightarrow> bool" where
  "state_holds P targets s \<longleftrightarrow>
     manager_ok (es_manager s) \<and> gens_hold P targets (es_manager s) \<and> writes_hold P (es_writes s)"

lemma gens_hold_update:
  "gens_hold P ts m \<Longrightarrow> em_spec m' = mset_key t g1 (em_spec m) \<Longrightarrow> (t \<in> ts \<Longrightarrow> P t g1) \<Longrightarrow> gens_hold P ts m'"
  by (auto simp: gens_hold_def mget_update)

text \<open>The definitions the loops range over, and what the API server documents of reading one by name.\<close>

definition from_crds :: "(string \<times> crd_definition) list \<Rightarrow> bool" where
  "from_crds ds \<longleftrightarrow> (\<forall>d \<in> set ds. mget crds (fst d) = Some (snd d))"

lemma from_crds_Cons [simp]: "from_crds ((name, def) # ds) \<longleftrightarrow> mget crds name = Some def \<and> from_crds ds"
  by (simp add: from_crds_def)

lemma from_crds_crds: "mset order = mset crds \<Longrightarrow> from_crds order"
  using mset_eq_setD[of order crds] by (auto simp: from_crds_def crds_def)

definition named_crds :: "'w ext_client \<Rightarrow> bool" where
  "named_crds xc \<longleftrightarrow> (\<forall>name w c. fst (xc_getCRD xc name w) = Inr c \<longrightarrow> crd_name c = name)"

abbreviation crd_kinds :: "string set" where
  "crd_kinds \<equiv> {''Application'', ''Work''}"

lemma crds_kind: "mget crds name = Some def \<Longrightarrow> cd_kind def \<in> crd_kinds"
  and crds_create: "mget crds name = Some def \<Longrightarrow> crd_schema (cd_create def n s) = Inr s \<and> crd_name (cd_create def n s) = n"
  by (auto simp: crds_def createAppCRD_def createWorkCRD_def crd_version_of_def crd_schema_def split: if_splits)

lemma set_crd_schema_name [simp]: "crd_name (set_crd_schema s c) = crd_name c"
  by (simp add: set_crd_schema_def split: list.splits)

context generator_invariant
begin

lemma add_target_holds:
  assumes "mv_dec mv = dec" "add_target mv ext t m = (err, m')" "gens_hold holds ts m"
  shows "gens_hold holds ts m'"
  using add_target_effect[OF assms(2)]
proof
  assume "add_changed mv ext t m err m'"
  then obtain g e g1 where g: "mget (em_spec m) t = Some g"
    and ga: "generator_add dec g (ex_name ext) (es_schema (ex_spec ext)) = (e, g1)"
    and m': "em_spec m' = mset_key t g1 (em_spec m)"
    using assms(1) unfolding add_changed_def by blast
  have "holds t g1" if "t \<in> ts"
    using keep_add[of t g "ex_name ext" "es_schema (ex_spec ext)"] ga g assms(3) that by (auto simp: gens_hold_def)
  with gens_hold_update[OF assms(3) m'] show ?thesis by blast
qed (use assms(3) in simp)

lemma add_targets_holds:
  "mv_dec mv = dec \<Longrightarrow> add_targets mv ext us m = (err, m') \<Longrightarrow> gens_hold holds ts m \<Longrightarrow> gens_hold holds ts m'"
proof (induction us arbitrary: m)
  case (Cons u us)
  obtain e m1 where one: "add_target mv ext u m = (e, m1)" by (metis surj_pair)
  with add_target_holds Cons.prems have "gens_hold holds ts m1" by blast
  with Cons.IH[OF Cons.prems(1)] Cons.prems(2) one show ?case by (cases e) auto
qed simp

lemma remove_targets_holds:
  "remove_targets dec name us spec = (err, spec') \<Longrightarrow>
   \<forall>t \<in> ts. \<exists>g. mget spec t = Some g \<and> holds t g \<Longrightarrow> \<forall>t \<in> ts. \<exists>g. mget spec' t = Some g \<and> holds t g"
proof (induction us arbitrary: spec)
  case (Cons u us)
  show ?case
  proof (cases "mget spec u")
    case (Some g)
    obtain e g1 where r: "generator_remove dec g name = (e, g1)" by (metis surj_pair)
    have after: "\<forall>t \<in> ts. \<exists>g. mget (mset_key u g1 spec) t = Some g \<and> holds t g"
      using Cons.prems(2) keep_remove[of u g name] r Some by (auto simp: mget_update)
    with Cons.IH[OF _ after] Cons.prems(1) Some r show ?thesis by (cases e) auto
  qed (use Cons.prems in simp)
qed simp

lemma manager_add_holds:
  "mv_dec mv = dec \<Longrightarrow> manager_add mv ext m = (err, m') \<Longrightarrow> gens_hold holds ts m \<Longrightarrow> gens_hold holds ts m'"
  unfolding manager_add_def by (rule add_targets_holds)

lemma manager_remove_holds:
  assumes "mv_dec mv = dec" "manager_remove mv ext m = (err, m')" "gens_hold holds ts m"
  shows "gens_hold holds ts m'"
proof -
  obtain e spec where r: "remove_targets dec (ex_name ext) (es_targets (ex_spec ext)) (em_spec m) = (e, spec)"
    by (metis surj_pair)
  have "em_spec m' = spec" using assms(1,2) r by (cases e) (auto simp: manager_remove_def)
  with remove_targets_holds[OF r] assms(3) show ?thesis by (simp add: gens_hold_def)
qed

lemma state_holds_frame:
  "state_holds holds ts s \<Longrightarrow> state_holds holds ts (s\<lparr>es_world := w\<rparr>)"
  by (simp add: state_holds_def)

lemma ext_write_holds:
  assumes "ext_write_by c f s = (e, s')" "state_holds holds ts s"
    and "\<And>e d. written_crd (c e) = Some d \<Longrightarrow> crd_holds holds d"
  shows "state_holds holds ts s'"
  using assms by (auto simp: ext_write_by_eq state_holds_def writes_hold_def)

lemma crd_holds_schema:
  assumes "state_holds holds ts s" "crd_kinds \<subseteq> ts" "mget crds (crd_name c) = Some def"
    and "crd_schema c = Inr (manager_schema (es_manager s) (cd_kind def))"
  shows "crd_holds holds c"
proof -
  obtain g where "mget (em_spec (es_manager s)) (cd_kind def) = Some g" "holds (cd_kind def) g"
    using assms(1,2) crds_kind[OF assms(3)] unfolding state_holds_def gens_hold_def by blast
  with assms(3,4) show ?thesis by (auto simp: crd_holds_def manager_schema_def generator_schema_def)
qed

lemma call_manager_holds:
  assumes "call_manager f s = (e, s')" "state_holds holds ts s"
    and "\<And>m e m'. f m = (e, m') \<Longrightarrow> manager_ok m \<Longrightarrow> gens_hold holds ts m \<Longrightarrow> manager_ok m' \<and> gens_hold holds ts m'"
  shows "state_holds holds ts s'"
  using assms by (auto simp: call_manager_def state_holds_def split: prod.splits)

lemma add_holds:
  "mv_dec mv = dec \<Longrightarrow> call_manager (manager_add mv x) s = (e, s') \<Longrightarrow> state_holds holds ts s \<Longrightarrow> state_holds holds ts s'"
  using call_manager_holds[where f = "manager_add mv x"] manager_add_ok manager_add_holds by metis

lemma remove_holds:
  "mv_dec mv = dec \<Longrightarrow> call_manager (manager_remove mv x) s = (e, s') \<Longrightarrow> state_holds holds ts s \<Longrightarrow> state_holds holds ts s'"
  using call_manager_holds[where f = "manager_remove mv x"] manager_remove_ok manager_remove_holds by metis

lemma publish_crds_holds:
  assumes law: "named_crds xc" and kinds: "crd_kinds \<subseteq> ts"
  shows "publish_crds xc ds s = (e, s') \<Longrightarrow> state_holds holds ts s \<Longrightarrow> from_crds ds \<Longrightarrow> state_holds holds ts s'"
proof (induction ds arbitrary: s)
  case (Cons d ds)
  obtain name def where d: "d = (name, def)" by (cases d)
  obtain r w1 where get: "xc_getCRD xc name (es_world s) = (r, w1)" by (metis surj_pair)
  let ?s1 = "s\<lparr>es_world := w1\<rparr>" and ?new = "manager_schema (es_manager s) (cd_kind def)"
  have s1: "state_holds holds ts ?s1" by (rule state_holds_frame[OF Cons.prems(2)])
  have rest: "publish_crds xc ds s2 = (e, s') \<Longrightarrow> state_holds holds ts s2 \<Longrightarrow> state_holds holds ts s'" for s2
    using Cons.IH Cons.prems(3) d by simp
  show ?case
  proof (cases r)
    case (Inr c)
    show ?thesis
    proof (cases "crd_schema c")
      case cur: (Inr cur)
      show ?thesis
      proof (cases "schema_ptr_equal cur ?new")
        case True
        with Cons.prems(1) get Inr cur rest[OF _ s1] show ?thesis by (simp add: d Let_def)
      next
        case False
        let ?c = "set_crd_schema ?new c"
        obtain e2 s2 where wr: "ext_write_by (WUpdateCRD ?c) (xc_updateCRD xc ?c) ?s1 = (e2, s2)" by (metis surj_pair)
        have "crd_name c = name" using law get Inr unfolding named_crds_def by (metis fst_conv)
        then have "crd_holds holds ?c"
          using Cons.prems(3) cur d by (intro crd_holds_schema[OF Cons.prems(2) kinds]) auto
        then have "state_holds holds ts s2" by (intro ext_write_holds[OF wr s1]) auto
        with Cons.prems(1) get Inr cur False wr rest show ?thesis by (cases e2) (auto simp: d Let_def)
      qed
    qed (use Cons.prems(1) get Inr s1 in \<open>simp add: d Let_def\<close>)
  qed (use Cons.prems(1) get s1 in \<open>simp add: d\<close>)
qed simp

lemma ext_apply_holds:
  assumes "mv_dec mv = dec" "ext_apply mv xc order x s = (e, s')" "state_holds holds ts s"
    and "named_crds xc" "crd_kinds \<subseteq> ts" "from_crds order"
  shows "state_holds holds ts s'"
proof -
  obtain e1 s1 where add: "call_manager (manager_add mv x) s = (e1, s1)" by (metis surj_pair)
  obtain e2 s2 where pub: "publish_crds xc order s1 = (e2, s2)" by (metis surj_pair)
  have s1: "state_holds holds ts s1" by (rule add_holds[OF assms(1) add assms(3)])
  have s2: "state_holds holds ts s2" by (rule publish_crds_holds[OF assms(4,5) pub s1 assms(6)])
  let ?x = "x\<lparr>ex_status := StatusActive\<rparr>"
  show ?thesis
  proof (cases "e1 \<noteq> None \<and> \<not> is_already_defined (the e1)")
    case True
    with assms(2) add s1 show ?thesis by (auto simp: ext_apply_def)
  next
    case False
    show ?thesis
    proof (cases e2)
      case None
      with False assms(2) add pub have "ext_write_by (WStatus ?x) (xc_statusUpdate xc ?x) s2 = (e, s')"
        by (auto simp: ext_apply_def Let_def)
      from ext_write_holds[OF this s2] show ?thesis by simp
    qed (use False assms(2) add pub s2 in \<open>auto simp: ext_apply_def Let_def\<close>)
  qed
qed

lemma ext_remove_holds:
  assumes "mv_dec mv = dec" "ext_remove mv xc x s = (e, s')" "state_holds holds ts s"
  shows "state_holds holds ts s'"
proof (cases "ext_finalizer \<in> set (om_finalizers (ex_meta x))")
  case True
  let ?x = "set_finalizers (filter (\<lambda>f. f \<noteq> ext_finalizer) (om_finalizers (ex_meta x))) x"
  obtain e1 s1 where rm: "call_manager (manager_remove mv x) s = (e1, s1)" by (metis surj_pair)
  have s1: "state_holds holds ts s1" by (rule remove_holds[OF assms(1) rm assms(3)])
  show ?thesis
  proof (cases e1)
    case None
    with True rm assms(2) have "ext_write_by (WExtension ?x) (xc_update xc ?x) s1 = (e, s')"
      by (simp add: ext_remove_def Let_def)
    from ext_write_holds[OF this s1] show ?thesis by simp
  qed (use True rm assms(2) s1 in \<open>simp add: ext_remove_def\<close>)
qed (use assms(2,3) in \<open>simp add: ext_remove_def\<close>)

lemma ext_reconcile_holds:
  assumes "mv_dec mv = dec" "ext_reconcile mv xc order key s = (e, s')" "state_holds holds ts s"
    and "named_crds xc" "crd_kinds \<subseteq> ts" "from_crds order"
  shows "state_holds holds ts s'"
proof -
  obtain r w1 where get: "xc_get xc key (es_world s) = (r, w1)" by (metis surj_pair)
  have s1: "state_holds holds ts (s\<lparr>es_world := w1\<rparr>)" by (rule state_holds_frame[OF assms(3)])
  show ?thesis
  proof (cases r)
    case (Inr x)
    let ?x = "set_finalizers (om_finalizers (ex_meta x) @ [ext_finalizer]) x"
    obtain e2 s2 where wr: "ext_write_by (WExtension ?x) (xc_update xc ?x) (s\<lparr>es_world := w1\<rparr>) = (e2, s2)"
      by (metis surj_pair)
    have s2: "state_holds holds ts s2" by (rule ext_write_holds[OF wr s1]) simp
    consider "om_deleting (ex_meta x)" | "\<not> om_deleting (ex_meta x)" "ext_finalizer \<in> set (om_finalizers (ex_meta x))"
      | "\<not> om_deleting (ex_meta x)" "ext_finalizer \<notin> set (om_finalizers (ex_meta x))" by blast
    then show ?thesis
    proof cases
      case 1
      with assms(2) get Inr ext_remove_holds[OF assms(1) _ s1] show ?thesis by (simp add: ext_reconcile_def)
    next
      case 2
      with assms(2) get Inr ext_apply_holds[OF assms(1) _ s1 assms(4-6)] show ?thesis by (simp add: ext_reconcile_def)
    next
      case 3
      with assms(2) get Inr wr s2 ext_apply_holds[OF assms(1) _ s2 assms(4-6)] show ?thesis
        by (cases e2) (auto simp: ext_reconcile_def Let_def)
    qed
  qed (use assms(2) get s1 in \<open>simp add: ext_reconcile_def\<close>)
qed

lemma add_listed_holds:
  "mv_dec mv = dec \<Longrightarrow> add_listed mv xs s = (e, s') \<Longrightarrow> state_holds holds ts s \<Longrightarrow> state_holds holds ts s'"
proof (induction xs arbitrary: s)
  case (Cons x xs)
  obtain e1 s1 where one: "call_manager (manager_add mv x) s = (e1, s1)" by (metis surj_pair)
  have "state_holds holds ts s1" by (rule add_holds[OF Cons.prems(1) one Cons.prems(3)])
  with Cons.IH[OF Cons.prems(1)] Cons.prems(2) one show ?case by (cases e1) auto
qed simp

lemma refresh_crds_holds:
  assumes law: "named_crds xc" and kinds: "crd_kinds \<subseteq> ts"
  shows "refresh_crds xc ds s = (e, s') \<Longrightarrow> state_holds holds ts s \<Longrightarrow> from_crds ds \<Longrightarrow> state_holds holds ts s'"
proof (induction ds arbitrary: s)
  case (Cons d ds)
  obtain name def where d: "d = (name, def)" by (cases d)
  obtain r w1 where get: "xc_getCRD xc name (es_world s) = (r, w1)" by (metis surj_pair)
  let ?s1 = "s\<lparr>es_world := w1\<rparr>" and ?new = "manager_schema (es_manager s) (cd_kind def)"
  have s1: "state_holds holds ts ?s1" by (rule state_holds_frame[OF Cons.prems(2)])
  have def: "mget crds name = Some def" using Cons.prems(3) d by simp
  have rest: "refresh_crds xc ds s2 = (e, s') \<Longrightarrow> state_holds holds ts s2 \<Longrightarrow> state_holds holds ts s'" for s2
    using Cons.IH Cons.prems(3) d by simp
  show ?case
  proof (cases r)
    case (Inl x)
    let ?c = "cd_create def name ?new"
    obtain e2 s2 where wr: "ext_write_by (WCreateCRD ?c) (xc_createCRD xc ?c) ?s1 = (e2, s2)" by (metis surj_pair)
    have "crd_holds holds ?c"
      using crds_create[OF def] def by (intro crd_holds_schema[OF Cons.prems(2) kinds]) auto
    then have s2: "state_holds holds ts s2" by (intro ext_write_holds[OF wr s1]) auto
    show ?thesis
    proof (cases "is_not_found x")
      case True
      with Cons.prems(1) get Inl wr s2 rest show ?thesis by (cases e2) (auto simp: d Let_def)
    next
      case False
      with Cons.prems(1) get Inl s1 show ?thesis by (simp add: d Let_def)
    qed
  next
    case (Inr c)
    let ?c = "set_crd_schema ?new c"
    obtain e2 s2 where wr: "ext_write_by (WUpdateCRD ?c) (xc_updateCRD xc ?c) ?s1 = (e2, s2)" by (metis surj_pair)
    show ?thesis
    proof (cases "crd_schema c")
      case cur: (Inr cur)
      have "crd_name c = name" using law get Inr unfolding named_crds_def by (metis fst_conv)
      then have "crd_holds holds ?c"
        using def cur by (intro crd_holds_schema[OF Cons.prems(2) kinds]) auto
      then have s2: "state_holds holds ts s2" by (intro ext_write_holds[OF wr s1]) auto
      with Cons.prems(1) get Inr cur wr rest show ?thesis by (cases e2) (auto simp: d Let_def)
    qed (use Cons.prems(1) get Inr s1 in \<open>simp add: d Let_def\<close>)
  qed
qed simp

lemma RefreshCRD_holds:
  assumes "mv_dec mv = dec" "RefreshCRD ce mv xc order s = (e, s')" "state_holds holds ts s"
    and "named_crds xc" "crd_kinds \<subseteq> ts" "from_crds order"
  shows "state_holds holds ts s'"
proof (cases "ce = None")
  case True
  obtain r w1 where get: "xc_list xc (es_world s) = (r, w1)" by (metis surj_pair)
  have s1: "state_holds holds ts (s\<lparr>es_world := w1\<rparr>)" by (rule state_holds_frame[OF assms(3)])
  show ?thesis
  proof (cases r)
    case (Inr xs)
    obtain e2 s2 where add: "add_listed mv xs (s\<lparr>es_world := w1\<rparr>) = (e2, s2)" by (metis surj_pair)
    have s2: "state_holds holds ts s2" by (rule add_listed_holds[OF assms(1) add s1])
    with True assms(2) get Inr add refresh_crds_holds[OF assms(4,5) _ s2 assms(6)] show ?thesis
      by (cases e2) (auto simp: RefreshCRD_def)
  qed (use True assms(2) get s1 in \<open>simp add: RefreshCRD_def\<close>)
qed (use assms(2,3) in \<open>auto simp: RefreshCRD_def\<close>)

end

end
