(* ===== verification/Startup.thy ===== *)
theory Startup
  imports Operator
begin

text \<open>
  \<open>main\<close> of \<open>cmd/suffiks/main.go\<close>, and the running operator: the reconcilers of extensions and of
  applications take turns over one manager and one cluster.
\<close>

section \<open>Start-up\<close>

text \<open>
  The steps of \<open>main\<close> that can fail or have an effect. What the libraries answer is a parameter;
  flags, logging and the construction of options cannot fail and are left out.
\<close>

datatype boot_step =
    BConfig | BManager | BDynClient | BExtManager | BMetrics | BExtClient | BExtController
  | BAppController | BExtWebhook | BAppWebhook | BHealthz | BReadyz | BRefresh | BTracing | BDocs
  | BStart | BShutdown

record boot_env =
  bo_config :: "gerr option"
  bo_manager :: "gerr option"
  bo_dynamic :: "gerr option"
  bo_metrics :: "gerr option"
  bo_extClient :: "gerr option"
  bo_extController :: "gerr option"
  bo_appController :: "gerr option"
  bo_extWebhook :: "gerr option"
  bo_appWebhook :: "gerr option"
  bo_healthz :: "gerr option"
  bo_readyz :: "gerr option"
  bo_client :: "gerr option"
  bo_tracing :: "gerr option"
  bo_shutdown :: "gerr option"

text \<open>How the process ends: by returning, by \<open>os.Exit(1)\<close> after a message, or by a panic.\<close>

datatype exit = Returned | ExitOne string | Panicked gerr

text \<open>A step whose error ends the process; the steps that were begun are recorded.\<close>

definition step_or ::
    "(gerr \<Rightarrow> exit) \<Rightarrow> boot_step \<Rightarrow> ('s \<Rightarrow> gerr option \<times> 's) \<Rightarrow> ('s \<Rightarrow> exit \<times> boot_step list \<times> 's) \<Rightarrow>
     's \<Rightarrow> exit \<times> boot_step list \<times> 's" where
  "step_or ex st f k s =
     (case f s of
        (Some e, s1) \<Rightarrow> (ex e, [st], s1)
      | (None, s1) \<Rightarrow> (case k s1 of (r, l, s2) \<Rightarrow> (r, st # l, s2)))"

abbreviation or_exit where
  "or_exit msg \<equiv> step_or (\<lambda>_. ExitOne msg)"

definition lib :: "gerr option \<Rightarrow> 's \<Rightarrow> gerr option \<times> 's" where
  "lib o1 s = (o1, s)"

text \<open>
  \<open>serve\<close> is \<open>mgr.Start\<close>: it runs the reconcilers until the process is told to stop. The
  \<open>go\<close> statement of the documentation server cannot fail.
\<close>

definition main_steps ::
    "boot_env \<Rightarrow> ('b \<Rightarrow> gerr + crd_file) \<Rightarrow> (gerr + string \<times> (gerr + 'b)) list \<Rightarrow> 'p manager_env \<Rightarrow>
     'w ext_client \<Rightarrow> (string \<times> crd_definition) list \<Rightarrow>
     (('p, 'w) ext_state \<Rightarrow> gerr option \<times> ('p, 'w) ext_state) \<Rightarrow> ('p, 'w) ext_state \<Rightarrow>
     exit \<times> boot_step list \<times> ('p, 'w) ext_state" where
  "main_steps bo parse files mv xc order serve =
     or_exit ''unable to get kubeconfig'' BConfig (lib (bo_config bo))
     (or_exit ''unable to start manager'' BManager (lib (bo_manager bo))
     (or_exit ''unable to create dynamic client'' BDynClient (lib (bo_dynamic bo))
     (or_exit ''unable to create CRD manager'' BExtManager
        (\<lambda>s. case new_manager parse files of (e, m) \<Rightarrow> (e, s\<lparr>es_manager := m\<rparr>))
     (or_exit ''unable to register CRD metrics'' BMetrics (lib (bo_metrics bo))
     (step_or Panicked BExtClient (lib (bo_extClient bo))
     (or_exit ''unable to create controller'' BExtController (lib (bo_extController bo))
     (or_exit ''unable to create controller'' BAppController (lib (bo_appController bo))
     (or_exit ''unable to create webhook'' BExtWebhook (lib (bo_extWebhook bo))
     (or_exit ''unable to create webhook'' BAppWebhook (lib (bo_appWebhook bo))
     (or_exit ''unable to set up health check'' BHealthz (lib (bo_healthz bo))
     (or_exit ''unable to set up ready check'' BReadyz (lib (bo_readyz bo))
     (step_or Panicked BRefresh (RefreshCRD (bo_client bo) mv xc order)
     (or_exit ''unable to create tracer provider'' BTracing (lib (bo_tracing bo))
     (or_exit '''' BDocs (lib None)
     (or_exit ''problem running manager'' BStart serve
     (or_exit ''problem shutting down tracer provider'' BShutdown (lib (bo_shutdown bo))
     (\<lambda>s. (Returned, [], s))))))))))))))))))"

definition operator_main ::
    "boot_env \<Rightarrow> ('b \<Rightarrow> gerr + crd_file) \<Rightarrow> (gerr + string \<times> (gerr + 'b)) list \<Rightarrow> 'p manager_env \<Rightarrow>
     'w ext_client \<Rightarrow> (string \<times> crd_definition) list \<Rightarrow>
     (('p, 'w) ext_state \<Rightarrow> gerr option \<times> ('p, 'w) ext_state) \<Rightarrow> 'w \<Rightarrow>
     exit \<times> boot_step list \<times> ('p, 'w) ext_state" where
  "operator_main bo parse files mv xc order serve w =
     main_steps bo parse files mv xc order serve
       \<lparr>es_manager = \<lparr>em_spec = [], em_extensions = [], em_wasi = []\<rparr>, es_writes = [], es_world = w\<rparr>"

text \<open>\<open>st\<close> was begun by a run of \<open>k\<close> from \<open>s\<close> that ends in \<open>s'\<close>.\<close>

definition reaches :: "boot_step \<Rightarrow> ('s \<Rightarrow> exit \<times> boot_step list \<times> 's) \<Rightarrow> 's \<Rightarrow> 's \<Rightarrow> bool" where
  "reaches st k s s' \<longleftrightarrow> (\<exists>r l. k s = (r, l, s') \<and> st \<in> set l)"

lemma reaches_step_or:
  "x \<noteq> st \<Longrightarrow> reaches x (step_or ex st f k) s s' \<longleftrightarrow> (\<exists>s1. f s = (None, s1) \<and> reaches x k s1 s')"
  by (auto simp: reaches_def step_or_def split: prod.splits option.splits)

lemma lib_eq [simp]: "lib o1 s = (e, s') \<longleftrightarrow> o1 = e \<and> s = s'"
  by (simp add: lib_def)

lemma reaches_here:
  "reaches st (step_or ex st f (step_or ex' st' (lib o1) (\<lambda>s. (r, [], s)))) s s' \<Longrightarrow> s' = snd (f s)"
  by (auto simp: reaches_def step_or_def lib_def split: prod.splits option.splits)

text \<open>If the manager was started, everything before has succeeded.\<close>

lemma main_started:
  assumes "operator_main bo parse files mv xc order serve w = (r, log, s')" "BStart \<in> set log"
  obtains m s where "new_manager parse files = (None, m)"
    "RefreshCRD (bo_client bo) mv xc order \<lparr>es_manager = m, es_writes = [], es_world = w\<rparr> = (None, s)"
    "s' = snd (serve s)"
proof -
  let ?s0 = "\<lparr>es_manager = \<lparr>em_spec = [], em_extensions = [], em_wasi = []\<rparr>, es_writes = [], es_world = w\<rparr>"
  have "reaches BStart (main_steps bo parse files mv xc order serve) ?s0 s'"
    using assms by (auto simp: operator_main_def reaches_def)
  then obtain s1 s2 where m: "(case new_manager parse files of (e, m) \<Rightarrow> (e, ?s0\<lparr>es_manager := m\<rparr>)) = (None, s1)"
    and ref: "RefreshCRD (bo_client bo) mv xc order s1 = (None, s2)"
    and rest: "reaches BStart (or_exit ''problem running manager'' BStart serve
      (or_exit ''problem shutting down tracer provider'' BShutdown (lib (bo_shutdown bo)) (\<lambda>s. (Returned, [], s)))) s2 s'"
    unfolding main_steps_def by (auto simp: reaches_step_or)
  show ?thesis
    using m ref reaches_here[OF rest] by (auto split: prod.splits intro: that)
qed

section \<open>Running\<close>

text \<open>
  The state of a running operator: manager, cluster and what has been written for extensions, and the
  calls made for applications.
\<close>

record ('p, 'w) op_state =
  os_ext :: "('p, 'w) ext_state"
  os_calls :: "application call list"

text \<open>
  \<open>sync\<close> answers what some run of the extensions \<open>exts\<close> can answer; the goroutines may take any order.
\<close>

definition sync_allowed ::
    "(json \<Rightarrow> gerr + json) \<Rightarrow> (raw \<Rightarrow> raw \<Rightarrow> gerr + raw) \<Rightarrow> behaviour \<Rightarrow> (string \<Rightarrow> managed list) \<Rightarrow>
     (application \<Rightarrow> gerr + changeset \<times> string list) \<Rightarrow> bool" where
  "sync_allowed conv mmp bh exts sync \<longleftrightarrow>
     (\<forall>a. case sync a of
        Inl e \<Rightarrow> is_panic e \<or> (\<exists>r. sync_result conv mmp bh (app_object a) (exts (ap_kind a)) (Some e) r)
      | Inr r \<Rightarrow> sync_result conv mmp bh (app_object a) (exts (ap_kind a)) None (Some r))"

text \<open>
  One turn: an extension is reconciled, or an application, with the extensions that are registered at
  that time and whatever they answer; or something else happens in the cluster. Each turn ranges over
  the maps in an order of its own.
\<close>

inductive op_step ::
    "'p manager_env \<Rightarrow> 'w ext_client \<Rightarrow> 'w kube \<Rightarrow>
     (app_spec \<times> (string, string) gomap \<Rightarrow> gerr + 64 word) \<Rightarrow> (raw \<Rightarrow> raw \<Rightarrow> gerr + raw) \<Rightarrow>
     deployment object_ops \<Rightarrow> 'w app_client \<Rightarrow> (json \<Rightarrow> gerr + json) \<Rightarrow> (raw \<Rightarrow> raw \<Rightarrow> gerr + raw) \<Rightarrow>
     ('p, 'w) op_state \<Rightarrow> ('p, 'w) op_state \<Rightarrow> bool" for mv xc k hashf mp ops ac conv mmp where
  extension_event: "mset order = mset crds \<Longrightarrow> ext_reconcile mv xc order key (os_ext s) = (e, x) \<Longrightarrow>
    op_step mv xc k hashf mp ops ac conv mmp s (s\<lparr>os_ext := x\<rparr>)"
| application_event: "\<forall>kind. mset (exts kind) = mset (extensions_for (es_manager (os_ext s)) kind) \<Longrightarrow>
    sync_allowed conv mmp bh exts sync \<Longrightarrow>
    reconcile (app_child k hashf mp ops) (app_host ac bh exts sync) key (os_calls s, es_world (os_ext s)) = (e, (cs, w)) \<Longrightarrow>
    op_step mv xc k hashf mp ops ac conv mmp s (s\<lparr>os_ext := (os_ext s)\<lparr>es_world := w\<rparr>, os_calls := cs\<rparr>)"
| cluster_event: "op_step mv xc k hashf mp ops ac conv mmp s (s\<lparr>os_ext := (os_ext s)\<lparr>es_world := w\<rparr>\<rparr>)"

inductive_cases op_stepE: "op_step mv xc k hashf mp ops ac conv mmp s s'"

context generator_invariant
begin

lemma op_step_holds:
  assumes "op_step mv xc k hashf mp ops ac conv mmp s s'" "state_holds holds ts (os_ext s)"
    and "mv_dec mv = dec" "named_crds xc" "crd_kinds \<subseteq> ts"
  shows "state_holds holds ts (os_ext s')"
  using assms(1)
proof cases
  case (extension_event order key e x)
  with ext_reconcile_holds[OF assms(3) extension_event(3) assms(2,4,5) from_crds_crds] show ?thesis by simp
qed (use state_holds_frame[OF assms(2)] in simp_all)

lemma op_steps_holds:
  assumes "(op_step mv xc k hashf mp ops ac conv mmp)\<^sup>*\<^sup>* s s'" "state_holds holds ts (os_ext s)"
    and "mv_dec mv = dec" "named_crds xc" "crd_kinds \<subseteq> ts"
  shows "state_holds holds ts (os_ext s')"
  using assms(1,2) by (induction rule: rtranclp_induct) (auto intro: op_step_holds[OF _ _ assms(3-5)])

end

text \<open>\<open>serve\<close>, as a parameter of \<open>main\<close>, is the running operator if it takes turns from where it starts.\<close>

definition takes_turns ::
    "(('p, 'w) op_state \<Rightarrow> ('p, 'w) op_state \<Rightarrow> bool) \<Rightarrow>
     (('p, 'w) ext_state \<Rightarrow> gerr option \<times> ('p, 'w) ext_state) \<Rightarrow> bool" where
  "takes_turns st serve \<longleftrightarrow>
     (\<forall>x. \<exists>calls. st\<^sup>*\<^sup>* \<lparr>os_ext = x, os_calls = []\<rparr> \<lparr>os_ext = snd (serve x), os_calls = calls\<rparr>)"

section \<open>The whole process\<close>

definition ends :: "('s \<Rightarrow> bool) \<Rightarrow> ('s \<Rightarrow> exit \<times> boot_step list \<times> 's) \<Rightarrow> 's \<Rightarrow> bool" where
  "ends I k s \<longleftrightarrow> I (snd (snd (k s)))"

lemma ends_step_or:
  "ends I (step_or ex st f k) s \<longleftrightarrow> (case f s of (Some e, s1) \<Rightarrow> I s1 | (None, s1) \<Rightarrow> ends I k s1)"
  by (auto simp: ends_def step_or_def split: prod.splits option.splits)

lemma ends_lib: "I s \<Longrightarrow> (o1 = None \<Longrightarrow> ends I k s) \<Longrightarrow> ends I (step_or ex st (lib o1) k) s"
  by (cases o1) (simp_all add: ends_step_or lib_def)

lemma ends_keep:
  "I s \<Longrightarrow> (\<And>e s1. f s = (e, s1) \<Longrightarrow> I s1) \<Longrightarrow> (\<And>s1. I s1 \<Longrightarrow> ends I k s1) \<Longrightarrow> ends I (step_or ex st f k) s"
  by (auto simp: ends_step_or split: prod.splits option.splits)

lemma load_bases_fresh:
  "load_bases parse fs spec = (e, spec') \<Longrightarrow> \<forall>t g. mget spec t = Some g \<longrightarrow> g_applied g = [] \<Longrightarrow>
   mget spec' t = Some g \<Longrightarrow> g_applied g = []"
proof (induction parse fs spec rule: load_bases.induct)
  case (3 parse path content fs spec)
  show ?case
  proof (cases "path_ext path = ''.yaml''")
    case True
    show ?thesis
    proof (cases "from_yaml parse content")
      case (Inr g1)
      have "g_applied g1 = []" using Inr by (auto simp: from_yaml_def split: sum.splits list.splits option.splits)
      with 3 True Inr show ?thesis by (auto simp: mget_update)
    qed (use 3 True in auto)
  qed (use 3 in auto)
qed auto

lemma new_manager_fresh:
  "new_manager parse fs = (e, m) \<Longrightarrow> mget (em_spec m) t = Some g \<Longrightarrow> g_applied g = []"
  using load_bases_fresh[of parse fs "[]"] by (auto simp: new_manager_def split: prod.splits)

context generator_invariant
begin

lemma serve_holds:
  assumes turns: "takes_turns (op_step mv xc k hashf mp ops ac conv mmp) serve"
    and law: "mv_dec mv = dec" "named_crds xc" "crd_kinds \<subseteq> ts"
    and x: "state_holds holds ts x" "serve x = (e, x')"
  shows "state_holds holds ts x'"
proof -
  obtain calls where "(op_step mv xc k hashf mp ops ac conv mmp)\<^sup>*\<^sup>* \<lparr>os_ext = x, os_calls = []\<rparr>
      \<lparr>os_ext = snd (serve x), os_calls = calls\<rparr>"
    using turns unfolding takes_turns_def by blast
  from op_steps_holds[OF this _ law] x show ?thesis by simp
qed

lemma main_holds:
  fixes serve :: "('p, 'w) ext_state \<Rightarrow> gerr option \<times> ('p, 'w) ext_state"
  assumes main: "operator_main bo parse files mv xc order serve w = (r, log, s')"
    and turns: "takes_turns (op_step mv xc k hashf mp ops ac conv mmp) serve"
    and law: "mv_dec mv = dec" "named_crds xc" "crd_kinds \<subseteq> ts" and order: "mset order = mset crds"
    and init: "\<And>m :: 'p ext_manager. new_manager parse files = (None, m) \<Longrightarrow> gens_hold holds ts m"
  shows "writes_hold holds (es_writes s')" "BStart \<in> set log \<Longrightarrow> state_holds holds ts s'"
proof -
  have fresh: "state_holds holds ts \<lparr>es_manager = m, es_writes = [], es_world = w\<rparr>"
    if "new_manager parse files = (None, m)" for m :: "'p ext_manager" and w :: 'w
  proof -
    have "manager_ok (snd (new_manager parse files :: gerr option \<times> 'p ext_manager))" by simp
    then have "manager_ok m" unfolding that by simp
    with init[OF that] show ?thesis by (simp add: state_holds_def writes_hold_def)
  qed
  note keep = RefreshCRD_holds[OF law(1) _ _ law(2,3) from_crds_crds[OF order]] serve_holds[OF turns law]
  have weaken: "ends (\<lambda>s. writes_hold holds (es_writes s)) k s" if "ends (state_holds holds ts) k s" for k s
    using that by (simp add: ends_def state_holds_def)
  have "ends (\<lambda>s. writes_hold holds (es_writes s)) (main_steps bo parse files mv xc order serve)
      \<lparr>es_manager = \<lparr>em_spec = [], em_extensions = [], em_wasi = []\<rparr>, es_writes = [], es_world = w\<rparr>"
    unfolding main_steps_def
    apply (intro ends_lib; (simp add: writes_hold_def; fail)?)
    apply (subst ends_step_or)
    apply (simp split: prod.split option.split)
    apply (intro conjI allI impI)
    subgoal
      apply (rule weaken, frule fresh)
      apply (rule ends_lib, assumption)+
      apply (rule ends_keep, assumption, erule (1) keep(1))
      apply (rule ends_lib, assumption)+
      apply (rule ends_keep, assumption, erule (1) keep(2))
      apply (rule ends_lib, assumption)+
      apply (simp add: ends_def)
      done
    subgoal by (simp add: writes_hold_def)
    done
  then show "writes_hold holds (es_writes s')" using main by (simp add: ends_def operator_main_def)
  show "state_holds holds ts s'" if started: "BStart \<in> set log"
  proof -
    obtain m s where "new_manager parse files = (None, m)"
      "RefreshCRD (bo_client bo) mv xc order \<lparr>es_manager = m, es_writes = [], es_world = w\<rparr> = (None, s)"
      "s' = snd (serve s)"
      using main_started[OF main started] by blast
    with keep(1)[OF _ fresh] keep(2) show ?thesis by (metis prod.collapse)
  qed
qed

end

section \<open>What every run of the operator keeps\<close>

text \<open>
  C3: Whatever happens while the operator runs (extensions installed, changed and removed in any order,
  calls that fail, applications reconciled in between, others changing the cluster) every resource
  definition it ever writes has a schema that extends the schema of the base resource: all
  definitions of the base are there, with their types and all other fields.
\<close>

theorem published_schemas_extend_base:
  fixes serve :: "('p, 'w) ext_state \<Rightarrow> gerr option \<times> ('p, 'w) ext_state" and m0 :: "'p ext_manager"
  assumes "operator_main bo parse files mv xc order serve w = (r, log, s')"
    and "takes_turns (op_step mv xc k hashf mp ops ac conv mmp) serve"
    and "mset order = mset crds" "named_crds xc"
    and loaded: "new_manager parse files = (None, m0)"
    and bases: "\<forall>t \<in> crd_kinds. \<exists>g bspec. mget (em_spec m0) t = Some g \<and> g_schema g = Some (base t) \<and>
      mget (props_of (base t)) ''spec'' = Some bspec \<and> no_empty_top bspec"
    and wr: "wr \<in> set (es_writes s')" "written_crd wr = Some c"
  shows "\<exists>def sch. mget crds (crd_name c) = Some def \<and> crd_schema c = Inr (Some sch) \<and> grows (base (cd_kind def)) sch"
proof -
  have "gens_hold (keeps_base (mv_dec mv) (\<lambda>t. Some (base t))) crd_kinds m" if "new_manager parse files = (None, m)"
    for m :: "'p ext_manager"
  proof -
    have [simp]: "m = m0" using that loaded by simp
    have "\<exists>g. mget (em_spec m0) t = Some g \<and> keeps_base (mv_dec mv) (\<lambda>t. Some (base t)) t g" if t: "t \<in> crd_kinds" for t
    proof -
      obtain g where g: "mget (em_spec m0) t = Some g" "g_schema g = Some (base t)" using bases t by blast
      from base_kept_start[OF g(2) new_manager_fresh[OF loaded g(1)]] g(1) show ?thesis
        by (auto simp: keeps_base_def)
    qed
    then show ?thesis by (simp add: gens_hold_def)
  qed
  from keeps_base.main_holds(1)[OF assms(1,2) refl assms(4) subset_refl assms(3) this]
  have "crd_holds (keeps_base (mv_dec mv) (\<lambda>t. Some (base t))) c" using wr by (auto simp: writes_hold_def)
  then obtain def g where def: "mget crds (crd_name c) = Some def" "crd_schema c = Inr (g_schema g)"
    and kept: "keeps_base (mv_dec mv) (\<lambda>t. Some (base t)) (cd_kind def) g" by (auto simp: crd_holds_def)
  from crds_kind[OF def(1)] bases obtain bspec where
    "mget (props_of (base (cd_kind def))) ''spec'' = Some bspec" "no_empty_top bspec" by blast
  with kept have "base_kept (mv_dec mv) (base (cd_kind def)) bspec g" by (simp add: keeps_base_def)
  with def show ?thesis by (auto elim!: base_keptD)
qed


section \<open>When serving starts\<close>

lemma add_listed_registers:
  assumes "add_listed mv xs s = (None, s')" "distinct (map ex_name xs)" "manager_ok (es_manager s)"
  shows "manager_ok (es_manager s') \<and>
    (\<forall>x \<in> set xs. es_targets (ex_spec x) \<noteq> [] \<longrightarrow>
       (\<exists>v. mget (em_extensions (es_manager s')) (ex_name x) = Some v \<and> mg_ext v = x) \<and>
       (\<forall>t \<in> set (es_targets (ex_spec x)). ex_name x \<in> applied_in (es_manager s') t)) \<and>
    (\<forall>n. n \<notin> ex_name ` set xs \<longrightarrow> mget (em_extensions (es_manager s')) n = mget (em_extensions (es_manager s)) n \<and>
       (\<forall>t. n \<in> applied_in (es_manager s') t \<longleftrightarrow> n \<in> applied_in (es_manager s) t))"
  using assms
proof (induction xs arbitrary: s)
  case (Cons x xs)
  obtain m1 where add: "manager_add mv x (es_manager s) = (None, m1)"
    and rest: "add_listed mv xs (s\<lparr>es_manager := m1\<rparr>) = (None, s')"
    using Cons.prems(1) by (auto simp: call_manager_def split: prod.splits option.splits)
  have ok: "manager_ok m1" using manager_add_ok[OF add Cons.prems(3)] .
  have new: "x \<notin> set xs" "ex_name x \<notin> ex_name ` set xs" "distinct (map ex_name xs)" using Cons.prems(2) by auto
  note IH = Cons.IH[OF rest new(3)] ok
  have frame: "mget (em_extensions m1) n = mget (em_extensions (es_manager s)) n \<and>
      (\<forall>t. n \<in> applied_in m1 t \<longleftrightarrow> n \<in> applied_in (es_manager s) t)" if "n \<noteq> ex_name x" for n
    using add_targets_frame[OF add[unfolded manager_add_def]] that by blast
  have here: "(\<exists>v. mget (em_extensions m1) (ex_name x) = Some v \<and> mg_ext v = x) \<and>
      (\<forall>t \<in> set (es_targets (ex_spec x)). ex_name x \<in> applied_in m1 t)" if "es_targets (ex_spec x) \<noteq> []"
    using add_targets_ok[OF add[unfolded manager_add_def] that] by blast
  show ?case using IH(1) IH(2) here frame new(2) by simp
qed simp


section \<open>A concrete run\<close>

text \<open>
  Two definition files, read as themselves, a cluster with one extension, and an operator that is told
  to stop after it has reconciled that extension once.
\<close>

definition ex_files :: "(gerr + string \<times> (gerr + crd_file)) list" where
  "ex_files = [Inr (''bases/suffiks.com_applications.yaml'', Inr (ex_crd_file ''Application'')),
     Inr (''bases/suffiks.com_works.yaml'', Inr (ex_crd_file ''Work''))]"

definition ex_base_manager :: "string ext_manager" where
  "ex_base_manager = \<lparr>em_spec = [(''Application'', ex_generator), (''Work'', ex_generator\<lparr>g_kind := ''Work''\<rparr>)],
     em_extensions = [], em_wasi = []\<rparr>"

definition ex_boot :: boot_env where
  "ex_boot = \<lparr>bo_config = None, bo_manager = None, bo_dynamic = None, bo_metrics = None, bo_extClient = None,
     bo_extController = None, bo_appController = None, bo_extWebhook = None, bo_appWebhook = None,
     bo_healthz = None, bo_readyz = None, bo_client = None, bo_tracing = None, bo_shutdown = None\<rparr>"

definition ex_serve :: "(string, unit) ext_state \<Rightarrow> gerr option \<times> (string, unit) ext_state" where
  "ex_serve s = (None, snd (ext_reconcile ex_menv (ex_cluster ex_installed) crds ('''', ''ingress'') s))"

abbreviation ex_main :: "exit \<times> boot_step list \<times> (string, unit) ext_state" where
  "ex_main \<equiv> operator_main ex_boot Inr ex_files ex_menv (ex_cluster ex_installed) crds ex_serve ()"

lemma ex_loaded: "new_manager Inr ex_files = (None, ex_base_manager)"
  by code_simp

lemma ex_bases: "\<forall>t \<in> crd_kinds. \<exists>g bspec. mget (em_spec ex_base_manager) t = Some g \<and> g_schema g = Some (the (g_schema ex_generator)) \<and>
    mget (props_of (the (g_schema ex_generator))) ''spec'' = Some bspec \<and> no_empty_top bspec \<and> generator_ok g"
  by (simp add: ex_base_manager_def ex_generator_def no_empty_top_def ex_leaf_def empty_object_def generator_ok_def gomap_ok_def)

lemma ex_takes_turns: "takes_turns (op_step ex_menv (ex_cluster ex_installed) k hashf mp ops ac conv mmp) ex_serve"
  unfolding takes_turns_def
proof
  fix x :: "(string, unit) ext_state"
  have "op_step ex_menv (ex_cluster ex_installed) k hashf mp ops ac conv mmp \<lparr>os_ext = x, os_calls = []\<rparr>
      (\<lparr>os_ext = x, os_calls = []\<rparr>\<lparr>os_ext := snd (ex_serve x)\<rparr>)"
    by (rule extension_event[where order = crds and key = "('''', ''ingress'')" and
        e = "fst (ext_reconcile ex_menv (ex_cluster ex_installed) crds ('''', ''ingress'') x)"])
      (simp_all add: ex_serve_def)
  then show "\<exists>calls. (op_step ex_menv (ex_cluster ex_installed) k hashf mp ops ac conv mmp)\<^sup>*\<^sup>*
      \<lparr>os_ext = x, os_calls = []\<rparr> \<lparr>os_ext = snd (ex_serve x), os_calls = calls\<rparr>"
    by (intro exI[of _ "[]"]) (simp add: r_into_rtranclp)
qed

lemma ex_named: "named_crds (ex_cluster x)"
  by (simp add: named_crds_def ex_cluster_def createAppCRD_def)

lemma ex_base_add:
  "manager_add ex_menv ex_installed ex_base_manager = (None, snd (manager_add ex_menv ex_installed ex_base_manager))"
proof -
  have init: "grpc_init ex_installed gc = Inr \<lparr>mg_ext = ex_installed, mg_rootKeys = [''a''], mg_backend = BGrpc (grpc_target gc)\<rparr>" for gc
    by (simp add: grpc_init_def ex_ingress_def ex_extension_def root_keys_def lower_char_def is_upper_letter_def)
  show ?thesis
    unfolding manager_add_def add_target_def ex_installed_simps ex_ingress_simps add_targets.simps addGRPC_def init
    using ex_generator_add[of "es_schema (ex_spec ex_ingress)"]
    by (auto simp: ex_menv_def ex_base_manager_def Let_def split: prod.splits option.splits)
qed

lemma publish_crds_writes: "set (es_writes s) \<subseteq> set (es_writes (snd (publish_crds xc ds s)))"
proof (induction xc ds s rule: publish_crds.induct)
  case (2 xc name def ds s)
  obtain r w1 where get: "xc_getCRD xc name (es_world s) = (r, w1)" by (metis surj_pair)
  show ?case
  proof (cases r)
    case (Inr c)
    show ?thesis
    proof (cases "crd_schema c")
      case (Inr cur)
      with 2 get \<open>r = Inr c\<close> show ?thesis
        by (fastforce simp: Let_def ext_write_by_def split: prod.splits option.splits)
    qed (simp add: get Inr Let_def)
  qed (simp add: get)
qed simp

lemma ext_reconcile_writes: "set (es_writes s) \<subseteq> set (es_writes (snd (ext_reconcile mv xc ds key s)))"
proof -
  have applied: "set (es_writes s) \<subseteq> set (es_writes (snd (ext_apply mv xc ds x s)))" for x s
    using publish_crds_writes[of "snd (call_manager (manager_add mv x) s)" xc ds]
    by (auto simp: ext_apply_def call_manager_def ext_write_by_def Let_def split: prod.splits option.splits)
  have removed: "set (es_writes s) \<subseteq> set (es_writes (snd (ext_remove mv xc x s)))" for x s
    by (auto simp: ext_remove_def call_manager_def ext_write_by_def Let_def split: prod.splits option.splits)
  obtain r w1 where get: "xc_get xc key (es_world s) = (r, w1)" by (metis surj_pair)
  show ?thesis
  proof (cases r)
    case (Inr x)
    let ?x = "set_finalizers (om_finalizers (ex_meta x) @ [ext_finalizer]) x"
    obtain e w2 where "xc_update xc ?x w1 = (e, w2)" by (metis surj_pair)
    then show ?thesis
      using applied[of "s\<lparr>es_world := w1\<rparr>" x] removed[of "s\<lparr>es_world := w1\<rparr>" x]
        applied[of "s\<lparr>es_writes := es_writes s @ [WExtension ?x e], es_world := w2\<rparr>" ?x]
      by (cases e) (auto simp: ext_reconcile_def get Inr Let_def ext_write_by_def)
  qed (simp add: ext_reconcile_def get)
qed

lemma ex_main_run:
  "\<exists>log s' c. ex_main = (Returned, log, s') \<and> BStart \<in> set log \<and> WUpdateCRD c None \<in> set (es_writes s')"
proof -
  obtain m1 where add: "manager_add ex_menv ex_installed ex_base_manager = (None, m1)" using ex_base_add by blast
  have "\<exists>s c. RefreshCRD None ex_menv (ex_cluster ex_installed) crds
      \<lparr>es_manager = ex_base_manager, es_writes = [], es_world = ()\<rparr> = (None, s) \<and> WUpdateCRD c None \<in> set (es_writes s)"
    using add by (simp add: RefreshCRD_def call_manager_def ex_cluster_def createAppCRD_def crd_version_of_def crd_schema_def
        ext_write_by_def Let_def crds_def) blast
  then obtain s c where ref: "RefreshCRD None ex_menv (ex_cluster ex_installed) crds
      \<lparr>es_manager = ex_base_manager, es_writes = [], es_world = ()\<rparr> = (None, s)" and c: "WUpdateCRD c None \<in> set (es_writes s)"
    by blast
  have "WUpdateCRD c None \<in> set (es_writes (snd (ex_serve s)))"
    using ext_reconcile_writes c unfolding ex_serve_def by fastforce
  with ref show ?thesis
    by (simp add: operator_main_def main_steps_def step_or_def lib_def ex_loaded ex_serve_def ex_boot_def) blast
qed

theorem published_schemas_extend_base_witness:
  "\<exists>log s' c sch. ex_main = (Returned, log, s') \<and> WUpdateCRD c None \<in> set (es_writes s') \<and>
     crd_schema c = Inr (Some sch) \<and> grows (the (g_schema ex_generator)) sch"
proof -
  obtain log s' c where run: "ex_main = (Returned, log, s')" "WUpdateCRD c None \<in> set (es_writes s')"
    using ex_main_run by blast
  have "\<exists>def sch. mget crds (crd_name c) = Some def \<and> crd_schema c = Inr (Some sch) \<and> grows (the (g_schema ex_generator)) sch"
    using published_schemas_extend_base[OF run(1) ex_takes_turns refl ex_named ex_loaded _ run(2),
        where base = "\<lambda>t. the (g_schema ex_generator)"] ex_bases by fastforce
  with run show ?thesis by blast
qed



end
