(* ===== verification/Tracing.thy ===== *)
theory Tracing
  imports Startup
begin

text \<open>
  \<open>internal/tracing\<close>: the tracing provider of the process, its set-up from the build
  information, and its shutdown. The exporter, the tracer provider and the globals of the
  OpenTelemetry library are parameters; a provider is what it was made from.
\<close>

section \<open>State\<close>

datatype attr = AStr string | ABool bool

record 'e trace_provider =
  tp_exporter :: 'e
  tp_schemaURL :: string
  tp_attributes :: "(string \<times> attr) list"

text \<open>A tracer: the no-op one the package starts with, or one of a provider, with its name.\<close>

datatype 'e tracer = NoopTracer string | TracerOf "'e trace_provider" string

text \<open>
  The two variables of the package and what it sets in \<open>otel\<close>: the propagator, the logger (by
  name), whether the error handler is the package's, and the provider.
\<close>

record 'e tracing =
  tr_tracer :: "'e tracer"
  tr_provider :: "'e trace_provider option"
  ot_propagator :: "string option"
  ot_logger :: "string option"
  ot_errorHandler :: bool
  ot_provider :: "'e trace_provider option"

definition tracing_start :: "'e tracing" where
  "tracing_start = \<lparr>tr_tracer = NoopTracer ''noop'', tr_provider = None, ot_propagator = None,
     ot_logger = None, ot_errorHandler = False, ot_provider = None\<rparr>"

section \<open>Operations\<close>

text \<open>The loop over the settings of \<open>debug.ReadBuildInfo\<close>: the revision and whether it is modified.\<close>

fun build_settings :: "(string \<times> string) list \<Rightarrow> string \<times> bool \<Rightarrow> string \<times> bool" where
  "build_settings [] acc = acc"
| "build_settings ((key, value) # settings) (revision, dirty) =
     build_settings settings
       (if key = ''vcs.revision'' then (value, dirty)
        else if key = ''vcs.modified'' then (revision, value = ''true'')
        else (revision, dirty))"

definition build_version :: "(string \<times> string) list option \<Rightarrow> string \<times> bool" where
  "build_version info = (case info of None \<Rightarrow> (''unknown'', True)
     | Some settings \<Rightarrow> build_settings settings (''unknown'', True))"

definition tracer_attributes :: "(string \<times> string) list option \<Rightarrow> (string \<times> attr) list" where
  "tracer_attributes info = (case build_version info of (revision, dirty) \<Rightarrow>
     [(''service.name'', AStr ''suffiks''), (''service.version'', AStr revision)]
     @ (if dirty then [(''modified'', ABool True)] else []))"

text \<open>
  \<open>Provider\<close>. \<open>exporter\<close> is the answer of \<open>otlptrace.New\<close> with no options, \<open>schemaURL\<close> the
  constant of the library, \<open>log\<close> the name of the logger.
\<close>

definition tracing_Provider :: "string \<Rightarrow> (string \<times> string) list option \<Rightarrow> (gerr + 'e) \<Rightarrow> string \<Rightarrow> 'e tracing
    \<Rightarrow> gerr option \<times> 'e tracing" where
  "tracing_Provider schemaURL info exporter log t =
     (case exporter of
        Inl e \<Rightarrow> (Some e, t)
      | Inr x \<Rightarrow>
          (let p = \<lparr>tp_exporter = x, tp_schemaURL = schemaURL, tp_attributes = tracer_attributes info\<rparr>
           in (None, t\<lparr>tr_provider := Some p, ot_propagator := Some ''TraceContext'',
                       ot_logger := Some (log @ ''.otel-proivder''), ot_errorHandler := True,
                       ot_provider := Some p, tr_tracer := TracerOf p ''suffiks''\<rparr>)))"

text \<open>\<open>Shutdown\<close>, with the provider's own \<open>Shutdown\<close> as a parameter.\<close>

definition tracing_Shutdown :: "('e trace_provider \<Rightarrow> gerr option) \<Rightarrow> 'e tracing \<Rightarrow> gerr option" where
  "tracing_Shutdown stop t = (case tr_provider t of None \<Rightarrow> None | Some p \<Rightarrow> stop p)"

text \<open>\<open>Start\<close>: the tracer that makes the span, with the span's name; \<open>Get\<close> reads the context.\<close>

definition tracing_Start :: "'e tracing \<Rightarrow> string \<Rightarrow> 'e tracer \<times> string" where
  "tracing_Start t name = (tr_tracer t, name)"

section \<open>Properties\<close>

text \<open>The last setting with a key is the one that counts, wherever it stands.\<close>

lemma build_settings_last:
  "build_settings settings (r, d) =
     (case map_of (rev settings) ''vcs.revision'' of None \<Rightarrow> r | Some v \<Rightarrow> v,
      case map_of (rev settings) ''vcs.modified'' of None \<Rightarrow> d | Some v \<Rightarrow> v = ''true'')"
proof (induction settings arbitrary: r d)
  case (Cons kv settings)
  obtain k v where "kv = (k, v)" by fastforce
  then show ?case by (auto simp: Cons.IH map_add_def split: option.splits)
qed simp

text \<open>Without build information, or without the settings of a version control, the build counts as modified.\<close>

lemma unknown_build_is_modified:
  "''vcs.modified'' \<notin> fst ` set (case info of None \<Rightarrow> [] | Some settings \<Rightarrow> settings) \<Longrightarrow>
   (''modified'', ABool True) \<in> set (tracer_attributes info)"
proof (cases info)
  case (Some settings)
  assume "''vcs.modified'' \<notin> fst ` set (case info of None \<Rightarrow> [] | Some settings \<Rightarrow> settings)"
  then have "map_of (rev settings) ''vcs.modified'' = None" by (simp add: Some map_of_eq_None_iff)
  then show ?thesis by (simp add: tracer_attributes_def build_version_def build_settings_last Some)
qed (simp add: tracer_attributes_def build_version_def)

definition tracing_ok :: "'e tracing \<Rightarrow> bool" where
  "tracing_ok t \<longleftrightarrow> ot_provider t = tr_provider t \<and>
     (case tr_provider t of None \<Rightarrow> t = tracing_start
      | Some p \<Rightarrow> tr_tracer t = TracerOf p ''suffiks'' \<and> ot_errorHandler t)"

lemma tracing_start_ok [go_inv]: "tracing_ok tracing_start"
  by (simp add: tracing_ok_def tracing_start_def)

text \<open>The package and the library agree on the provider, before and after every call.\<close>

lemma tracing_Provider_ok [go_inv]: "tracing_ok t \<Longrightarrow> tracing_ok (snd (tracing_Provider u info x log t))"
  by (cases x) (simp_all add: tracing_Provider_def tracing_ok_def Let_def)

lemma tracing_Provider_error_changes_nothing: "tracing_Provider u info x log t = (Some e, t') \<Longrightarrow> t' = t \<and> x = Inl e"
  by (auto simp: tracing_Provider_def Let_def split: sum.splits)

text \<open>
  In \<open>main\<close> the error of \<open>Provider\<close> ends the process before it serves, and \<open>Shutdown\<close> stops the
  provider that \<open>Provider\<close> made: with the answers of the tracing package as those of its steps,
  a run that returns has stopped it.
\<close>

definition ends_after :: "boot_step \<Rightarrow> exit \<Rightarrow> ('s \<Rightarrow> exit \<times> boot_step list \<times> 's) \<Rightarrow> 's \<Rightarrow> 's \<Rightarrow> bool" where
  "ends_after x r k s s' \<longleftrightarrow> (\<exists>l. k s = (r, l, s') \<and> x \<in> set l)"

lemma ends_after_step_or:
  "x \<noteq> st \<Longrightarrow> ends_after x r (step_or ex st f k) s s' \<longleftrightarrow> (\<exists>s1. f s = (None, s1) \<and> ends_after x r k s1 s')"
  by (auto simp: ends_after_def step_or_def split: prod.splits option.splits)

lemma shutdown_stops_the_provider:
  assumes "tracing_Provider u info x log tracing_start = (bo_tracing bo, t)" "bo_shutdown bo = tracing_Shutdown stop t"
    and "main_steps bo parse files mv xc order serve s = (r, l, s')" "BShutdown \<in> set l"
  shows "\<exists>p. tr_provider t = Some p \<and> tp_attributes p = tracer_attributes info
    \<and> (r = Returned \<longleftrightarrow> stop p = None)"
proof -
  have "ends_after BShutdown r (main_steps bo parse files mv xc order serve) s s'"
    using assms(3,4) by (auto simp: ends_after_def)
  then obtain s2 where tr: "bo_tracing bo = None"
    and rest: "ends_after BShutdown r (or_exit ''problem shutting down tracer provider'' BShutdown
      (lib (bo_shutdown bo)) (\<lambda>s. (Returned, [], s))) s2 s'"
    unfolding main_steps_def by (simp only: ends_after_step_or boot_step.distinct simp_thms lib_eq not_False_eq_True) blast
  from assms(1) tr obtain p where p: "tr_provider t = Some p" "tp_attributes p = tracer_attributes info"
    by (cases x) (auto simp: tracing_Provider_def Let_def)
  have "bo_shutdown bo = stop p" using assms(2) p(1) by (simp add: tracing_Shutdown_def)
  then have ends: "r = Returned \<longleftrightarrow> stop p = None"
    using rest by (cases "stop p") (auto simp: ends_after_def step_or_def lib_def)
  show ?thesis by (rule exI [of _ p]) (intro conjI p ends)
qed

end
