(* ===== verification/Ext_Serve.thy ===== *)
theory Ext_Serve
  imports Sdk_Facts Tracing
begin

text \<open>
  \<open>Serve\<close> of \<open>extension/server.go\<close>: what it does before it serves, and its two goroutines in an
  \<open>errgroup\<close>, one in \<open>grpc.Server.Serve\<close> and one that waits for the end of the context and then
  stops the server. Of the gRPC server the steps are those its documentation names: \<open>Serve\<close>
  returns an error when accepting fails, nil once the server was stopped, and
  \<open>grpc.ErrServerStopped\<close> when it is called after that; \<open>GracefulStop\<close> refuses new calls and
  returns when the last open call has ended.
\<close>

section \<open>Set-up\<close>

text \<open>
  The listener, the tracing state and the pages \<open>Serve\<close> goes on with. An error leaves a
  listener behind when it comes after \<open>net.Listen\<close>: the second component says whether one is open.
\<close>

definition serve_setup ::
    "(string \<Rightarrow> gerr + 'l) \<Rightarrow> config_spec \<Rightarrow> ('t \<Rightarrow> gerr option \<times> 't) \<Rightarrow>
     (gerr + string \<times> bool \<times> (gerr + string)) list option \<Rightarrow> 't \<Rightarrow> (gerr + 'l \<times> string list) \<times> bool \<times> 't" where
  "serve_setup listen config provider doc t =
     (case listen (getListenAddress config) of
        Inl e \<Rightarrow> (Inl (EWrap ''failed to listen'' e), False, t)
      | Inr lis \<Rightarrow>
          (case (if tracing_enabled config then provider t else (None, t)) of
             (Some e, t1) \<Rightarrow> (Inl e, True, t1)
           | (None, t1) \<Rightarrow>
               (case (case doc of None \<Rightarrow> Inr [] | Some walk \<Rightarrow> serve_pages walk) of
                  Inl e \<Rightarrow> (Inl e, True, t1)
                | Inr pages \<Rightarrow> (Inr (lis, pages), True, t1))))"

lemma setup_error_leaks_listener:
  assumes "listen (getListenAddress config) = Inr lis" "serve_setup listen config provider doc t = (Inl e, x, t')"
  shows "x"
  using assms by (auto simp: serve_setup_def split: prod.splits option.splits sum.splits if_splits)

text \<open>
  \<open>NewServer\<close>: the server's record. \<open>vext\<close> and \<open>dext\<close> are the outcomes of the type assertions
  for the two optional interfaces, \<open>inst\<close> is \<open>instance[T]()\<close>.
\<close>

definition NewServer where
  "NewServer dec enc zero inst sync delete vext dext pages =
     (\<lparr>xe_decode = dec, xe_encode = enc, xe_zero = zero, xe_instance = inst, xe_sync = sync,
       xe_delete = delete, xe_validate = vext, xe_default = dext\<rparr> :: ('o, 'w) sdk_extension, pages :: string list)"

section \<open>The goroutines\<close>

datatype serving = SvIdle | SvServing | SvDone "gerr option"
datatype stopper = SpWaiting | SpStopping | SpDone

record serve_state =
  ss_serving :: serving
  ss_stopper :: stopper
  ss_cancelled :: bool
  ss_first :: "gerr option"
  ss_open :: nat

definition serve_start :: serve_state where
  "serve_start = \<lparr>ss_serving = SvIdle, ss_stopper = SpWaiting, ss_cancelled = False,
     ss_first = None, ss_open = 0\<rparr>"

text \<open>The context of the group is done when the caller's is, or when a function has failed.\<close>

definition ctx_done :: "serve_state \<Rightarrow> bool" where
  "ctx_done s \<longleftrightarrow> ss_cancelled s \<or> ss_first s \<noteq> None"

definition ErrServerStopped :: gerr where
  "ErrServerStopped = EMsg ''grpc: the server has been stopped''"

text \<open>The function of the first goroutine returns: the group keeps the first error.\<close>

definition serve_returns :: "gerr option \<Rightarrow> serve_state \<Rightarrow> serve_state" where
  "serve_returns e s = s\<lparr>ss_serving := SvDone e,
     ss_first := (case ss_first s of None \<Rightarrow> e | Some x \<Rightarrow> Some x)\<rparr>"

inductive serve_step :: "serve_state \<Rightarrow> serve_state \<Rightarrow> bool" where
  cancel: "\<not> ss_cancelled s \<Longrightarrow> serve_step s (s\<lparr>ss_cancelled := True\<rparr>)"
| serve: "ss_serving s = SvIdle \<Longrightarrow> ss_stopper s = SpWaiting \<Longrightarrow> serve_step s (s\<lparr>ss_serving := SvServing\<rparr>)"
| serve_late: "ss_serving s = SvIdle \<Longrightarrow> ss_stopper s \<noteq> SpWaiting \<Longrightarrow>
    serve_step s (serve_returns (Some ErrServerStopped) s)"
| accept: "ss_serving s = SvServing \<Longrightarrow> ss_stopper s = SpWaiting \<Longrightarrow>
    serve_step s (s\<lparr>ss_open := Suc (ss_open s)\<rparr>)"
| accept_fails: "ss_serving s = SvServing \<Longrightarrow> ss_stopper s = SpWaiting \<Longrightarrow>
    serve_step s (serve_returns (Some e) s)"
| serve_ends: "ss_serving s = SvServing \<Longrightarrow> ss_stopper s \<noteq> SpWaiting \<Longrightarrow> serve_step s (serve_returns None s)"
| call_ends: "ss_open s = Suc n \<Longrightarrow> serve_step s (s\<lparr>ss_open := n\<rparr>)"
| graceful_stop: "ss_stopper s = SpWaiting \<Longrightarrow> ctx_done s \<Longrightarrow> serve_step s (s\<lparr>ss_stopper := SpStopping\<rparr>)"
| stopped: "ss_stopper s = SpStopping \<Longrightarrow> ss_open s = 0 \<Longrightarrow> serve_step s (s\<lparr>ss_stopper := SpDone\<rparr>)"

text \<open>\<open>g.Wait()\<close>: both functions have returned; the result is the first error.\<close>

definition serve_result :: "serve_state \<Rightarrow> gerr option option" where
  "serve_result s = (case (ss_serving s, ss_stopper s) of (SvDone e, SpDone) \<Rightarrow> Some (ss_first s) | _ \<Rightarrow> None)"

section \<open>Invariant\<close>

definition serve_inv :: "serve_state \<Rightarrow> bool" where
  "serve_inv s \<longleftrightarrow>
     (case ss_serving s of SvDone e \<Rightarrow> ss_first s = e | _ \<Rightarrow> ss_first s = None)
     \<and> (ss_stopper s \<noteq> SpWaiting \<longrightarrow> ctx_done s)
     \<and> (ss_serving s = SvIdle \<longrightarrow> ss_open s = 0)
     \<and> (ss_serving s = SvDone None \<longrightarrow> ss_cancelled s)
     \<and> (ss_stopper s = SpDone \<longrightarrow> ss_open s = 0)"

lemma serve_inv_step [go_inv]: "serve_step s s' \<Longrightarrow> serve_inv s \<Longrightarrow> serve_inv s'"
  by (induction rule: serve_step.induct)
    (auto simp: serve_inv_def serve_returns_def ctx_done_def split: serving.splits)

lemma serve_inv_reach: "serve_step\<^sup>*\<^sup>* serve_start s \<Longrightarrow> serve_inv s"
proof (induction rule: rtranclp_induct)
  case base
  show ?case by (simp add: serve_inv_def serve_start_def)
next
  case (step s s')
  then show ?case by (blast intro: serve_inv_step)
qed

section \<open>Ending\<close>

text \<open>
  Once the server is being stopped no call is accepted any more, and what is left to happen is
  bounded: the two functions, the open calls, and the caller's cancellation.
\<close>

definition serve_weight :: "serve_state \<Rightarrow> nat" where
  "serve_weight s = ss_open s + (case ss_serving s of SvDone _ \<Rightarrow> 0 | _ \<Rightarrow> 1)
     + (if ss_stopper s = SpDone then 0 else 1) + (if ss_cancelled s then 0 else 1)"

lemma stopping_step:
  "serve_step s s' \<Longrightarrow> ss_stopper s \<noteq> SpWaiting \<Longrightarrow> ss_stopper s' \<noteq> SpWaiting \<and> serve_weight s' < serve_weight s"
  by (induction rule: serve_step.induct)
    (auto simp: serve_weight_def serve_returns_def split: serving.splits)

lemma stopping_progress:
  assumes "ss_stopper s \<noteq> SpWaiting" "serve_result s = None"
  shows "\<exists>s'. serve_step s s'"
proof (cases "ss_serving s")
  case (SvDone e)
  with assms have "ss_stopper s = SpStopping"
    by (cases "ss_stopper s") (auto simp: serve_result_def)
  then show ?thesis
    by (cases "ss_open s") (blast intro: serve_step.stopped serve_step.call_ends)+
qed (use assms in \<open>blast intro: serve_step.intros\<close>)+

text \<open>A stopped server comes to an end in every run, after at most \<open>serve_weight\<close> steps.\<close>

lemma stopping_ends:
  assumes "ss_stopper s \<noteq> SpWaiting" "(serve_step ^^ n) s s'"
  shows "n \<le> serve_weight s"
  using assms
proof (induction n arbitrary: s)
  case (Suc n)
  then obtain t where t: "serve_step s t" "(serve_step ^^ n) t s'"
    by (metis relpowp_Suc_D2)
  then show ?case using stopping_step [OF t(1) Suc.prems(1)] Suc.IH by fastforce
qed simp

lemma ends_from_stopping:
  "ss_stopper s \<noteq> SpWaiting \<Longrightarrow> \<exists>s'. serve_step\<^sup>*\<^sup>* s s' \<and> serve_result s' \<noteq> None"
proof (induction "serve_weight s" arbitrary: s rule: less_induct)
  case less
  show ?case
  proof (cases "serve_result s = None")
    case True
    then obtain t where "serve_step s t" using stopping_progress less.prems by blast
    with less.hyps [of t] stopping_step [OF this less.prems] show ?thesis
      by (meson converse_rtranclp_into_rtranclp)
  qed auto
qed

text \<open>When its context is done, the server can be stopped and come to its end.\<close>

lemma done_can_end:
  assumes "serve_step\<^sup>*\<^sup>* serve_start s" "ctx_done s"
  shows "\<exists>s' r. serve_step\<^sup>*\<^sup>* s s' \<and> serve_result s' = Some r"
proof (cases "ss_stopper s = SpWaiting")
  case True
  let ?t = "s\<lparr>ss_stopper := SpStopping\<rparr>"
  have "serve_step s ?t" by (rule serve_step.graceful_stop [OF True assms(2)])
  moreover obtain s' where "serve_step\<^sup>*\<^sup>* ?t s'" "serve_result s' \<noteq> None"
    using ends_from_stopping [of ?t] by auto
  ultimately show ?thesis by (blast intro: converse_rtranclp_into_rtranclp)
qed (use ends_from_stopping in blast)

text \<open>
  \<open>Serve\<close> returns only when no call is open any more, and what it returns is what
  \<open>grpc.Server.Serve\<close> returned; it is nil only in a run whose caller had cancelled the context.
\<close>

lemma serve_ends_gracefully:
  assumes "serve_step\<^sup>*\<^sup>* serve_start s" "serve_result s = Some r"
  shows "ss_open s = 0 \<and> ss_serving s = SvDone r \<and> (r = None \<longrightarrow> ss_cancelled s)"
  using serve_inv_reach [OF assms(1)] assms(2)
  by (auto simp: serve_inv_def serve_result_def split: serving.splits stopper.splits)

text \<open>
  A cancellation that comes before the first goroutine runs makes \<open>Serve\<close> return an error,
  although it was asked to stop.
\<close>

lemma early_cancel_is_an_error:
  "\<exists>s. serve_step\<^sup>*\<^sup>* serve_start s \<and> serve_result s = Some (Some ErrServerStopped)"
proof -
  let ?a = "serve_start\<lparr>ss_cancelled := True\<rparr>" and ?b = "serve_start\<lparr>ss_cancelled := True, ss_stopper := SpStopping\<rparr>"
  let ?c = "serve_start\<lparr>ss_cancelled := True, ss_stopper := SpDone\<rparr>"
  have "serve_step serve_start ?a" by (rule serve_step.cancel) (simp add: serve_start_def)
  moreover have "serve_step ?a ?b"
    using serve_step.graceful_stop [of ?a] by (simp add: serve_start_def ctx_done_def)
  moreover have "serve_step ?b ?c" using serve_step.stopped [of ?b] by (simp add: serve_start_def)
  moreover have "serve_step ?c (serve_returns (Some ErrServerStopped) ?c)"
    by (rule serve_step.serve_late) (simp_all add: serve_start_def)
  moreover have "serve_result (serve_returns (Some ErrServerStopped) ?c) = Some (Some ErrServerStopped)"
    by (simp add: serve_result_def serve_returns_def serve_start_def)
  ultimately show ?thesis by (meson converse_rtranclp_into_rtranclp rtranclp.rtrancl_refl)
qed

end
