(* ===== verification/Go_Store.thy ===== *)
theory Go_Store
  imports Prelude "HOL-Library.Monad_Syntax"
begin

text \<open>
  An explicit store for the code whose point is aliasing: Go slices and pointers as addresses
  into a memory of arrays. A pointer is a place in an array (\<open>new(T)\<close> makes an array of one
  element), a slice an array with an offset and a length, so two slices may share an array.
  Below the store stand what a deep copy promises, as the locale \<open>deep_copier\<close>, and the
  two ways in which a deep copy of a part becomes one of the whole: through a slice and
  through a pointer.
\<close>

section \<open>Memory\<close>

record 'c store =
  st_mem :: "nat \<Rightarrow> 'c list option"
  st_next :: nat

datatype gslice = SNil | SArr nat nat nat
datatype gptr = PNil | PLoc nat nat

definition store_ok :: "'c store \<Rightarrow> bool" where
  "store_ok s \<longleftrightarrow> (\<forall>a \<ge> st_next s. st_mem s a = None)"

definition alloc :: "'c list \<Rightarrow> 'c store \<Rightarrow> nat \<times> 'c store" where
  "alloc cs s = (st_next s, s\<lparr>st_mem := (st_mem s)(st_next s \<mapsto> cs), st_next := Suc (st_next s)\<rparr>)"

definition load :: "'c store \<Rightarrow> nat \<Rightarrow> nat \<Rightarrow> 'c option" where
  "load s a i = (case st_mem s a of None \<Rightarrow> None
                 | Some cs \<Rightarrow> if i < length cs then Some (cs ! i) else None)"

definition put :: "nat \<Rightarrow> nat \<Rightarrow> 'c \<Rightarrow> 'c store \<Rightarrow> 'c store option" where
  "put a i c s = (case st_mem s a of None \<Rightarrow> None
                  | Some cs \<Rightarrow> if i < length cs
                               then Some (s\<lparr>st_mem := (st_mem s)(a \<mapsto> cs[i := c])\<rparr>) else None)"

text \<open>\<open>s[off : off + n]\<close>, and the write of that many elements from index 0 (\<open>copy\<close>).\<close>

definition load_range :: "'c store \<Rightarrow> nat \<Rightarrow> nat \<Rightarrow> nat \<Rightarrow> 'c list option" where
  "load_range s a off n = (case st_mem s a of None \<Rightarrow> None
     | Some cs \<Rightarrow> if off + n \<le> length cs then Some (take n (drop off cs)) else None)"

definition put_range :: "nat \<Rightarrow> 'c list \<Rightarrow> 'c store \<Rightarrow> 'c store option" where
  "put_range a xs s = (case st_mem s a of None \<Rightarrow> None
     | Some cs \<Rightarrow> if length xs \<le> length cs
                  then Some (s\<lparr>st_mem := (st_mem s)(a \<mapsto> xs @ drop (length xs) cs)\<rparr>) else None)"

text \<open>\<open>s'\<close> is \<open>s\<close> with more arrays: everything \<open>s\<close> holds is still there, unchanged.\<close>

definition extends :: "'c store \<Rightarrow> 'c store \<Rightarrow> bool" where
  "extends s s' \<longleftrightarrow> st_next s \<le> st_next s' \<and> (\<forall>a < st_next s. st_mem s' a = st_mem s a)"

lemma extends_refl [simp, intro]: "extends s s"
  by (simp add: extends_def)

lemma extends_trans [trans]: "extends s s' \<Longrightarrow> extends s' s'' \<Longrightarrow> extends s s''"
  by (auto simp: extends_def)

lemma extends_next: "extends s s' \<Longrightarrow> st_next s \<le> st_next s'"
  by (simp add: extends_def)

lemma extends_mem: "extends s s' \<Longrightarrow> a < st_next s \<Longrightarrow> st_mem s' a = st_mem s a"
  by (simp add: extends_def)

lemma store_ok_below: "store_ok s \<Longrightarrow> st_mem s a \<noteq> None \<Longrightarrow> a < st_next s"
  by (meson not_le store_ok_def)

section \<open>What a deep copy promises\<close>

text \<open>
  \<open>view s x\<close> reads the Go value \<open>x\<close> through the store: the value it stands for, with every
  address replaced by what it leads to, and the addresses passed on the way.
\<close>

type_synonym ('c, 'x, 'v) viewer = "'c store \<Rightarrow> 'x \<Rightarrow> ('v \<times> nat list) option"
type_synonym ('c, 'x) copier = "'x \<Rightarrow> 'c store \<Rightarrow> ('x \<times> 'c store) option"

locale memory_view =
  fixes view :: "('c, 'x, 'v) viewer"
  assumes view_local: "view s x = Some (v, F) \<Longrightarrow> (\<And>a. a \<in> set F \<Longrightarrow> st_mem s' a = st_mem s a)
      \<Longrightarrow> view s' x = Some (v, F)"
    and view_alloc: "view s x = Some (v, F) \<Longrightarrow> a \<in> set F \<Longrightarrow> st_mem s a \<noteq> None"
begin

lemma view_below: "store_ok s \<Longrightarrow> view s x = Some (v, F) \<Longrightarrow> a \<in> set F \<Longrightarrow> a < st_next s"
  using view_alloc store_ok_below by blast

lemma view_extends:
  assumes "store_ok s" "view s x = Some (v, F)" "extends s s'"
  shows "view s' x = Some (v, F)"
  using assms(2) by (rule view_local) (meson assms view_below extends_mem)

end

text \<open>
  A copier makes a value that reads the same, through new arrays only, and changes nothing that was
  in memory.
\<close>

locale deep_copier = memory_view view
  for into :: "('c, 'x) copier" and view :: "('c, 'x, 'v) viewer" +
  assumes copies: "store_ok s \<Longrightarrow> view s x = Some (v, F) \<Longrightarrow>
      \<exists>x' s' F'. into x s = Some (x', s') \<and> store_ok s' \<and> extends s s'
        \<and> view s' x' = Some (v, F') \<and> (\<forall>a \<in> set F'. st_next s \<le> a)"
begin

lemmas copier_view_local = view_local
lemmas copier_view_alloc = view_alloc
lemmas copier_view_below = view_below
lemmas copier_view_extends = view_extends

end

section \<open>A run of writes\<close>

text \<open>What any later code may do to the arrays it holds: store into them, any number of times.\<close>

fun puts :: "(nat \<times> nat \<times> 'c) list \<Rightarrow> 'c store \<Rightarrow> 'c store option" where
  "puts [] s = Some s"
| "puts ((a, i, c) # ws) s = Option.bind (put a i c s) (puts ws)"

lemma put_other: "put a i c s = Some s' \<Longrightarrow> b \<noteq> a \<Longrightarrow> st_mem s' b = st_mem s b"
  by (auto simp: put_def split: option.splits if_splits)

lemma puts_other: "puts ws s = Some s' \<Longrightarrow> b \<notin> fst ` set ws \<Longrightarrow> st_mem s' b = st_mem s b"
proof (induction ws s rule: puts.induct)
  case (2 a i c ws s)
  then obtain t where "put a i c s = Some t" "puts ws t = Some s'"
    by (auto simp: Option.bind_eq_Some_conv)
  with 2 show ?case by (auto dest: put_other)
qed simp

text \<open>No run of writes into the arrays \<open>W\<close> changes what \<open>x\<close> reads as.\<close>

definition unaffected :: "('c, 'x, 'v) viewer \<Rightarrow> 'c store \<Rightarrow> 'x \<Rightarrow> 'v \<times> nat list \<Rightarrow> nat set \<Rightarrow> bool" where
  "unaffected view s x r W \<longleftrightarrow>
     (\<forall>ws s'. puts ws s = Some s' \<longrightarrow> fst ` set ws \<subseteq> W \<longrightarrow> view s' x = Some r)"

context memory_view
begin

lemma view_unaffected:
  assumes "view s x = Some (v, F)" "W \<inter> set F = {}"
  shows "unaffected view s x (v, F) W"
  unfolding unaffected_def
proof (intro allI impI)
  fix ws s'
  assume ws: "puts ws s = Some s'" "fst ` set ws \<subseteq> W"
  show "view s' x = Some (v, F)"
  proof (rule view_local [OF assms(1)])
    fix a
    assume "a \<in> set F"
    with ws(2) assms(2) have "a \<notin> fst ` set ws" by blast
    with ws(1) show "st_mem s' a = st_mem s a" by (rule puts_other)
  qed
qed

end

context deep_copier
begin

text \<open>
  The copy is made, reads as the original, and the two no longer meet: nothing written to any
  array that was there before the copy shows in it, nothing written through it shows in the
  original.
\<close>

lemma copy_independent:
  assumes "store_ok s" "view s x = Some (v, F)"
  shows "\<exists>x' s' F'. into x s = Some (x', s') \<and> store_ok s'
    \<and> view s' x' = Some (v, F') \<and> view s' x = Some (v, F)
    \<and> unaffected view s' x' (v, F') (dom (st_mem s)) \<and> unaffected view s' x (v, F) (set F')"
proof -
  obtain x' s' F' where c: "into x s = Some (x', s')" "store_ok s'" "extends s s'"
      "view s' x' = Some (v, F')" "\<forall>a \<in> set F'. st_next s \<le> a"
    using copies [OF assms] by blast
  have o: "view s' x = Some (v, F)" by (rule view_extends [OF assms c(3)])
  have "dom (st_mem s) \<inter> set F' = {}" "set F' \<inter> set F = {}"
    using c(5) store_ok_below [OF assms(1)] view_below [OF assms] by fastforce+
  then show ?thesis using c(1,2,4) o view_unaffected by blast
qed

end

section \<open>Values without references\<close>

definition plain_into :: "('c, 'x) copier" where
  "plain_into x s = Some (x, s)"

definition plain_view :: "('c, 'x, 'x) viewer" where
  "plain_view s x = Some (x, [])"

interpretation plain: deep_copier plain_into plain_view
  by unfold_locales (auto simp: plain_into_def plain_view_def)

section \<open>Two parts, one after the other\<close>

definition pair_into :: "('c, 'x) copier \<Rightarrow> ('c, 'y) copier \<Rightarrow> ('c, 'x \<times> 'y) copier" where
  "pair_into f g p s = do { (x, s1) \<leftarrow> f (fst p) s; (y, s2) \<leftarrow> g (snd p) s1; Some ((x, y), s2) }"

definition pair_view :: "('c, 'x, 'v) viewer \<Rightarrow> ('c, 'y, 'w) viewer \<Rightarrow> ('c, 'x \<times> 'y, 'v \<times> 'w) viewer" where
  "pair_view f g s p = do { (v, F) \<leftarrow> f s (fst p); (w, G) \<leftarrow> g s (snd p); Some ((v, w), F @ G) }"

lemma pair_view_Some: "pair_view f g s p = Some (vw, H) \<longleftrightarrow>
    (\<exists>F G. f s (fst p) = Some (fst vw, F) \<and> g s (snd p) = Some (snd vw, G) \<and> H = F @ G)"
  by (cases vw) (auto simp: pair_view_def Option.bind_eq_Some_conv split: prod.splits)

lemma deep_copier_pair:
  assumes f: "deep_copier f v" and g: "deep_copier g w"
  shows "deep_copier (pair_into f g) (pair_view v w)"
proof unfold_locales
  fix s s' :: "_ store" and p vw H
  assume *: "pair_view v w s p = Some (vw, H)" "\<And>a. a \<in> set H \<Longrightarrow> st_mem s' a = st_mem s a"
  then show "pair_view v w s' p = Some (vw, H)"
    using deep_copier.copier_view_local [OF f, of s "fst p" "fst vw" _ s']
      deep_copier.copier_view_local [OF g, of s "snd p" "snd vw" _ s']
    by (fastforce simp: pair_view_Some)
next
  fix s :: "_ store" and p vw H a
  assume "pair_view v w s p = Some (vw, H)" "a \<in> set H"
  then show "st_mem s a \<noteq> None"
    by (auto simp: pair_view_Some dest: deep_copier.copier_view_alloc [OF f] deep_copier.copier_view_alloc [OF g])
next
  fix s :: "_ store" and p vw H
  assume ok: "store_ok s" and "pair_view v w s p = Some (vw, H)"
  then obtain F G where F: "v s (fst p) = Some (fst vw, F)" and G: "w s (snd p) = Some (snd vw, G)"
    by (auto simp: pair_view_Some)
  obtain x s1 F' where x: "f (fst p) s = Some (x, s1)" "store_ok s1" "extends s s1"
      "v s1 x = Some (fst vw, F')" "\<forall>a \<in> set F'. st_next s \<le> a"
    using deep_copier.copies [OF f ok F] by blast
  have G1: "w s1 (snd p) = Some (snd vw, G)"
    by (rule deep_copier.copier_view_extends [OF g ok G x(3)])
  obtain y s2 G' where y: "g (snd p) s1 = Some (y, s2)" "store_ok s2" "extends s1 s2"
      "w s2 y = Some (snd vw, G')" "\<forall>a \<in> set G'. st_next s1 \<le> a"
    using deep_copier.copies [OF g x(2) G1] by blast
  have "v s2 x = Some (fst vw, F')"
    by (rule deep_copier.copier_view_extends [OF f x(2,4) y(3)])
  then show "\<exists>x' s' F'. pair_into f g p s = Some (x', s') \<and> store_ok s' \<and> extends s s'
      \<and> pair_view v w s' x' = Some (vw, F') \<and> (\<forall>a \<in> set F'. st_next s \<le> a)"
    using x y extends_trans [OF x(3) y(3)] extends_next [OF x(3)]
    by (force simp: pair_into_def pair_view_Some)
qed

section \<open>A struct around a part\<close>

lemma deep_copier_struct:
  assumes f: "deep_copier f v"
    and into: "\<And>x s. into x s = map_option (\<lambda>(y, s'). (upd x y, s')) (f (part x) s)"
    and view: "\<And>s x. view s x = map_option (\<lambda>(w, F). (mk x w, F)) (v s (part x))"
    and part: "\<And>x y. part (upd x y) = y" and mk: "\<And>x y w. mk (upd x y) w = mk x w"
  shows "deep_copier into view"
proof unfold_locales
  fix s s' :: "_ store" and x w F
  assume "view s x = Some (w, F)" "\<And>a. a \<in> set F \<Longrightarrow> st_mem s' a = st_mem s a"
  then show "view s' x = Some (w, F)"
    using deep_copier.copier_view_local [OF f, of s "part x" _ F s'] by (auto simp: view)
next
  fix s :: "_ store" and x w F a
  assume "view s x = Some (w, F)" "a \<in> set F"
  then show "st_mem s a \<noteq> None"
    by (auto simp: view dest: deep_copier.copier_view_alloc [OF f])
next
  fix s :: "_ store" and x w F
  assume ok: "store_ok s" and "view s x = Some (w, F)"
  then obtain u where "v s (part x) = Some (u, F)" "w = mk x u"
    by (auto simp: view)
  then show "\<exists>x' s' F'. into x s = Some (x', s') \<and> store_ok s' \<and> extends s s'
      \<and> view s' x' = Some (w, F') \<and> (\<forall>a \<in> set F'. st_next s \<le> a)"
    using deep_copier.copies [OF f ok, of "part x" u F] by (auto simp: into view part mk)
qed

section \<open>Slices and pointers\<close>

text \<open>
  The two templates of the generated code. An array holds cells, so a copier of a struct comes
  with the struct's constructor as a cell, \<open>box\<close>, and its inverse \<open>unbox\<close>; \<open>z\<close> is the cell
  of a zeroed element, which \<open>make\<close> and \<open>new\<close> leave behind and the copy overwrites.
  \<open>copy_elems\<close> is the loop \<open>for i := range *in { (*in)[i].DeepCopyInto(&(*out)[i]) }\<close>.
\<close>

fun copy_elems :: "('x \<Rightarrow> 'c) \<Rightarrow> ('c \<Rightarrow> 'x option) \<Rightarrow> ('c, 'x) copier \<Rightarrow> nat \<Rightarrow> nat \<Rightarrow> nat \<Rightarrow> nat \<Rightarrow> nat
    \<Rightarrow> 'c store \<Rightarrow> 'c store option" where
  "copy_elems box unbox f a off b i 0 s = Some s"
| "copy_elems box unbox f a off b i (Suc n) s =
     do { c \<leftarrow> load s a (off + i); x \<leftarrow> unbox c;
          (x', s1) \<leftarrow> f x s; s2 \<leftarrow> put b i (box x') s1;
          copy_elems box unbox f a off b (Suc i) n s2 }"

definition slice_into :: "'c \<Rightarrow> ('x \<Rightarrow> 'c) \<Rightarrow> ('c \<Rightarrow> 'x option) \<Rightarrow> ('c, 'x) copier \<Rightarrow> ('c, gslice) copier" where
  "slice_into z box unbox f sl s = (case sl of SNil \<Rightarrow> Some (SNil, s)
     | SArr a off n \<Rightarrow> (let (b, s1) = alloc (replicate n z) s in
         do { s2 \<leftarrow> copy_elems box unbox f a off b 0 n s1; Some (SArr b 0 n, s2) }))"

text \<open>The same for elements without references: \<open>make\<close>, then the built-in \<open>copy\<close>.\<close>

definition slice_copy :: "'c \<Rightarrow> ('c, gslice) copier" where
  "slice_copy z sl s = (case sl of SNil \<Rightarrow> Some (SNil, s)
     | SArr a off n \<Rightarrow> (let (b, s1) = alloc (replicate n z) s in
         do { cs \<leftarrow> load_range s1 a off n; s2 \<leftarrow> put_range b cs s1; Some (SArr b 0 n, s2) }))"

text \<open>
  \<open>*out = new(T); (*in).DeepCopyInto(*out)\<close> under the guard \<open>in != nil\<close>: the step for a
  pointer field, and the body of every \<open>DeepCopy\<close> method.
\<close>

definition ptr_into :: "'c \<Rightarrow> ('x \<Rightarrow> 'c) \<Rightarrow> ('c \<Rightarrow> 'x option) \<Rightarrow> ('c, 'x) copier \<Rightarrow> ('c, gptr) copier" where
  "ptr_into z box unbox f p s = (case p of PNil \<Rightarrow> Some (PNil, s)
     | PLoc a i \<Rightarrow> (let (b, s1) = alloc [z] s in
         do { c \<leftarrow> load s1 a i; x \<leftarrow> unbox c;
              (x', s2) \<leftarrow> f x s1; s3 \<leftarrow> put b 0 (box x') s2; Some (PLoc b 0, s3) }))"

fun view_elems :: "('c \<Rightarrow> 'x option) \<Rightarrow> ('c, 'x, 'v) viewer \<Rightarrow> 'c store \<Rightarrow> 'c list
    \<Rightarrow> ('v list \<times> nat list) option" where
  "view_elems unbox v s [] = Some ([], [])"
| "view_elems unbox v s (c # cs) = do { x \<leftarrow> unbox c; (w, F) \<leftarrow> v s x;
     (ws, G) \<leftarrow> view_elems unbox v s cs; Some (w # ws, F @ G) }"

definition slice_view :: "('c \<Rightarrow> 'x option) \<Rightarrow> ('c, 'x, 'v) viewer \<Rightarrow> ('c, gslice, 'v list option) viewer" where
  "slice_view unbox v s sl = (case sl of SNil \<Rightarrow> Some (None, [])
     | SArr a off n \<Rightarrow> do { cs \<leftarrow> load_range s a off n; (ws, F) \<leftarrow> view_elems unbox v s cs;
                            Some (Some ws, a # F) })"

definition ptr_view :: "('c \<Rightarrow> 'x option) \<Rightarrow> ('c, 'x, 'v) viewer \<Rightarrow> ('c, gptr, 'v option) viewer" where
  "ptr_view unbox v s p = (case p of PNil \<Rightarrow> Some (None, [])
     | PLoc a i \<Rightarrow> do { c \<leftarrow> load s a i; x \<leftarrow> unbox c; (w, F) \<leftarrow> v s x; Some (Some w, a # F) })"

lemma view_elems_Cons_Some: "view_elems unbox v s (c # cs) = Some (ws, H) \<longleftrightarrow>
    (\<exists>x w F ws' G. unbox c = Some x \<and> v s x = Some (w, F) \<and> view_elems unbox v s cs = Some (ws', G)
       \<and> ws = w # ws' \<and> H = F @ G)"
  by (auto simp: Option.bind_eq_Some_conv)

lemma view_elems_local:
  assumes "deep_copier f v" "view_elems unbox v s cs = Some (ws, F)"
    "\<And>a. a \<in> set F \<Longrightarrow> st_mem s' a = st_mem s a"
  shows "view_elems unbox v s' cs = Some (ws, F)"
  using assms(2,3)
proof (induction cs arbitrary: ws F)
  case (Cons c cs)
  then obtain x w F1 ws' F2 where *: "unbox c = Some x" "v s x = Some (w, F1)"
      "view_elems unbox v s cs = Some (ws', F2)" "ws = w # ws'" "F = F1 @ F2"
    unfolding view_elems_Cons_Some by blast
  have "v s' x = Some (w, F1)"
    by (rule deep_copier.copier_view_local [OF assms(1) *(2)]) (simp add: Cons.prems *)
  moreover have "view_elems unbox v s' cs = Some (ws', F2)"
    by (rule Cons.IH [OF *(3)]) (simp add: Cons.prems *)
  ultimately show ?case by (simp add: *)
qed simp

lemma view_elems_alloc:
  assumes "deep_copier f v" "view_elems unbox v s cs = Some (ws, F)" "a \<in> set F"
  shows "st_mem s a \<noteq> None"
  using assms(2,3)
proof (induction cs arbitrary: ws F)
  case (Cons c cs)
  then show ?case
    unfolding view_elems_Cons_Some using deep_copier.copier_view_alloc [OF assms(1)] by fastforce
qed simp

lemma load_range_SucD: "load_range s a k (Suc n) = Some cs \<Longrightarrow>
    \<exists>c cs'. cs = c # cs' \<and> load s a k = Some c \<and> load_range s a (Suc k) n = Some cs'"
  by (force simp: load_range_def load_def Cons_nth_drop_Suc [symmetric] split: option.splits if_splits)

lemma load_range_same: "st_mem s' a = st_mem s a \<Longrightarrow> load_range s' a k n = load_range s a k n"
  by (simp add: load_range_def)

lemma load_same: "st_mem s' a = st_mem s a \<Longrightarrow> load s' a k = load s a k"
  by (simp add: load_def)

lemma store_ok_put: "store_ok s \<Longrightarrow> put a i c s = Some s' \<Longrightarrow> store_ok s' \<and> st_next s' = st_next s"
  by (auto simp: put_def store_ok_def split: option.splits if_splits)

lemma alloc_facts:
  assumes "store_ok s" "alloc cs s = (b, s1)"
  shows "b = st_next s" "store_ok s1" "extends s s1" "st_mem s1 b = Some cs" "b < st_next s1"
    "st_next s1 = Suc (st_next s)"
  using assms by (auto simp: alloc_def store_ok_def extends_def)

text \<open>One round of the loop: the copy of the element is in place and reads as the element.\<close>

lemma copy_elem:
  assumes f: "deep_copier f v" and ok: "store_ok s" and b: "st_mem s b = Some ys" "i < length ys"
    and x: "v s x = Some (w, F)"
  shows "\<exists>x' s1 s2 F'. f x s = Some (x', s1) \<and> put b i (box x') s1 = Some s2 \<and> store_ok s2
    \<and> st_next s \<le> st_next s2 \<and> (\<forall>e < st_next s. e \<noteq> b \<longrightarrow> st_mem s2 e = st_mem s e)
    \<and> st_mem s2 b = Some (ys[i := box x']) \<and> v s2 x' = Some (w, F') \<and> (\<forall>e \<in> set F'. st_next s \<le> e)"
proof -
  obtain x' s1 F' where x': "f x s = Some (x', s1)" "store_ok s1" "extends s s1"
      "v s1 x' = Some (w, F')" "\<forall>a \<in> set F'. st_next s \<le> a"
    using deep_copier.copies [OF f ok x] by blast
  have bn: "b < st_next s" using store_ok_below [OF ok] b(1) by simp
  define s2 where "s2 = s1\<lparr>st_mem := (st_mem s1)(b \<mapsto> ys[i := box x'])\<rparr>"
  have put: "put b i (box x') s1 = Some s2"
    using extends_mem [OF x'(3) bn] b by (simp add: put_def s2_def)
  have "v s2 x' = Some (w, F')"
    by (rule deep_copier.copier_view_local [OF f x'(4)]) (use x'(5) bn in \<open>auto simp: s2_def\<close>)
  moreover have "\<forall>e < st_next s. e \<noteq> b \<longrightarrow> st_mem s2 e = st_mem s e"
    using extends_mem [OF x'(3)] by (simp add: s2_def)
  ultimately show ?thesis
    using x' put store_ok_put [OF x'(2) put] extends_next [OF x'(3)]
    by (intro exI [of _ x'] exI [of _ s1] exI [of _ s2] exI [of _ F']) (simp add: s2_def)
qed

text \<open>
  The loop: the elements it has passed are in place, the rest of the array is as \<open>make\<close> left
  it, nothing else that was in memory has changed, and what each copied element leads to is new.
\<close>

lemma copy_elems_copies:
  assumes f: "deep_copier f v" and box: "\<And>x. unbox (box x) = Some x"
  shows "store_ok s \<Longrightarrow> st_mem s b = Some ys \<Longrightarrow> length ys = i + n \<Longrightarrow> a \<noteq> b \<Longrightarrow>
    load_range s a (off + i) n = Some cs \<Longrightarrow> view_elems unbox v s cs = Some (ws, F) \<Longrightarrow> b \<notin> set F \<Longrightarrow>
    \<exists>s' cs' F'. copy_elems box unbox f a off b i n s = Some s' \<and> store_ok s' \<and> st_next s \<le> st_next s'
      \<and> (\<forall>c < st_next s. c \<noteq> b \<longrightarrow> st_mem s' c = st_mem s c)
      \<and> st_mem s' b = Some (take i ys @ cs') \<and> length cs' = n
      \<and> view_elems unbox v s' cs' = Some (ws, F') \<and> (\<forall>c \<in> set F'. st_next s \<le> c)"
proof (induction n arbitrary: s i ys cs ws F)
  case 0
  then show ?case by (auto simp: load_range_def split: option.splits if_splits)
next
  case (Suc n)
  note ok = Suc.prems(1)
  obtain c cs2 where c: "cs = c # cs2" "load s a (off + i) = Some c"
      "load_range s a (off + Suc i) n = Some cs2"
    using load_range_SucD [OF Suc.prems(5)] by auto
  obtain x w F1 ws2 F2 where x: "unbox c = Some x" "v s x = Some (w, F1)"
      "view_elems unbox v s cs2 = Some (ws2, F2)" "ws = w # ws2" "F = F1 @ F2"
    using Suc.prems(6) unfolding c(1) view_elems_Cons_Some by blast
  have il: "i < length ys" using Suc.prems(3) by simp
  obtain x' s1 s2 F1' where r: "f x s = Some (x', s1)" "put b i (box x') s1 = Some s2" "store_ok s2"
      "st_next s \<le> st_next s2" "\<And>e. e < st_next s \<Longrightarrow> e \<noteq> b \<Longrightarrow> st_mem s2 e = st_mem s e"
      "st_mem s2 b = Some (ys[i := box x'])" "v s2 x' = Some (w, F1')" "\<forall>e \<in> set F1'. st_next s \<le> e"
    using copy_elem [OF f ok Suc.prems(2) il x(2), of box] by blast
  have "a < st_next s" using store_ok_below [OF ok] c(2) by (auto simp: load_def split: option.splits)
  then have r2: "load_range s2 a (off + Suc i) n = Some cs2"
    using c(3) load_range_same [OF r(5) [OF _ Suc.prems(4)]] by simp
  have e2: "view_elems unbox v s2 cs2 = Some (ws2, F2)"
    using view_elems_alloc [OF f x(3)] store_ok_below [OF ok] Suc.prems(7) x(5)
    by (intro view_elems_local [OF f x(3)] r(5)) auto
  obtain s' cs' F' where s': "copy_elems box unbox f a off b (Suc i) n s2 = Some s'" "store_ok s'"
      "st_next s2 \<le> st_next s'" "\<forall>c < st_next s2. c \<noteq> b \<longrightarrow> st_mem s' c = st_mem s2 c"
      "st_mem s' b = Some (take (Suc i) (ys[i := box x']) @ cs')" "length cs' = n"
      "view_elems unbox v s' cs' = Some (ws2, F')" "\<forall>c \<in> set F'. st_next s2 \<le> c"
    using Suc.IH [OF r(3,6) _ Suc.prems(4) r2 e2] Suc.prems(3,7) x(5) by fastforce
  have "b < st_next s" using store_ok_below [OF ok] Suc.prems(2) by simp
  then have "v s' x' = Some (w, F1')"
    using deep_copier.copier_view_below [OF f r(3,7)] r(8) s'(4)
    by (intro deep_copier.copier_view_local [OF f r(7)]) fastforce
  then have "view_elems unbox v s' (box x' # cs') = Some (ws, F1' @ F')"
    by (simp add: box s'(7) x(4))
  moreover have "st_mem s' b = Some (take i ys @ box x' # cs')"
    using s'(5) il by (simp add: take_Suc_conv_app_nth)
  moreover have "copy_elems box unbox f a off b i (Suc n) s = Some s'"
    by (simp add: c(2) x(1) r(1,2) s'(1))
  ultimately show ?case
    using s' r(4,5,8)
    by (intro exI [of _ s'] exI [of _ "box x' # cs'"] exI [of _ "F1' @ F'"]) auto
qed

lemma slice_view_SArr_Some: "slice_view unbox v s (SArr a off n) = Some (w, F) \<longleftrightarrow>
    (\<exists>cs ws G. load_range s a off n = Some cs \<and> view_elems unbox v s cs = Some (ws, G)
       \<and> w = Some ws \<and> F = a # G)"
  by (auto simp: slice_view_def Option.bind_eq_Some_conv)

lemma slice_view_SNil [simp]: "slice_view unbox v s SNil = Some (None, [])"
  by (simp add: slice_view_def)

lemma load_range_alloc: "load_range s a off n = Some cs \<Longrightarrow> st_mem s a \<noteq> None"
  by (auto simp: load_range_def split: option.splits)

lemma slice_view_local:
  assumes f: "deep_copier f v" and "slice_view unbox v s sl = Some (w, F)"
    and same: "\<And>a. a \<in> set F \<Longrightarrow> st_mem s' a = st_mem s a"
  shows "slice_view unbox v s' sl = Some (w, F)"
proof (cases sl)
  case (SArr a off n)
  with assms(2) obtain cs ws G where r: "load_range s a off n = Some cs"
      "view_elems unbox v s cs = Some (ws, G)" "w = Some ws" "F = a # G"
    unfolding SArr slice_view_SArr_Some by blast
  have "load_range s' a off n = Some cs" using r load_range_same [OF same, of a] by simp
  moreover have "view_elems unbox v s' cs = Some (ws, G)"
    by (rule view_elems_local [OF f r(2)]) (simp add: r same)
  ultimately show ?thesis by (simp add: slice_view_SArr_Some SArr r)
qed (use assms in simp)

lemma slice_view_alloc:
  assumes f: "deep_copier f v" and "slice_view unbox v s sl = Some (w, F)" "a \<in> set F"
  shows "st_mem s a \<noteq> None"
  using assms(2,3)
  by (cases sl) (auto simp: slice_view_SArr_Some dest: view_elems_alloc [OF f] load_range_alloc)

lemma slice_copies:
  assumes f: "deep_copier f v" and box: "\<And>x. unbox (box x) = Some x" and ok: "store_ok s"
    and r: "load_range s a off n = Some cs" "view_elems unbox v s cs = Some (ws, G)"
  shows "\<exists>s' F'. slice_into z box unbox f (SArr a off n) s = Some (SArr (st_next s) 0 n, s') \<and> store_ok s'
    \<and> extends s s' \<and> slice_view unbox v s' (SArr (st_next s) 0 n) = Some (Some ws, F')
    \<and> (\<forall>a \<in> set F'. st_next s \<le> a)"
proof -
  obtain b s1 where al: "alloc (replicate n z) s = (b, s1)" by fastforce
  note al' = alloc_facts [OF ok al]
  have an: "a < st_next s" using store_ok_below [OF ok] load_range_alloc [OF r(1)] by blast
  have r1: "load_range s1 a (off + 0) n = Some cs"
    using r(1) load_range_same [OF extends_mem [OF al'(3) an]] by simp
  have G: "e < st_next s" if "e \<in> set G" for e
    using view_elems_alloc [OF f r(2) that] store_ok_below [OF ok] by blast
  have e1: "view_elems unbox v s1 cs = Some (ws, G)"
    by (rule view_elems_local [OF f r(2)]) (use G extends_mem [OF al'(3)] in blast)
  obtain s' cs' F' where s': "copy_elems box unbox f a off b 0 n s1 = Some s'" "store_ok s'"
      "st_next s1 \<le> st_next s'" "\<forall>c < st_next s1. c \<noteq> b \<longrightarrow> st_mem s' c = st_mem s1 c"
      "st_mem s' b = Some cs'" "length cs' = n"
      "view_elems unbox v s' cs' = Some (ws, F')" "\<forall>c \<in> set F'. st_next s1 \<le> c"
    using copy_elems_copies [where unbox = unbox and box = box, OF f box al'(2,4) _ _ r1 e1] an G al'(1)
    by fastforce
  have "extends s s'"
    using s'(3,4) al' by (auto simp: extends_def)
  moreover have "slice_view unbox v s' (SArr b 0 n) = Some (Some ws, b # F')"
    using s' by (simp add: slice_view_SArr_Some load_range_def)
  moreover have "slice_into z box unbox f (SArr a off n) s = Some (SArr b 0 n, s')"
    by (simp add: slice_into_def al s'(1))
  ultimately show ?thesis using s'(2,8) al'(1,6) by fastforce
qed

lemma deep_copier_slice:
  assumes f: "deep_copier f v" and box: "\<And>x. unbox (box x) = Some x"
  shows "deep_copier (slice_into z box unbox f) (slice_view unbox v)"
proof unfold_locales
  fix s :: "_ store" and sl w F
  assume ok: "store_ok s" and v: "slice_view unbox v s sl = Some (w, F)"
  show "\<exists>x' s' F'. slice_into z box unbox f sl s = Some (x', s') \<and> store_ok s' \<and> extends s s'
      \<and> slice_view unbox v s' x' = Some (w, F') \<and> (\<forall>a \<in> set F'. st_next s \<le> a)"
  proof (cases sl)
    case SNil
    then show ?thesis using ok v by (auto simp: slice_into_def)
  next
    case (SArr a off n)
    with v obtain cs ws G where r: "load_range s a off n = Some cs"
        "view_elems unbox v s cs = Some (ws, G)" "w = Some ws"
      unfolding SArr slice_view_SArr_Some by blast
    show ?thesis
      unfolding SArr r(3) using slice_copies [where unbox = unbox and box = box, OF f box ok r(1,2)] by blast
  qed
qed (use slice_view_local [OF f] slice_view_alloc [OF f] in \<open>blast+\<close>)

text \<open>A pointer is copied as the slice of the one element it points to.\<close>

lemma ptr_into_slice: "ptr_into z box unbox f (PLoc a i) s =
    map_option (\<lambda>(sl, s'). (PLoc (st_next s) 0, s')) (slice_into z box unbox f (SArr a i 1) s)"
  by (auto simp: ptr_into_def slice_into_def alloc_def numeral_2_eq_2 split: bind_splits prod.splits)

lemma load_range_1: "load_range s a i (Suc 0) = map_option (\<lambda>c. [c]) (load s a i)"
  by (auto simp: load_range_def load_def take_Suc_conv_app_nth hd_drop_conv_nth take_Suc
      split: option.splits)

lemma ptr_view_slice: "ptr_view unbox v s (PLoc a i) =
    map_option (\<lambda>(w, F). (map_option hd w, F)) (slice_view unbox v s (SArr a i 1))"
  by (auto simp: ptr_view_def slice_view_def load_range_1 split: option.splits bind_splits)

lemma slice_into_at: "slice_into z box unbox f (SArr a off n) s = Some (x, s') \<Longrightarrow> x = SArr (st_next s) 0 n"
  by (auto simp: slice_into_def alloc_def Option.bind_eq_Some_conv)

lemma deep_copier_ptr:
  assumes f: "deep_copier f v" and box: "\<And>x. unbox (box x) = Some x"
  shows "deep_copier (ptr_into z box unbox f) (ptr_view unbox v)"
proof -
  note sl = deep_copier_slice [where unbox = unbox and box = box, OF f box, of z]
  show ?thesis
  proof unfold_locales
    fix s s' :: "_ store" and p w F
    assume "ptr_view unbox v s p = Some (w, F)" "\<And>a. a \<in> set F \<Longrightarrow> st_mem s' a = st_mem s a"
    then show "ptr_view unbox v s' p = Some (w, F)"
      using deep_copier.copier_view_local [OF sl, of s _ _ F s']
      by (cases p) (fastforce simp: ptr_view_slice ptr_view_def [where p = PNil])+
  next
    fix s :: "_ store" and p w F a
    assume "ptr_view unbox v s p = Some (w, F)" "a \<in> set F"
    then show "st_mem s a \<noteq> None"
      using deep_copier.copier_view_alloc [OF sl]
      by (cases p) (fastforce simp: ptr_view_slice ptr_view_def [where p = PNil])+
  next
    fix s :: "_ store" and p w F
    assume ok: "store_ok s" and v: "ptr_view unbox v s p = Some (w, F)"
    show "\<exists>x' s' F'. ptr_into z box unbox f p s = Some (x', s') \<and> store_ok s' \<and> extends s s'
        \<and> ptr_view unbox v s' x' = Some (w, F') \<and> (\<forall>a \<in> set F'. st_next s \<le> a)"
    proof (cases p)
      case (PLoc a i)
      with v obtain u where u: "slice_view unbox v s (SArr a i 1) = Some (u, F)" "w = map_option hd u"
        by (auto simp: ptr_view_slice)
      then obtain x' s' F' where c: "slice_into z box unbox f (SArr a i 1) s = Some (x', s')" "store_ok s'"
          "extends s s'" "slice_view unbox v s' x' = Some (u, F')" "\<forall>a \<in> set F'. st_next s \<le> a"
        using deep_copier.copies [OF sl ok] by blast
      then show ?thesis
        using slice_into_at [OF c(1)] by (force simp: PLoc ptr_into_slice ptr_view_slice u(2))
    qed (use ok v in \<open>auto simp: ptr_into_def ptr_view_def\<close>)
  qed
qed

lemma view_elems_plain: "view_elems unbox plain_view s cs = Some (ws, F) \<Longrightarrow>
    F = [] \<and> view_elems unbox plain_view s' cs = Some (ws, [])"
  by (induction cs arbitrary: ws F) (auto simp: plain_view_def Option.bind_eq_Some_conv)

lemma slice_copy_copies:
  assumes ok: "store_ok s" and r: "load_range s a off n = Some cs"
    and e: "\<And>s'. view_elems unbox plain_view s' cs = Some (ws, [])"
  shows "\<exists>s'. slice_copy z (SArr a off n) s = Some (SArr (st_next s) 0 n, s') \<and> store_ok s' \<and> extends s s'
    \<and> slice_view unbox plain_view s' (SArr (st_next s) 0 n) = Some (Some ws, [st_next s])"
proof -
  have n: "length cs = n" using r by (auto simp: load_range_def split: option.splits if_splits)
  obtain b s1 where al: "alloc (replicate n z) s = (b, s1)" by fastforce
  note al' = alloc_facts [OF ok al]
  have "a < st_next s" using store_ok_below [OF ok] load_range_alloc [OF r] by blast
  then have r1: "load_range s1 a off n = Some cs"
    using r load_range_same [OF extends_mem [OF al'(3)]] by simp
  define s2 where "s2 = s1\<lparr>st_mem := (st_mem s1)(b \<mapsto> cs)\<rparr>"
  have "put_range b cs s1 = Some s2" by (simp add: put_range_def al'(4) n s2_def)
  moreover have "slice_view unbox plain_view s2 (SArr b 0 n) = Some (Some ws, [b])"
    using e n by (simp add: slice_view_SArr_Some load_range_def s2_def)
  moreover have "store_ok s2" "extends s s2"
    using al' by (auto simp: s2_def store_ok_def extends_def)
  ultimately show ?thesis using al al'(1) r1 by (simp add: slice_copy_def)
qed

lemma deep_copier_copy: "deep_copier (slice_copy z) (slice_view unbox plain_view)"
proof unfold_locales
  fix s :: "_ store" and sl w F
  assume ok: "store_ok s" and v: "slice_view unbox plain_view s sl = Some (w, F)"
  show "\<exists>x' s' F'. slice_copy z sl s = Some (x', s') \<and> store_ok s' \<and> extends s s'
      \<and> slice_view unbox plain_view s' x' = Some (w, F') \<and> (\<forall>a \<in> set F'. st_next s \<le> a)"
  proof (cases sl)
    case (SArr a off n)
    with v obtain cs ws where r: "load_range s a off n = Some cs"
        "\<And>s'. view_elems unbox plain_view s' cs = Some (ws, [])" "w = Some ws"
      unfolding SArr slice_view_SArr_Some by (auto dest: view_elems_plain)
    show ?thesis
      unfolding SArr r(3) using slice_copy_copies [of s a off n cs unbox ws z, OF ok r(1,2)] by force
  qed (use ok v in \<open>auto simp: slice_copy_def\<close>)
qed (use slice_view_local [OF plain.deep_copier_axioms] slice_view_alloc [OF plain.deep_copier_axioms] in \<open>blast+\<close>)

end
