(* ===== verification/Deep_Copy.thy ===== *)
theory Deep_Copy
  imports Api Go_Store
begin

text \<open>
  \<open>pkg/api/suffiks/v1/zz_generated.deepcopy.go\<close>: \<open>DeepCopyInto\<close>, \<open>DeepCopy\<close> and
  \<open>DeepCopyObject\<close> of the custom resources, over the store of \<open>Go_Store\<close>. A struct is a
  record whose reference fields have the type given as a parameter: slices and pointers where
  the struct lies in memory, what they lead to where a view has read it (\<open>None\<close> is nil, which
  a copy keeps apart from the empty slice). \<open>T_into\<close> is \<open>(*T).DeepCopyInto\<close>, as the value it
  leaves in \<open>*out\<close>; \<open>T_view\<close> reads a struct through its references.

  The structs of the libraries (object and list metadata, the unstructured rest of a spec, raw
  JSON, quantities) and their \<open>DeepCopyInto\<close> are parameters: \<open>lc\<close> copies and \<open>lv\<close> reads one,
  and \<open>lib_ok\<close> says of each what its documentation says, that it is a deep copy.
\<close>

section \<open>The structs\<close>

record field_selector =
  fs_fieldPath :: string

record env_source =
  so_fieldRef :: field_selector

record 'p g_env_var =
  gv_name :: string
  gv_value :: string
  gv_valueFrom :: 'p

record 'l g_limits =
  gl_memory :: 'l

record 'l g_requests =
  gq_cpu :: 'l
  gq_memory :: 'l

record 'l g_resources =
  gr_limits :: "'l g_limits"
  gr_requests :: "'l g_requests"

record ('c, 'e, 'f, 'r, 'l) g_app_spec =
  ga_port :: int
  ga_command :: 'c
  ga_image :: string
  ga_env :: 'e
  ga_envFrom :: 'f
  ga_resources :: 'r
  ga_rest :: 'l

record 'x g_app_status =
  gt_availableReplicas :: int
  gt_replicas :: int
  gt_hash :: string
  gt_extensions :: 'x

record ('c, 'e, 'f) g_work_spec =
  gk_schedule :: string
  gk_command :: 'c
  gk_image :: string
  gk_env :: 'e
  gk_envFrom :: 'f
  gk_restartPolicy :: string

record 'x g_work_status =
  gy_hash :: string
  gy_extensions :: 'x

record 'm g_wasi_res =
  gm_group :: string
  gm_version :: string
  gm_resource :: string
  gm_methods :: 'm

record ('r, 'p) g_wasi =
  gw_image :: string
  gw_tag :: string
  gw_resources :: 'r
  gw_configMap :: 'p

record ('g, 'w) g_controller =
  gn_grpc :: 'g
  gn_wasi :: 'w

record ('t, 'l, 'c) g_ext_spec =
  gx_targets :: 't
  gx_schema :: 'l
  gx_controller :: 'c
  gx_webhooks :: ext_webhooks
  gx_always :: bool

record g_ext_status =
  gz_status :: string

text \<open>\<open>Application\<close>, \<open>Extension\<close> and \<open>Work\<close> have the same four fields, and so have the lists.\<close>

record ('m, 's, 't) g_object =
  go_kind :: string
  go_apiVersion :: string
  go_meta :: 'm
  go_spec :: 's
  go_status :: 't

record ('m, 'i) g_list =
  gi_kind :: string
  gi_apiVersion :: string
  gi_meta :: 'm
  gi_items :: 'i

type_synonym h_env_var = "gptr g_env_var"
type_synonym 'l h_app_spec = "(gslice, gslice, gslice, gptr, 'l) g_app_spec"
type_synonym h_app_status = "gslice g_app_status"
type_synonym 'l h_app = "('l, 'l h_app_spec, h_app_status) g_object"
type_synonym h_work_spec = "(gslice, gslice, gslice) g_work_spec"
type_synonym h_work_status = "gslice g_work_status"
type_synonym 'l h_work = "('l, h_work_spec, h_work_status) g_object"
type_synonym h_wasi_res = "gslice g_wasi_res"
type_synonym h_wasi = "(gslice, gptr) g_wasi"
type_synonym h_controller = "(gptr, gptr) g_controller"
type_synonym 'l h_ext_spec = "(gslice, 'l, h_controller) g_ext_spec"
type_synonym 'l h_ext = "('l, 'l h_ext_spec, g_ext_status) g_object"
type_synonym 'l h_list = "('l, gslice) g_list"

type_synonym v_env_var = "env_source option g_env_var"
type_synonym 'v v_app_spec =
  "(string list option, v_env_var list option, env_from list option, 'v g_resources option, 'v) g_app_spec"
type_synonym v_app_status = "string list option g_app_status"
type_synonym 'v v_app = "('v, 'v v_app_spec, v_app_status) g_object"
type_synonym v_work_spec = "(string list option, v_env_var list option, env_from list option) g_work_spec"
type_synonym v_work_status = "string list option g_work_status"
type_synonym 'v v_work = "('v, v_work_spec, v_work_status) g_object"
type_synonym v_wasi_res = "string list option g_wasi_res"
type_synonym v_wasi = "(v_wasi_res list option, config_map_ref option) g_wasi"
type_synonym v_controller = "(ext_grpc option, v_wasi option) g_controller"
type_synonym 'v v_ext_spec = "(string list option, 'v, v_controller) g_ext_spec"
type_synonym 'v v_ext = "('v, 'v v_ext_spec, g_ext_status) g_object"

section \<open>Memory cells\<close>

text \<open>
  What an element of an array may be: a zeroed element not yet written, something of the
  libraries, a string (\<open>Target\<close> and \<open>Method\<close> are string types) or one of the structs.
\<close>

datatype ('l, 'c) cell =
    OZero
  | OLib 'c
  | is_OStr: OStr (the_Str: "string")
  | is_OSelector: OSelector (the_Selector: "field_selector")
  | is_OSource: OSource (the_Source: "env_source")
  | is_OEnvVar: OEnvVar (the_EnvVar: "h_env_var")
  | is_OEnvVars: OEnvVars (the_EnvVars: "gslice")
  | is_OEnvFrom: OEnvFrom (the_EnvFrom: "env_from")
  | is_OLimits: OLimits (the_Limits: "'l g_limits")
  | is_ORequests: ORequests (the_Requests: "'l g_requests")
  | is_OResources: OResources (the_Resources: "'l g_resources")
  | is_OAppSpec: OAppSpec (the_AppSpec: "'l h_app_spec")
  | is_OAppStatus: OAppStatus (the_AppStatus: "h_app_status")
  | is_OApp: OApp (the_App: "'l h_app")
  | is_OAppList: OAppList (the_AppList: "'l h_list")
  | is_OGrpc: OGrpc (the_Grpc: "ext_grpc")
  | is_OConfigMap: OConfigMap (the_ConfigMap: "config_map_ref")
  | is_OWasiRes: OWasiRes (the_WasiRes: "h_wasi_res")
  | is_OWasi: OWasi (the_Wasi: "h_wasi")
  | is_OController: OController (the_Controller: "h_controller")
  | is_OWebhooks: OWebhooks (the_Webhooks: "ext_webhooks")
  | is_OExtSpec: OExtSpec (the_ExtSpec: "'l h_ext_spec")
  | is_OExtStatus: OExtStatus (the_ExtStatus: "g_ext_status")
  | is_OExt: OExt (the_Ext: "'l h_ext")
  | is_OExtList: OExtList (the_ExtList: "'l h_list")
  | is_OWorkSpec: OWorkSpec (the_WorkSpec: "h_work_spec")
  | is_OWorkStatus: OWorkStatus (the_WorkStatus: "h_work_status")
  | is_OWork: OWork (the_Work: "'l h_work")

definition un_str :: "('l, 'c) cell \<Rightarrow> (string) option" where
  "un_str c = (if is_OStr c then Some (the_Str c) else None)"

definition un_selector :: "('l, 'c) cell \<Rightarrow> (field_selector) option" where
  "un_selector c = (if is_OSelector c then Some (the_Selector c) else None)"

definition un_source :: "('l, 'c) cell \<Rightarrow> (env_source) option" where
  "un_source c = (if is_OSource c then Some (the_Source c) else None)"

definition un_env_var :: "('l, 'c) cell \<Rightarrow> (h_env_var) option" where
  "un_env_var c = (if is_OEnvVar c then Some (the_EnvVar c) else None)"

definition un_env_vars :: "('l, 'c) cell \<Rightarrow> (gslice) option" where
  "un_env_vars c = (if is_OEnvVars c then Some (the_EnvVars c) else None)"

definition un_env_from :: "('l, 'c) cell \<Rightarrow> (env_from) option" where
  "un_env_from c = (if is_OEnvFrom c then Some (the_EnvFrom c) else None)"

definition un_limits :: "('l, 'c) cell \<Rightarrow> ('l g_limits) option" where
  "un_limits c = (if is_OLimits c then Some (the_Limits c) else None)"

definition un_requests :: "('l, 'c) cell \<Rightarrow> ('l g_requests) option" where
  "un_requests c = (if is_ORequests c then Some (the_Requests c) else None)"

definition un_resources :: "('l, 'c) cell \<Rightarrow> ('l g_resources) option" where
  "un_resources c = (if is_OResources c then Some (the_Resources c) else None)"

definition un_app_spec :: "('l, 'c) cell \<Rightarrow> ('l h_app_spec) option" where
  "un_app_spec c = (if is_OAppSpec c then Some (the_AppSpec c) else None)"

definition un_app_status :: "('l, 'c) cell \<Rightarrow> (h_app_status) option" where
  "un_app_status c = (if is_OAppStatus c then Some (the_AppStatus c) else None)"

definition un_app :: "('l, 'c) cell \<Rightarrow> ('l h_app) option" where
  "un_app c = (if is_OApp c then Some (the_App c) else None)"

definition un_app_list :: "('l, 'c) cell \<Rightarrow> ('l h_list) option" where
  "un_app_list c = (if is_OAppList c then Some (the_AppList c) else None)"

definition un_grpc :: "('l, 'c) cell \<Rightarrow> (ext_grpc) option" where
  "un_grpc c = (if is_OGrpc c then Some (the_Grpc c) else None)"

definition un_config_map :: "('l, 'c) cell \<Rightarrow> (config_map_ref) option" where
  "un_config_map c = (if is_OConfigMap c then Some (the_ConfigMap c) else None)"

definition un_wasi_res :: "('l, 'c) cell \<Rightarrow> (h_wasi_res) option" where
  "un_wasi_res c = (if is_OWasiRes c then Some (the_WasiRes c) else None)"

definition un_wasi :: "('l, 'c) cell \<Rightarrow> (h_wasi) option" where
  "un_wasi c = (if is_OWasi c then Some (the_Wasi c) else None)"

definition un_controller :: "('l, 'c) cell \<Rightarrow> (h_controller) option" where
  "un_controller c = (if is_OController c then Some (the_Controller c) else None)"

definition un_webhooks :: "('l, 'c) cell \<Rightarrow> (ext_webhooks) option" where
  "un_webhooks c = (if is_OWebhooks c then Some (the_Webhooks c) else None)"

definition un_ext_spec :: "('l, 'c) cell \<Rightarrow> ('l h_ext_spec) option" where
  "un_ext_spec c = (if is_OExtSpec c then Some (the_ExtSpec c) else None)"

definition un_ext_status :: "('l, 'c) cell \<Rightarrow> (g_ext_status) option" where
  "un_ext_status c = (if is_OExtStatus c then Some (the_ExtStatus c) else None)"

definition un_ext :: "('l, 'c) cell \<Rightarrow> ('l h_ext) option" where
  "un_ext c = (if is_OExt c then Some (the_Ext c) else None)"

definition un_ext_list :: "('l, 'c) cell \<Rightarrow> ('l h_list) option" where
  "un_ext_list c = (if is_OExtList c then Some (the_ExtList c) else None)"

definition un_work_spec :: "('l, 'c) cell \<Rightarrow> (h_work_spec) option" where
  "un_work_spec c = (if is_OWorkSpec c then Some (the_WorkSpec c) else None)"

definition un_work_status :: "('l, 'c) cell \<Rightarrow> (h_work_status) option" where
  "un_work_status c = (if is_OWorkStatus c then Some (the_WorkStatus c) else None)"

definition un_work :: "('l, 'c) cell \<Rightarrow> ('l h_work) option" where
  "un_work c = (if is_OWork c then Some (the_Work c) else None)"

lemma unbox_box [simp]:
  "un_str (OStr x0) = Some x0"
  "un_selector (OSelector x1) = Some x1"
  "un_source (OSource x2) = Some x2"
  "un_env_var (OEnvVar x3) = Some x3"
  "un_env_vars (OEnvVars x4) = Some x4"
  "un_env_from (OEnvFrom x5) = Some x5"
  "un_limits (OLimits x6) = Some x6"
  "un_requests (ORequests x7) = Some x7"
  "un_resources (OResources x8) = Some x8"
  "un_app_spec (OAppSpec x9) = Some x9"
  "un_app_status (OAppStatus x10) = Some x10"
  "un_app (OApp x11) = Some x11"
  "un_app_list (OAppList x12) = Some x12"
  "un_grpc (OGrpc x13) = Some x13"
  "un_config_map (OConfigMap x14) = Some x14"
  "un_wasi_res (OWasiRes x15) = Some x15"
  "un_wasi (OWasi x16) = Some x16"
  "un_controller (OController x17) = Some x17"
  "un_webhooks (OWebhooks x18) = Some x18"
  "un_ext_spec (OExtSpec x19) = Some x19"
  "un_ext_status (OExtStatus x20) = Some x20"
  "un_ext (OExt x21) = Some x21"
  "un_ext_list (OExtList x22) = Some x22"
  "un_work_spec (OWorkSpec x23) = Some x23"
  "un_work_status (OWorkStatus x24) = Some x24"
  "un_work (OWork x25) = Some x25"
  by (simp_all add: un_str_def un_selector_def un_source_def un_env_var_def un_env_vars_def un_env_from_def un_limits_def un_requests_def un_resources_def un_app_spec_def un_app_status_def un_app_def un_app_list_def un_grpc_def un_config_map_def un_wasi_res_def un_wasi_def un_controller_def un_webhooks_def un_ext_spec_def un_ext_status_def un_ext_def un_ext_list_def un_work_spec_def un_work_status_def un_work_def)

datatype lib_kind = LObjectMeta | LListMeta | LUnstructured | LRawExtension | LQuantity

type_synonym ('l, 'c) lib_copiers = "lib_kind \<Rightarrow> (('l, 'c) cell, 'l) copier"
type_synonym ('l, 'c, 'v) lib_viewers = "lib_kind \<Rightarrow> (('l, 'c) cell, 'l, 'v) viewer"

definition lib_ok :: "('l, 'c) lib_copiers \<Rightarrow> ('l, 'c, 'v) lib_viewers \<Rightarrow> bool" where
  "lib_ok lc lv \<longleftrightarrow> (\<forall>k. deep_copier (lc k) (lv k))"

lemma lib_okD: "lib_ok lc lv \<Longrightarrow> deep_copier (lc k) (lv k)"
  by (simp add: lib_ok_def)

section \<open>Structs without references\<close>

text \<open>
  \<open>*out = *in\<close> is the whole copy of these; \<open>EnvVarSource\<close> stores its one field a second time.
\<close>

definition selector_into :: "(('l, 'c) cell, field_selector) copier" where
  "selector_into x s = Some (x, s)"

definition source_into :: "(('l, 'c) cell, env_source) copier" where
  "source_into x s = Some (x\<lparr>so_fieldRef := so_fieldRef x\<rparr>, s)"

definition env_from_into :: "(('l, 'c) cell, env_from) copier" where
  "env_from_into x s = Some (x, s)"

definition config_map_into :: "(('l, 'c) cell, config_map_ref) copier" where
  "config_map_into x s = Some (x, s)"

definition grpc_into :: "(('l, 'c) cell, ext_grpc) copier" where
  "grpc_into x s = Some (x, s)"

definition webhooks_into :: "(('l, 'c) cell, ext_webhooks) copier" where
  "webhooks_into x s = Some (x, s)"

definition ext_status_into :: "(('l, 'c) cell, g_ext_status) copier" where
  "ext_status_into x s = Some (x, s)"

section \<open>Environment variables\<close>

definition env_var_into :: "(('l, 'c) cell, h_env_var) copier" where
  "env_var_into x s = do {
     (p, s) \<leftarrow> ptr_into OZero OSource un_source plain_into (gv_valueFrom x) s;
     Some (x\<lparr>gv_valueFrom := p\<rparr>, s) }"

definition env_var_view :: "(('l, 'c) cell, h_env_var, v_env_var) viewer" where
  "env_var_view s x = do {
     (p, F) \<leftarrow> ptr_view un_source plain_view s (gv_valueFrom x);
     Some (\<lparr>gv_name = gv_name x, gv_value = gv_value x, gv_valueFrom = p\<rparr>, F) }"

text \<open>
  \<open>EnvVars.DeepCopyInto\<close> has no guard: it makes a slice for a nil slice too. \<open>DeepCopy\<close> has
  one, and passes the new slice through a variable of its own.
\<close>

definition env_vars_into :: "(('l, 'c) cell, gslice) copier" where
  "env_vars_into sl s = (case sl of
       SNil \<Rightarrow> (let (b, s) = alloc [] s in Some (SArr b 0 0, s))
     | SArr a off n \<Rightarrow> (let (b, s) = alloc (replicate n OZero) s in
         do { s \<leftarrow> copy_elems OEnvVar un_env_var env_var_into a off b 0 n s; Some (SArr b 0 n, s) }))"

definition env_vars_DeepCopy :: "(('l, 'c) cell, gslice) copier" where
  "env_vars_DeepCopy sl s = (if sl = SNil then Some (SNil, s)
     else (let (p, s) = alloc [OEnvVars SNil] s in do {
        (x, s) \<leftarrow> env_vars_into sl s;
        s \<leftarrow> put p 0 (OEnvVars x) s;
        c \<leftarrow> load s p 0;
        x \<leftarrow> un_env_vars c;
        Some (x, s) }))"

section \<open>Resource requirements\<close>

definition limits_into :: "('l, 'c) lib_copiers \<Rightarrow> (('l, 'c) cell, 'l g_limits) copier" where
  "limits_into lc x s = do {
     (m, s) \<leftarrow> lc LQuantity (gl_memory x) s;
     Some (x\<lparr>gl_memory := m\<rparr>, s) }"

definition limits_view :: "('l, 'c, 'v) lib_viewers \<Rightarrow> (('l, 'c) cell, 'l g_limits, 'v g_limits) viewer" where
  "limits_view lv s x = do {
     (m, F) \<leftarrow> lv LQuantity s (gl_memory x);
     Some (\<lparr>gl_memory = m\<rparr>, F) }"

definition requests_into :: "('l, 'c) lib_copiers \<Rightarrow> (('l, 'c) cell, 'l g_requests) copier" where
  "requests_into lc x s = do {
     (c, s) \<leftarrow> lc LQuantity (gq_cpu x) s;
     (m, s) \<leftarrow> lc LQuantity (gq_memory x) s;
     Some (x\<lparr>gq_cpu := c, gq_memory := m\<rparr>, s) }"

definition requests_view :: "('l, 'c, 'v) lib_viewers \<Rightarrow> (('l, 'c) cell, 'l g_requests, 'v g_requests) viewer" where
  "requests_view lv s x = do {
     (c, F) \<leftarrow> lv LQuantity s (gq_cpu x);
     (m, G) \<leftarrow> lv LQuantity s (gq_memory x);
     Some (\<lparr>gq_cpu = c, gq_memory = m\<rparr>, F @ G) }"

definition resources_into :: "('l, 'c) lib_copiers \<Rightarrow> (('l, 'c) cell, 'l g_resources) copier" where
  "resources_into lc x s = do {
     (l, s) \<leftarrow> limits_into lc (gr_limits x) s;
     (r, s) \<leftarrow> requests_into lc (gr_requests x) s;
     Some (x\<lparr>gr_limits := l, gr_requests := r\<rparr>, s) }"

definition resources_view :: "('l, 'c, 'v) lib_viewers
    \<Rightarrow> (('l, 'c) cell, 'l g_resources, 'v g_resources) viewer" where
  "resources_view lv s x = do {
     (l, F) \<leftarrow> limits_view lv s (gr_limits x);
     (r, G) \<leftarrow> requests_view lv s (gr_requests x);
     Some (\<lparr>gr_limits = l, gr_requests = r\<rparr>, F @ G) }"

section \<open>Application\<close>

definition app_spec_into :: "('l, 'c) lib_copiers \<Rightarrow> (('l, 'c) cell, 'l h_app_spec) copier" where
  "app_spec_into lc x s = do {
     (c, s) \<leftarrow> slice_copy OZero (ga_command x) s;
     (e, s) \<leftarrow> slice_into OZero OEnvVar un_env_var env_var_into (ga_env x) s;
     (f, s) \<leftarrow> slice_copy OZero (ga_envFrom x) s;
     (r, s) \<leftarrow> ptr_into OZero OResources un_resources (resources_into lc) (ga_resources x) s;
     (l, s) \<leftarrow> lc LUnstructured (ga_rest x) s;
     Some (x\<lparr>ga_command := c, ga_env := e, ga_envFrom := f, ga_resources := r, ga_rest := l\<rparr>, s) }"

definition app_spec_view :: "('l, 'c, 'v) lib_viewers
    \<Rightarrow> (('l, 'c) cell, 'l h_app_spec, 'v v_app_spec) viewer" where
  "app_spec_view lv s x = do {
     (c, F1) \<leftarrow> slice_view un_str plain_view s (ga_command x);
     (e, F2) \<leftarrow> slice_view un_env_var env_var_view s (ga_env x);
     (f, F3) \<leftarrow> slice_view un_env_from plain_view s (ga_envFrom x);
     (r, F4) \<leftarrow> ptr_view un_resources (resources_view lv) s (ga_resources x);
     (l, F5) \<leftarrow> lv LUnstructured s (ga_rest x);
     Some (\<lparr>ga_port = ga_port x, ga_command = c, ga_image = ga_image x, ga_env = e, ga_envFrom = f,
            ga_resources = r, ga_rest = l\<rparr>, F1 @ F2 @ F3 @ F4 @ F5) }"

definition app_status_into :: "(('l, 'c) cell, h_app_status) copier" where
  "app_status_into x s = do {
     (e, s) \<leftarrow> slice_copy OZero (gt_extensions x) s;
     Some (x\<lparr>gt_extensions := e\<rparr>, s) }"

definition app_status_view :: "(('l, 'c) cell, h_app_status, v_app_status) viewer" where
  "app_status_view s x = do {
     (e, F) \<leftarrow> slice_view un_str plain_view s (gt_extensions x);
     Some (\<lparr>gt_availableReplicas = gt_availableReplicas x, gt_replicas = gt_replicas x,
            gt_hash = gt_hash x, gt_extensions = e\<rparr>, F) }"

definition app_into :: "('l, 'c) lib_copiers \<Rightarrow> (('l, 'c) cell, 'l h_app) copier" where
  "app_into lc x s = do {
     (m, s) \<leftarrow> lc LObjectMeta (go_meta x) s;
     (p, s) \<leftarrow> app_spec_into lc (go_spec x) s;
     (t, s) \<leftarrow> app_status_into (go_status x) s;
     Some (x\<lparr>go_meta := m, go_spec := p, go_status := t\<rparr>, s) }"

definition app_view :: "('l, 'c, 'v) lib_viewers \<Rightarrow> (('l, 'c) cell, 'l h_app, 'v v_app) viewer" where
  "app_view lv s x = do {
     (m, F) \<leftarrow> lv LObjectMeta s (go_meta x);
     (p, G) \<leftarrow> app_spec_view lv s (go_spec x);
     (t, H) \<leftarrow> app_status_view s (go_status x);
     Some (\<lparr>go_kind = go_kind x, go_apiVersion = go_apiVersion x, go_meta = m, go_spec = p,
            go_status = t\<rparr>, F @ G @ H) }"

definition app_list_into :: "('l, 'c) lib_copiers \<Rightarrow> (('l, 'c) cell, 'l h_list) copier" where
  "app_list_into lc x s = do {
     (m, s) \<leftarrow> lc LListMeta (gi_meta x) s;
     (i, s) \<leftarrow> slice_into OZero OApp un_app (app_into lc) (gi_items x) s;
     Some (x\<lparr>gi_meta := m, gi_items := i\<rparr>, s) }"

definition app_list_view :: "('l, 'c, 'v) lib_viewers
    \<Rightarrow> (('l, 'c) cell, 'l h_list, ('v, 'v v_app list option) g_list) viewer" where
  "app_list_view lv s x = do {
     (m, F) \<leftarrow> lv LListMeta s (gi_meta x);
     (i, G) \<leftarrow> slice_view un_app (app_view lv) s (gi_items x);
     Some (\<lparr>gi_kind = gi_kind x, gi_apiVersion = gi_apiVersion x, gi_meta = m, gi_items = i\<rparr>, F @ G) }"

section \<open>Extension\<close>

definition wasi_res_into :: "(('l, 'c) cell, h_wasi_res) copier" where
  "wasi_res_into x s = do {
     (m, s) \<leftarrow> slice_copy OZero (gm_methods x) s;
     Some (x\<lparr>gm_methods := m\<rparr>, s) }"

definition wasi_res_view :: "(('l, 'c) cell, h_wasi_res, v_wasi_res) viewer" where
  "wasi_res_view s x = do {
     (m, F) \<leftarrow> slice_view un_str plain_view s (gm_methods x);
     Some (\<lparr>gm_group = gm_group x, gm_version = gm_version x, gm_resource = gm_resource x,
            gm_methods = m\<rparr>, F) }"

definition wasi_into :: "(('l, 'c) cell, h_wasi) copier" where
  "wasi_into x s = do {
     (r, s) \<leftarrow> slice_into OZero OWasiRes un_wasi_res wasi_res_into (gw_resources x) s;
     (p, s) \<leftarrow> ptr_into OZero OConfigMap un_config_map plain_into (gw_configMap x) s;
     Some (x\<lparr>gw_resources := r, gw_configMap := p\<rparr>, s) }"

definition wasi_view :: "(('l, 'c) cell, h_wasi, v_wasi) viewer" where
  "wasi_view s x = do {
     (r, F) \<leftarrow> slice_view un_wasi_res wasi_res_view s (gw_resources x);
     (p, G) \<leftarrow> ptr_view un_config_map plain_view s (gw_configMap x);
     Some (\<lparr>gw_image = gw_image x, gw_tag = gw_tag x, gw_resources = r, gw_configMap = p\<rparr>, F @ G) }"

definition controller_into :: "(('l, 'c) cell, h_controller) copier" where
  "controller_into x s = do {
     (g, s) \<leftarrow> ptr_into OZero OGrpc un_grpc plain_into (gn_grpc x) s;
     (w, s) \<leftarrow> ptr_into OZero OWasi un_wasi wasi_into (gn_wasi x) s;
     Some (x\<lparr>gn_grpc := g, gn_wasi := w\<rparr>, s) }"

definition controller_view :: "(('l, 'c) cell, h_controller, v_controller) viewer" where
  "controller_view s x = do {
     (g, F) \<leftarrow> ptr_view un_grpc plain_view s (gn_grpc x);
     (w, G) \<leftarrow> ptr_view un_wasi wasi_view s (gn_wasi x);
     Some (\<lparr>gn_grpc = g, gn_wasi = w\<rparr>, F @ G) }"

definition ext_spec_into :: "('l, 'c) lib_copiers \<Rightarrow> (('l, 'c) cell, 'l h_ext_spec) copier" where
  "ext_spec_into lc x s = do {
     (t, s) \<leftarrow> slice_copy OZero (gx_targets x) s;
     (o', s) \<leftarrow> lc LRawExtension (gx_schema x) s;
     (c, s) \<leftarrow> controller_into (gx_controller x) s;
     Some (x\<lparr>gx_targets := t, gx_schema := o', gx_controller := c, gx_webhooks := gx_webhooks x\<rparr>, s) }"

definition ext_spec_view :: "('l, 'c, 'v) lib_viewers
    \<Rightarrow> (('l, 'c) cell, 'l h_ext_spec, 'v v_ext_spec) viewer" where
  "ext_spec_view lv s x = do {
     (t, F) \<leftarrow> slice_view un_str plain_view s (gx_targets x);
     (o', G) \<leftarrow> lv LRawExtension s (gx_schema x);
     (c, H) \<leftarrow> controller_view s (gx_controller x);
     Some (\<lparr>gx_targets = t, gx_schema = o', gx_controller = c, gx_webhooks = gx_webhooks x,
            gx_always = gx_always x\<rparr>, F @ G @ H) }"

definition ext_into :: "('l, 'c) lib_copiers \<Rightarrow> (('l, 'c) cell, 'l h_ext) copier" where
  "ext_into lc x s = do {
     (m, s) \<leftarrow> lc LObjectMeta (go_meta x) s;
     (p, s) \<leftarrow> ext_spec_into lc (go_spec x) s;
     Some (x\<lparr>go_meta := m, go_spec := p, go_status := go_status x\<rparr>, s) }"

definition ext_view :: "('l, 'c, 'v) lib_viewers \<Rightarrow> (('l, 'c) cell, 'l h_ext, 'v v_ext) viewer" where
  "ext_view lv s x = do {
     (m, F) \<leftarrow> lv LObjectMeta s (go_meta x);
     (p, G) \<leftarrow> ext_spec_view lv s (go_spec x);
     Some (\<lparr>go_kind = go_kind x, go_apiVersion = go_apiVersion x, go_meta = m, go_spec = p,
            go_status = go_status x\<rparr>, F @ G) }"

definition ext_list_into :: "('l, 'c) lib_copiers \<Rightarrow> (('l, 'c) cell, 'l h_list) copier" where
  "ext_list_into lc x s = do {
     (m, s) \<leftarrow> lc LListMeta (gi_meta x) s;
     (i, s) \<leftarrow> slice_into OZero OExt un_ext (ext_into lc) (gi_items x) s;
     Some (x\<lparr>gi_meta := m, gi_items := i\<rparr>, s) }"

definition ext_list_view :: "('l, 'c, 'v) lib_viewers
    \<Rightarrow> (('l, 'c) cell, 'l h_list, ('v, 'v v_ext list option) g_list) viewer" where
  "ext_list_view lv s x = do {
     (m, F) \<leftarrow> lv LListMeta s (gi_meta x);
     (i, G) \<leftarrow> slice_view un_ext (ext_view lv) s (gi_items x);
     Some (\<lparr>gi_kind = gi_kind x, gi_apiVersion = gi_apiVersion x, gi_meta = m, gi_items = i\<rparr>, F @ G) }"

section \<open>Work\<close>

definition work_spec_into :: "(('l, 'c) cell, h_work_spec) copier" where
  "work_spec_into x s = do {
     (c, s) \<leftarrow> slice_copy OZero (gk_command x) s;
     (e, s) \<leftarrow> slice_into OZero OEnvVar un_env_var env_var_into (gk_env x) s;
     (f, s) \<leftarrow> slice_copy OZero (gk_envFrom x) s;
     Some (x\<lparr>gk_command := c, gk_env := e, gk_envFrom := f\<rparr>, s) }"

definition work_spec_view :: "(('l, 'c) cell, h_work_spec, v_work_spec) viewer" where
  "work_spec_view s x = do {
     (c, F) \<leftarrow> slice_view un_str plain_view s (gk_command x);
     (e, G) \<leftarrow> slice_view un_env_var env_var_view s (gk_env x);
     (f, H) \<leftarrow> slice_view un_env_from plain_view s (gk_envFrom x);
     Some (\<lparr>gk_schedule = gk_schedule x, gk_command = c, gk_image = gk_image x, gk_env = e,
            gk_envFrom = f, gk_restartPolicy = gk_restartPolicy x\<rparr>, F @ G @ H) }"

definition work_status_into :: "(('l, 'c) cell, h_work_status) copier" where
  "work_status_into x s = do {
     (e, s) \<leftarrow> slice_copy OZero (gy_extensions x) s;
     Some (x\<lparr>gy_extensions := e\<rparr>, s) }"

definition work_status_view :: "(('l, 'c) cell, h_work_status, v_work_status) viewer" where
  "work_status_view s x = do {
     (e, F) \<leftarrow> slice_view un_str plain_view s (gy_extensions x);
     Some (\<lparr>gy_hash = gy_hash x, gy_extensions = e\<rparr>, F) }"

definition work_into :: "('l, 'c) lib_copiers \<Rightarrow> (('l, 'c) cell, 'l h_work) copier" where
  "work_into lc x s = do {
     (m, s) \<leftarrow> lc LObjectMeta (go_meta x) s;
     (p, s) \<leftarrow> work_spec_into (go_spec x) s;
     (t, s) \<leftarrow> work_status_into (go_status x) s;
     Some (x\<lparr>go_meta := m, go_spec := p, go_status := t\<rparr>, s) }"

definition work_view :: "('l, 'c, 'v) lib_viewers \<Rightarrow> (('l, 'c) cell, 'l h_work, 'v v_work) viewer" where
  "work_view lv s x = do {
     (m, F) \<leftarrow> lv LObjectMeta s (go_meta x);
     (p, G) \<leftarrow> work_spec_view s (go_spec x);
     (t, H) \<leftarrow> work_status_view s (go_status x);
     Some (\<lparr>go_kind = go_kind x, go_apiVersion = go_apiVersion x, go_meta = m, go_spec = p,
            go_status = t\<rparr>, F @ G @ H) }"

section \<open>DeepCopy\<close>

text \<open>
  The body is the same for every struct: nil gives nil, otherwise a new struct is filled by
  \<open>DeepCopyInto\<close>.
\<close>

definition selector_DeepCopy :: "(('l, 'c) cell, gptr) copier" where
  "selector_DeepCopy = ptr_into OZero OSelector un_selector selector_into"

definition source_DeepCopy :: "(('l, 'c) cell, gptr) copier" where
  "source_DeepCopy = ptr_into OZero OSource un_source source_into"

definition env_from_DeepCopy :: "(('l, 'c) cell, gptr) copier" where
  "env_from_DeepCopy = ptr_into OZero OEnvFrom un_env_from env_from_into"

definition config_map_DeepCopy :: "(('l, 'c) cell, gptr) copier" where
  "config_map_DeepCopy = ptr_into OZero OConfigMap un_config_map config_map_into"

definition grpc_DeepCopy :: "(('l, 'c) cell, gptr) copier" where
  "grpc_DeepCopy = ptr_into OZero OGrpc un_grpc grpc_into"

definition webhooks_DeepCopy :: "(('l, 'c) cell, gptr) copier" where
  "webhooks_DeepCopy = ptr_into OZero OWebhooks un_webhooks webhooks_into"

definition ext_status_DeepCopy :: "(('l, 'c) cell, gptr) copier" where
  "ext_status_DeepCopy = ptr_into OZero OExtStatus un_ext_status ext_status_into"

definition env_var_DeepCopy :: "(('l, 'c) cell, gptr) copier" where
  "env_var_DeepCopy = ptr_into OZero OEnvVar un_env_var env_var_into"

definition limits_DeepCopy :: "('l, 'c) lib_copiers \<Rightarrow> (('l, 'c) cell, gptr) copier" where
  "limits_DeepCopy lc = ptr_into OZero OLimits un_limits (limits_into lc)"

definition requests_DeepCopy :: "('l, 'c) lib_copiers \<Rightarrow> (('l, 'c) cell, gptr) copier" where
  "requests_DeepCopy lc = ptr_into OZero ORequests un_requests (requests_into lc)"

definition resources_DeepCopy :: "('l, 'c) lib_copiers \<Rightarrow> (('l, 'c) cell, gptr) copier" where
  "resources_DeepCopy lc = ptr_into OZero OResources un_resources (resources_into lc)"

definition app_spec_DeepCopy :: "('l, 'c) lib_copiers \<Rightarrow> (('l, 'c) cell, gptr) copier" where
  "app_spec_DeepCopy lc = ptr_into OZero OAppSpec un_app_spec (app_spec_into lc)"

definition app_status_DeepCopy :: "(('l, 'c) cell, gptr) copier" where
  "app_status_DeepCopy = ptr_into OZero OAppStatus un_app_status app_status_into"

definition app_DeepCopy :: "('l, 'c) lib_copiers \<Rightarrow> (('l, 'c) cell, gptr) copier" where
  "app_DeepCopy lc = ptr_into OZero OApp un_app (app_into lc)"

definition app_list_DeepCopy :: "('l, 'c) lib_copiers \<Rightarrow> (('l, 'c) cell, gptr) copier" where
  "app_list_DeepCopy lc = ptr_into OZero OAppList un_app_list (app_list_into lc)"

definition wasi_res_DeepCopy :: "(('l, 'c) cell, gptr) copier" where
  "wasi_res_DeepCopy = ptr_into OZero OWasiRes un_wasi_res wasi_res_into"

definition wasi_DeepCopy :: "(('l, 'c) cell, gptr) copier" where
  "wasi_DeepCopy = ptr_into OZero OWasi un_wasi wasi_into"

definition controller_DeepCopy :: "(('l, 'c) cell, gptr) copier" where
  "controller_DeepCopy = ptr_into OZero OController un_controller controller_into"

definition ext_spec_DeepCopy :: "('l, 'c) lib_copiers \<Rightarrow> (('l, 'c) cell, gptr) copier" where
  "ext_spec_DeepCopy lc = ptr_into OZero OExtSpec un_ext_spec (ext_spec_into lc)"

definition ext_DeepCopy :: "('l, 'c) lib_copiers \<Rightarrow> (('l, 'c) cell, gptr) copier" where
  "ext_DeepCopy lc = ptr_into OZero OExt un_ext (ext_into lc)"

definition ext_list_DeepCopy :: "('l, 'c) lib_copiers \<Rightarrow> (('l, 'c) cell, gptr) copier" where
  "ext_list_DeepCopy lc = ptr_into OZero OExtList un_ext_list (ext_list_into lc)"

definition work_spec_DeepCopy :: "(('l, 'c) cell, gptr) copier" where
  "work_spec_DeepCopy = ptr_into OZero OWorkSpec un_work_spec work_spec_into"

definition work_status_DeepCopy :: "(('l, 'c) cell, gptr) copier" where
  "work_status_DeepCopy = ptr_into OZero OWorkStatus un_work_status work_status_into"

definition work_DeepCopy :: "('l, 'c) lib_copiers \<Rightarrow> (('l, 'c) cell, gptr) copier" where
  "work_DeepCopy lc = ptr_into OZero OWork un_work (work_into lc)"

text \<open>
  \<open>DeepCopyObject\<close> returns an interface value: a nil pointer becomes the nil interface, never
  an interface holding a nil pointer.
\<close>

datatype object_kind = KApp | KAppList | KExt | KExtList | KWork

datatype runtime_object = NoObject | AnObject object_kind gptr

definition app_DeepCopyObject :: "('l, 'c) lib_copiers \<Rightarrow> gptr \<Rightarrow> ('l, 'c) cell store
    \<Rightarrow> (runtime_object \<times> ('l, 'c) cell store) option" where
  "app_DeepCopyObject lc p s = do {
     (c, s) \<leftarrow> app_DeepCopy lc p s;
     Some (if c \<noteq> PNil then AnObject KApp c else NoObject, s) }"

definition app_list_DeepCopyObject :: "('l, 'c) lib_copiers \<Rightarrow> gptr \<Rightarrow> ('l, 'c) cell store
    \<Rightarrow> (runtime_object \<times> ('l, 'c) cell store) option" where
  "app_list_DeepCopyObject lc p s = do {
     (c, s) \<leftarrow> app_list_DeepCopy lc p s;
     Some (if c \<noteq> PNil then AnObject KAppList c else NoObject, s) }"

definition ext_DeepCopyObject :: "('l, 'c) lib_copiers \<Rightarrow> gptr \<Rightarrow> ('l, 'c) cell store
    \<Rightarrow> (runtime_object \<times> ('l, 'c) cell store) option" where
  "ext_DeepCopyObject lc p s = do {
     (c, s) \<leftarrow> ext_DeepCopy lc p s;
     Some (if c \<noteq> PNil then AnObject KExt c else NoObject, s) }"

definition ext_list_DeepCopyObject :: "('l, 'c) lib_copiers \<Rightarrow> gptr \<Rightarrow> ('l, 'c) cell store
    \<Rightarrow> (runtime_object \<times> ('l, 'c) cell store) option" where
  "ext_list_DeepCopyObject lc p s = do {
     (c, s) \<leftarrow> ext_list_DeepCopy lc p s;
     Some (if c \<noteq> PNil then AnObject KExtList c else NoObject, s) }"

definition work_DeepCopyObject :: "('l, 'c) lib_copiers \<Rightarrow> gptr \<Rightarrow> ('l, 'c) cell store
    \<Rightarrow> (runtime_object \<times> ('l, 'c) cell store) option" where
  "work_DeepCopyObject lc p s = do {
     (c, s) \<leftarrow> work_DeepCopy lc p s;
     Some (if c \<noteq> PNil then AnObject KWork c else NoObject, s) }"

end
