(* ===== verification/Deep_Copy_Facts.thy ===== *)
theory Deep_Copy_Facts
  imports Deep_Copy
begin

text \<open>
  Every \<open>DeepCopyInto\<close> of \<open>Deep_Copy\<close> keeps the promise of \<open>deep_copier\<close>: one lemma per
  struct, from those of its parts, and the theorems on \<open>DeepCopy\<close> and \<open>DeepCopyObject\<close> of
  the resources the controllers and the test kit copy.
\<close>

lemmas copier_simps = pair_into_def pair_view_def plain_into_def plain_view_def

lemma copier_plain: "deep_copier plain_into plain_view"
  by (rule plain.deep_copier_axioms)

lemma copier_env_var: "deep_copier env_var_into env_var_view"
  by (rule deep_copier_struct [where part = gv_valueFrom and upd = "\<lambda>x p. x\<lparr>gv_valueFrom := p\<rparr>"
        and mk = "\<lambda>x p. \<lparr>gv_name = gv_name x, gv_value = gv_value x, gv_valueFrom = p\<rparr>",
        OF deep_copier_ptr [where unbox = un_source and box = OSource and z = OZero, OF copier_plain]])
    (auto simp: env_var_into_def env_var_view_def split: bind_splits)

lemma copier_limits: "lib_ok lc lv \<Longrightarrow> deep_copier (limits_into lc) (limits_view lv)"
  by (rule deep_copier_struct [where part = gl_memory and upd = "\<lambda>x m. x\<lparr>gl_memory := m\<rparr>"
        and mk = "\<lambda>x m. \<lparr>gl_memory = m\<rparr>", OF lib_okD])
    (auto simp: limits_into_def limits_view_def split: bind_splits)

lemma copier_requests: "lib_ok lc lv \<Longrightarrow> deep_copier (requests_into lc) (requests_view lv)"
  by (rule deep_copier_struct [where part = "\<lambda>x. (gq_cpu x, gq_memory x)"
        and upd = "\<lambda>x (c, m). x\<lparr>gq_cpu := c, gq_memory := m\<rparr>"
        and mk = "\<lambda>x (c, m). \<lparr>gq_cpu = c, gq_memory = m\<rparr>", OF deep_copier_pair
          [OF lib_okD [where k = LQuantity] lib_okD [where k = LQuantity]]])
    (auto simp: requests_into_def requests_view_def copier_simps split: bind_splits)

lemma copier_resources: "lib_ok lc lv \<Longrightarrow> deep_copier (resources_into lc) (resources_view lv)"
  by (rule deep_copier_struct [where part = "\<lambda>x. (gr_limits x, gr_requests x)"
        and upd = "\<lambda>x (l, r). x\<lparr>gr_limits := l, gr_requests := r\<rparr>"
        and mk = "\<lambda>x (l, r). \<lparr>gr_limits = l, gr_requests = r\<rparr>",
        OF deep_copier_pair [OF copier_limits copier_requests]])
    (auto simp: resources_into_def resources_view_def copier_simps split: bind_splits)

text \<open>The slice and pointer fields, by what they lead to.\<close>

lemma copier_strs: "deep_copier (slice_copy OZero) (slice_view un_str plain_view)"
  by (rule deep_copier_copy)

lemma copier_env_froms: "deep_copier (slice_copy OZero) (slice_view un_env_from plain_view)"
  by (rule deep_copier_copy)

lemma copier_envs: "deep_copier (slice_into OZero OEnvVar un_env_var env_var_into)
    (slice_view un_env_var env_var_view)"
  by (rule deep_copier_slice [OF copier_env_var]) simp

lemma copier_resources_ptr: "lib_ok lc lv \<Longrightarrow>
    deep_copier (ptr_into OZero OResources un_resources (resources_into lc))
      (ptr_view un_resources (resources_view lv))"
  by (rule deep_copier_ptr [OF copier_resources]) simp_all

lemma copier_app_spec: "lib_ok lc lv \<Longrightarrow> deep_copier (app_spec_into lc) (app_spec_view lv)"
  by (rule deep_copier_struct [where part = "\<lambda>x. (ga_command x, ga_env x, ga_envFrom x, ga_resources x, ga_rest x)"
        and upd = "\<lambda>x (c, e, f, r, l). x\<lparr>ga_command := c, ga_env := e, ga_envFrom := f, ga_resources := r, ga_rest := l\<rparr>"
        and mk = "\<lambda>x (c, e, f, r, l). \<lparr>ga_port = ga_port x, ga_command = c, ga_image = ga_image x, ga_env = e, ga_envFrom = f, ga_resources = r, ga_rest = l\<rparr>",
        OF deep_copier_pair [OF copier_strs
          deep_copier_pair [OF copier_envs
          deep_copier_pair [OF copier_env_froms
          deep_copier_pair [OF copier_resources_ptr
          lib_okD [where k = LUnstructured]]]]]])
    (auto simp: app_spec_into_def app_spec_view_def copier_simps split: bind_splits)

lemma copier_app_status: "deep_copier app_status_into app_status_view"
  by (rule deep_copier_struct [where part = "\<lambda>x. gt_extensions x"
        and upd = "\<lambda>x e. x\<lparr>gt_extensions := e\<rparr>"
        and mk = "\<lambda>x e. \<lparr>gt_availableReplicas = gt_availableReplicas x, gt_replicas = gt_replicas x, gt_hash = gt_hash x, gt_extensions = e\<rparr>",
        OF copier_strs])
    (auto simp: app_status_into_def app_status_view_def copier_simps split: bind_splits)

lemma copier_app: "lib_ok lc lv \<Longrightarrow> deep_copier (app_into lc) (app_view lv)"
  by (rule deep_copier_struct [where part = "\<lambda>x. (go_meta x, go_spec x, go_status x)"
        and upd = "\<lambda>x (m, p, t). x\<lparr>go_meta := m, go_spec := p, go_status := t\<rparr>"
        and mk = "\<lambda>x (m, p, t). \<lparr>go_kind = go_kind x, go_apiVersion = go_apiVersion x, go_meta = m, go_spec = p, go_status = t\<rparr>",
        OF deep_copier_pair [OF lib_okD [where k = LObjectMeta]
          deep_copier_pair [OF copier_app_spec
          copier_app_status]]])
    (auto simp: app_into_def app_view_def copier_simps split: bind_splits)

lemma copier_wasi_res: "deep_copier wasi_res_into wasi_res_view"
  by (rule deep_copier_struct [where part = "\<lambda>x. gm_methods x"
        and upd = "\<lambda>x m. x\<lparr>gm_methods := m\<rparr>"
        and mk = "\<lambda>x m. \<lparr>gm_group = gm_group x, gm_version = gm_version x, gm_resource = gm_resource x, gm_methods = m\<rparr>",
        OF copier_strs])
    (auto simp: wasi_res_into_def wasi_res_view_def copier_simps split: bind_splits)

lemma copier_wasi_ress: "deep_copier (slice_into OZero OWasiRes un_wasi_res wasi_res_into)
    (slice_view un_wasi_res wasi_res_view)"
  by (rule deep_copier_slice [OF copier_wasi_res]) simp

lemma copier_config_map_ptr: "deep_copier (ptr_into OZero OConfigMap un_config_map plain_into)
    (ptr_view un_config_map plain_view)"
  by (rule deep_copier_ptr [OF copier_plain]) simp

lemma copier_wasi: "deep_copier wasi_into wasi_view"
  by (rule deep_copier_struct [where part = "\<lambda>x. (gw_resources x, gw_configMap x)"
        and upd = "\<lambda>x (r, p). x\<lparr>gw_resources := r, gw_configMap := p\<rparr>"
        and mk = "\<lambda>x (r, p). \<lparr>gw_image = gw_image x, gw_tag = gw_tag x, gw_resources = r, gw_configMap = p\<rparr>",
        OF deep_copier_pair [OF copier_wasi_ress
          copier_config_map_ptr]])
    (auto simp: wasi_into_def wasi_view_def copier_simps split: bind_splits)

lemma copier_grpc_ptr: "deep_copier (ptr_into OZero OGrpc un_grpc plain_into) (ptr_view un_grpc plain_view)"
  by (rule deep_copier_ptr [OF copier_plain]) simp

lemma copier_wasi_ptr: "deep_copier (ptr_into OZero OWasi un_wasi wasi_into) (ptr_view un_wasi wasi_view)"
  by (rule deep_copier_ptr [OF copier_wasi]) simp

lemma copier_controller: "deep_copier controller_into controller_view"
  by (rule deep_copier_struct [where part = "\<lambda>x. (gn_grpc x, gn_wasi x)"
        and upd = "\<lambda>x (g, w). x\<lparr>gn_grpc := g, gn_wasi := w\<rparr>"
        and mk = "\<lambda>x (g, w). \<lparr>gn_grpc = g, gn_wasi = w\<rparr>",
        OF deep_copier_pair [OF copier_grpc_ptr
          copier_wasi_ptr]])
    (auto simp: controller_into_def controller_view_def copier_simps split: bind_splits)

lemma copier_ext_spec: "lib_ok lc lv \<Longrightarrow> deep_copier (ext_spec_into lc) (ext_spec_view lv)"
  by (rule deep_copier_struct [where part = "\<lambda>x. (gx_targets x, gx_schema x, gx_controller x)"
        and upd = "\<lambda>x (t, o', c). x\<lparr>gx_targets := t, gx_schema := o', gx_controller := c\<rparr>"
        and mk = "\<lambda>x (t, o', c). \<lparr>gx_targets = t, gx_schema = o', gx_controller = c, gx_webhooks = gx_webhooks x, gx_always = gx_always x\<rparr>",
        OF deep_copier_pair [OF copier_strs
          deep_copier_pair [OF lib_okD [where k = LRawExtension]
          copier_controller]]])
    (auto simp: ext_spec_into_def ext_spec_view_def copier_simps split: bind_splits)

lemma copier_ext: "lib_ok lc lv \<Longrightarrow> deep_copier (ext_into lc) (ext_view lv)"
  by (rule deep_copier_struct [where part = "\<lambda>x. (go_meta x, go_spec x)"
        and upd = "\<lambda>x (m, p). x\<lparr>go_meta := m, go_spec := p\<rparr>"
        and mk = "\<lambda>x (m, p). \<lparr>go_kind = go_kind x, go_apiVersion = go_apiVersion x, go_meta = m, go_spec = p, go_status = go_status x\<rparr>",
        OF deep_copier_pair [OF lib_okD [where k = LObjectMeta]
          copier_ext_spec]])
    (auto simp: ext_into_def ext_view_def copier_simps split: bind_splits)

lemma copier_work_spec: "deep_copier work_spec_into work_spec_view"
  by (rule deep_copier_struct [where part = "\<lambda>x. (gk_command x, gk_env x, gk_envFrom x)"
        and upd = "\<lambda>x (c, e, f). x\<lparr>gk_command := c, gk_env := e, gk_envFrom := f\<rparr>"
        and mk = "\<lambda>x (c, e, f). \<lparr>gk_schedule = gk_schedule x, gk_command = c, gk_image = gk_image x, gk_env = e, gk_envFrom = f, gk_restartPolicy = gk_restartPolicy x\<rparr>",
        OF deep_copier_pair [OF copier_strs
          deep_copier_pair [OF copier_envs
          copier_env_froms]]])
    (auto simp: work_spec_into_def work_spec_view_def copier_simps split: bind_splits)

lemma copier_work_status: "deep_copier work_status_into work_status_view"
  by (rule deep_copier_struct [where part = "\<lambda>x. gy_extensions x"
        and upd = "\<lambda>x e. x\<lparr>gy_extensions := e\<rparr>"
        and mk = "\<lambda>x e. \<lparr>gy_hash = gy_hash x, gy_extensions = e\<rparr>",
        OF copier_strs])
    (auto simp: work_status_into_def work_status_view_def copier_simps split: bind_splits)

lemma copier_work: "lib_ok lc lv \<Longrightarrow> deep_copier (work_into lc) (work_view lv)"
  by (rule deep_copier_struct [where part = "\<lambda>x. (go_meta x, go_spec x, go_status x)"
        and upd = "\<lambda>x (m, p, t). x\<lparr>go_meta := m, go_spec := p, go_status := t\<rparr>"
        and mk = "\<lambda>x (m, p, t). \<lparr>go_kind = go_kind x, go_apiVersion = go_apiVersion x, go_meta = m, go_spec = p, go_status = t\<rparr>",
        OF deep_copier_pair [OF lib_okD [where k = LObjectMeta]
          deep_copier_pair [OF copier_work_spec
          copier_work_status]]])
    (auto simp: work_into_def work_view_def copier_simps split: bind_splits)

lemma copier_apps: "lib_ok lc lv \<Longrightarrow> deep_copier (slice_into OZero OApp un_app (app_into lc))
    (slice_view un_app (app_view lv))"
  by (rule deep_copier_slice [OF copier_app]) simp_all

lemma copier_app_list: "lib_ok lc lv \<Longrightarrow> deep_copier (app_list_into lc) (app_list_view lv)"
  by (rule deep_copier_struct [where part = "\<lambda>x. (gi_meta x, gi_items x)"
        and upd = "\<lambda>x (m, i). x\<lparr>gi_meta := m, gi_items := i\<rparr>"
        and mk = "\<lambda>x (m, i). \<lparr>gi_kind = gi_kind x, gi_apiVersion = gi_apiVersion x, gi_meta = m, gi_items = i\<rparr>",
        OF deep_copier_pair [OF lib_okD [where k = LListMeta]
          copier_apps]])
    (auto simp: app_list_into_def app_list_view_def copier_simps split: bind_splits)

lemma copier_exts: "lib_ok lc lv \<Longrightarrow> deep_copier (slice_into OZero OExt un_ext (ext_into lc))
    (slice_view un_ext (ext_view lv))"
  by (rule deep_copier_slice [OF copier_ext]) simp_all

lemma copier_ext_list: "lib_ok lc lv \<Longrightarrow> deep_copier (ext_list_into lc) (ext_list_view lv)"
  by (rule deep_copier_struct [where part = "\<lambda>x. (gi_meta x, gi_items x)"
        and upd = "\<lambda>x (m, i). x\<lparr>gi_meta := m, gi_items := i\<rparr>"
        and mk = "\<lambda>x (m, i). \<lparr>gi_kind = gi_kind x, gi_apiVersion = gi_apiVersion x, gi_meta = m, gi_items = i\<rparr>",
        OF deep_copier_pair [OF lib_okD [where k = LListMeta]
          copier_exts]])
    (auto simp: ext_list_into_def ext_list_view_def copier_simps split: bind_splits)

text \<open>
  The structs of the program that need no library struct are deep copiers outright; the others are
  for every library that keeps its word, by the lemmas above.
\<close>

interpretation env_var: deep_copier env_var_into env_var_view
  by (rule copier_env_var)

interpretation controller: deep_copier controller_into controller_view
  by (rule copier_controller)

interpretation work_spec: deep_copier work_spec_into work_spec_view
  by (rule copier_work_spec)

section \<open>DeepCopy of the resources\<close>

definition ext_ptr_view :: "('l, 'c, 'v) lib_viewers \<Rightarrow> (('l, 'c) cell, gptr, 'v v_ext option) viewer" where
  "ext_ptr_view lv = ptr_view un_ext (ext_view lv)"

definition app_ptr_view :: "('l, 'c, 'v) lib_viewers \<Rightarrow> (('l, 'c) cell, gptr, 'v v_app option) viewer" where
  "app_ptr_view lv = ptr_view un_app (app_view lv)"

definition app_list_ptr_view :: "('l, 'c, 'v) lib_viewers
    \<Rightarrow> (('l, 'c) cell, gptr, ('v, 'v v_app list option) g_list option) viewer" where
  "app_list_ptr_view lv = ptr_view un_app_list (app_list_view lv)"

lemma copier_ext_ptr: "lib_ok lc lv \<Longrightarrow> deep_copier (ext_DeepCopy lc) (ext_ptr_view lv)"
  unfolding ext_DeepCopy_def ext_ptr_view_def by (rule deep_copier_ptr [OF copier_ext]) simp_all

lemma copier_app_ptr: "lib_ok lc lv \<Longrightarrow> deep_copier (app_DeepCopy lc) (app_ptr_view lv)"
  unfolding app_DeepCopy_def app_ptr_view_def by (rule deep_copier_ptr [OF copier_app]) simp_all

lemma copier_app_list_ptr: "lib_ok lc lv \<Longrightarrow> deep_copier (app_list_DeepCopy lc) (app_list_ptr_view lv)"
  unfolding app_list_DeepCopy_def app_list_ptr_view_def
  by (rule deep_copier_ptr [OF copier_app_list]) simp_all

text \<open>A library of the kind the laws describe: a struct with one slice of strings.\<close>

definition ex_un_lib :: "('l, string) cell \<Rightarrow> string option" where
  "ex_un_lib c = (case c of OLib x \<Rightarrow> Some x | _ \<Rightarrow> None)"

definition ex_lc :: "(gslice, string) lib_copiers" where
  "ex_lc k = slice_copy OZero"

definition ex_lv :: "(gslice, string, string list option) lib_viewers" where
  "ex_lv k = slice_view ex_un_lib plain_view"

interpretation ex_lib: deep_copier "ex_lc k" "ex_lv k" for k
  unfolding ex_lc_def ex_lv_def by (rule deep_copier_copy)

lemma ex_lib_ok: "lib_ok ex_lc ex_lv"
  by (simp add: lib_ok_def ex_lib.deep_copier_axioms)

text \<open>
  An extension in memory: at 0 the struct, at 1 its targets, at 2 its gRPC controller, at 3 an
  array whose tail the library's slice is.
\<close>

definition ex_ext :: "gslice h_ext" where
  "ex_ext = \<lparr>go_kind = ''Extension'', go_apiVersion = ''suffiks.com/v1'', go_meta = SArr 3 1 2,
     go_spec = \<lparr>gx_targets = SArr 1 0 1, gx_schema = SNil,
       gx_controller = \<lparr>gn_grpc = PLoc 2 0, gn_wasi = PNil\<rparr>,
       gx_webhooks = \<lparr>wh_validation = True, wh_defaulting = False\<rparr>, gx_always = False\<rparr>,
     go_status = \<lparr>gz_status = ''Active''\<rparr>\<rparr>"

definition ex_store :: "(gslice, string) cell store" where
  "ex_store = \<lparr>st_mem = [0 \<mapsto> [OExt ex_ext], 1 \<mapsto> [OStr ''Application''],
       2 \<mapsto> [OGrpc \<lparr>gc_namespace = ''ns'', gc_service = ''svc'', gc_port = 80\<rparr>],
       3 \<mapsto> [OLib ''a'', OLib ''b'', OLib ''c'']], st_next = 4\<rparr>"

definition ex_ext_value :: "string list option v_ext" where
  "ex_ext_value = \<lparr>go_kind = ''Extension'', go_apiVersion = ''suffiks.com/v1'', go_meta = Some [''b'', ''c''],
     go_spec = \<lparr>gx_targets = Some [''Application''], gx_schema = None,
       gx_controller = \<lparr>gn_grpc = Some \<lparr>gc_namespace = ''ns'', gc_service = ''svc'', gc_port = 80\<rparr>,
                        gn_wasi = None\<rparr>,
       gx_webhooks = \<lparr>wh_validation = True, wh_defaulting = False\<rparr>, gx_always = False\<rparr>,
     go_status = \<lparr>gz_status = ''Active''\<rparr>\<rparr>"

lemma ex_store_ok: "store_ok ex_store"
  by (auto simp: store_ok_def ex_store_def)

lemmas view_defs = ptr_view_def slice_view_def plain_view_def load_def load_range_def ext_view_def
  ext_spec_view_def controller_view_def

lemma ex_ext_view: "ext_ptr_view ex_lv ex_store (PLoc 0 0) = Some (Some ex_ext_value, [0, 3, 1, 2])"
  by (simp add: ext_ptr_view_def view_defs ex_store_def ex_ext_def ex_ext_value_def ex_lv_def ex_un_lib_def
      un_ext_def un_str_def un_grpc_def)

text \<open>
  C25: \<open>Extension.DeepCopy\<close>, which the extension controller calls before it hands an extension to
  the manager, always returns; the copy reads as the same extension (its schema, targets,
  controller and metadata, nil kept apart from empty) through arrays that are all new: no later
  write to anything that existed before the call changes the copy the manager keeps, and no
  write through the copy changes the original.
\<close>

theorem deep_copied_extension_is_independent:
  assumes "lib_ok lc lv" "store_ok s" "ext_ptr_view lv s p = Some (v, F)"
  shows "\<exists>p' s' F'. ext_DeepCopy lc p s = Some (p', s') \<and> store_ok s'
    \<and> ext_ptr_view lv s' p' = Some (v, F') \<and> ext_ptr_view lv s' p = Some (v, F)
    \<and> unaffected (ext_ptr_view lv) s' p' (v, F') (dom (st_mem s))
    \<and> unaffected (ext_ptr_view lv) s' p (v, F) (set F')"
  by (rule deep_copier.copy_independent [OF copier_ext_ptr [OF assms(1)] assms(2,3)])

theorem deep_copied_extension_is_independent_witness:
  "\<exists>p' s' F'. ext_DeepCopy ex_lc (PLoc 0 0) ex_store = Some (p', s') \<and> store_ok s'
    \<and> ext_ptr_view ex_lv s' p' = Some (Some ex_ext_value, F')
    \<and> ext_ptr_view ex_lv s' (PLoc 0 0) = Some (Some ex_ext_value, [0, 3, 1, 2])
    \<and> unaffected (ext_ptr_view ex_lv) s' p' (Some ex_ext_value, F') (dom (st_mem ex_store))
    \<and> unaffected (ext_ptr_view ex_lv) s' (PLoc 0 0) (Some ex_ext_value, [0, 3, 1, 2]) (set F')"
  by (rule deep_copied_extension_is_independent [OF ex_lib_ok ex_store_ok ex_ext_view])

lemma ptr_into_nil_iff: "ptr_into z box unbox f p s = Some (p', s') \<Longrightarrow> p' = PNil \<longleftrightarrow> p = PNil"
  by (cases p) (auto simp: ptr_into_def alloc_def Option.bind_eq_Some_conv)

lemma ptr_into_nil: "ptr_into z box unbox f PNil s = Some (PNil, s)"
  by (simp add: ptr_into_def)

definition ex_app :: "gslice h_app" where
  "ex_app = \<lparr>go_kind = ''Application'', go_apiVersion = ''suffiks.com/v1'', go_meta = SNil,
     go_spec = \<lparr>ga_port = 8080, ga_command = SArr 1 0 0, ga_image = ''img'', ga_env = SArr 2 0 1,
       ga_envFrom = SNil, ga_resources = PNil, ga_rest = SNil\<rparr>,
     go_status = \<lparr>gt_availableReplicas = 1, gt_replicas = 1, gt_hash = ''h'', gt_extensions = SNil\<rparr>\<rparr>"

definition ex_app_store :: "(gslice, string) cell store" where
  "ex_app_store = \<lparr>st_mem = [0 \<mapsto> [OApp ex_app], 1 \<mapsto> [],
       2 \<mapsto> [OEnvVar \<lparr>gv_name = ''N'', gv_value = '''', gv_valueFrom = PLoc 3 0\<rparr>],
       3 \<mapsto> [OSource \<lparr>so_fieldRef = \<lparr>fs_fieldPath = ''metadata.name''\<rparr>\<rparr>]], st_next = 4\<rparr>"

definition ex_app_value :: "string list option v_app" where
  "ex_app_value = \<lparr>go_kind = ''Application'', go_apiVersion = ''suffiks.com/v1'', go_meta = None,
     go_spec = \<lparr>ga_port = 8080, ga_command = Some [], ga_image = ''img'',
       ga_env = Some [\<lparr>gv_name = ''N'', gv_value = '''',
                       gv_valueFrom = Some \<lparr>so_fieldRef = \<lparr>fs_fieldPath = ''metadata.name''\<rparr>\<rparr>\<rparr>],
       ga_envFrom = None, ga_resources = None, ga_rest = None\<rparr>,
     go_status = \<lparr>gt_availableReplicas = 1, gt_replicas = 1, gt_hash = ''h'', gt_extensions = None\<rparr>\<rparr>"

lemma ex_app_view: "app_ptr_view ex_lv ex_app_store (PLoc 0 0) = Some (Some ex_app_value, [0, 1, 2, 3])"
  by (simp add: app_ptr_view_def view_defs app_view_def app_spec_view_def app_status_view_def env_var_view_def
      ex_app_store_def ex_app_def ex_app_value_def ex_lv_def un_app_def un_env_var_def un_source_def)

lemma ex_app_store_ok: "store_ok ex_app_store"
  by (auto simp: store_ok_def ex_app_store_def)

text \<open>
  \<open>Application.DeepCopyObject\<close>, with which the test kit keeps the object as it was before an
  update: nil gives the nil interface and touches nothing, any other pointer an interface that
  holds a pointer to a new application, never a nil one; it reads as the original, and neither
  of the two sees what is written through the other.
\<close>

lemma deep_copied_application_is_independent:
  assumes "lib_ok lc lv" "store_ok s" "app_ptr_view lv s p = Some (v, F)"
  shows "\<exists>r s'. app_DeepCopyObject lc p s = Some (r, s') \<and>
    (case r of NoObject \<Rightarrow> p = PNil \<and> s' = s
     | AnObject k p' \<Rightarrow> k = KApp \<and> p \<noteq> PNil \<and> p' \<noteq> PNil \<and>
         (\<exists>F'. app_ptr_view lv s' p' = Some (v, F') \<and> app_ptr_view lv s' p = Some (v, F)
            \<and> unaffected (app_ptr_view lv) s' p' (v, F') (dom (st_mem s))
            \<and> unaffected (app_ptr_view lv) s' p (v, F) (set F')))"
proof (cases "p = PNil")
  case True
  then show ?thesis by (simp add: app_DeepCopyObject_def app_DeepCopy_def ptr_into_nil)
next
  case False
  obtain p' s' F' where c: "app_DeepCopy lc p s = Some (p', s')"
      "app_ptr_view lv s' p' = Some (v, F')" "app_ptr_view lv s' p = Some (v, F)"
      "unaffected (app_ptr_view lv) s' p' (v, F') (dom (st_mem s))"
      "unaffected (app_ptr_view lv) s' p (v, F) (set F')"
    using deep_copier.copy_independent [OF copier_app_ptr [OF assms(1)] assms(2,3)] by blast
  have "p' \<noteq> PNil"
    using ptr_into_nil_iff [OF c(1) [unfolded app_DeepCopy_def]] False by simp
  then show ?thesis
    using c False by (auto simp: app_DeepCopyObject_def)
qed

lemma deep_copied_application_is_independent_witness:
  "\<exists>r s'. app_DeepCopyObject ex_lc (PLoc 0 0) ex_app_store = Some (r, s') \<and>
    (case r of NoObject \<Rightarrow> PLoc 0 0 = PNil \<and> s' = ex_app_store
     | AnObject k p' \<Rightarrow> k = KApp \<and> PLoc 0 0 \<noteq> PNil \<and> p' \<noteq> PNil \<and>
         (\<exists>F'. app_ptr_view ex_lv s' p' = Some (Some ex_app_value, F')
            \<and> app_ptr_view ex_lv s' (PLoc 0 0) = Some (Some ex_app_value, [0, 1, 2, 3])
            \<and> unaffected (app_ptr_view ex_lv) s' p' (Some ex_app_value, F') (dom (st_mem ex_app_store))
            \<and> unaffected (app_ptr_view ex_lv) s' (PLoc 0 0) (Some ex_app_value, [0, 1, 2, 3]) (set F')))"
  by (rule deep_copied_application_is_independent [OF ex_lib_ok ex_app_store_ok ex_app_view])

section \<open>EnvVars\<close>

text \<open>
  The named slice type has the one \<open>DeepCopyInto\<close> that does not keep nil; for any other slice
  it does what the field of a spec does, and \<open>DeepCopy\<close> puts the guard back.
\<close>

lemma env_vars_into_nil: "store_ok s \<Longrightarrow>
    \<exists>s'. env_vars_into SNil s = Some (SArr (st_next s) 0 0, s')
      \<and> slice_view un_env_var env_var_view s' (SArr (st_next s) 0 0) = Some (Some [], [st_next s])"
  by (simp add: env_vars_into_def alloc_def slice_view_def load_range_def)

lemma env_vars_into_slice: "sl \<noteq> SNil \<Longrightarrow>
    env_vars_into sl s = slice_into OZero OEnvVar un_env_var env_var_into sl s"
  by (cases sl) (auto simp: env_vars_into_def slice_into_def)

lemma env_vars_DeepCopy_nil: "env_vars_DeepCopy SNil s = Some (SNil, s)"
  by (simp add: env_vars_DeepCopy_def)



end
