(* ===== verification/Informer_Factory.thy ===== *)
theory Informer_Factory
  imports Api
begin

text \<open>
  The shared informer factory of the client library, \<open>pkg/client/informer/externalversions\<close>
  (\<open>factory.go\<close>, \<open>generic.go\<close>, \<open>suffiks/v1/application.go\<close>): informers by type, each made once
  and run once, under one lock, with a wait group that \<open>Shutdown\<close> waits for. Informers
  themselves (making one, setting its transform, running it) are the library's: an informer is a
  handle \<open>'i\<close>, and what making one does to the rest of the world is a parameter.
\<close>

section \<open>The factory\<close>

text \<open>\<open>'c\<close> is the client set, \<open>'t\<close> a type, \<open>'f\<close> a transform, \<open>'l\<close> the options of a list call.\<close>

record ('c, 't, 'i, 'f, 'l) factory =
  fa_client :: 'c
  fa_namespace :: string
  fa_tweak :: "('l \<Rightarrow> 'l) option"
  fa_defaultResync :: int
  fa_customResync :: "('t, int) gomap"
  fa_transform :: "'f option"
  fa_informers :: "('t, 'i) gomap"
  fa_started :: "('t, bool) gomap"
  fa_wg :: nat
  fa_shuttingDown :: bool

type_synonym ('c, 't, 'i, 'f, 'l) factory_option =
  "('c, 't, 'i, 'f, 'l) factory \<Rightarrow> ('c, 't, 'i, 'f, 'l) factory"

definition WithCustomResyncConfig :: "('t \<times> int) list \<Rightarrow> ('c, 't, 'i, 'f, 'l) factory_option" where
  "WithCustomResyncConfig config f = f\<lparr>fa_customResync := merge_into (fa_customResync f) config\<rparr>"

definition WithTweakListOptions :: "('l \<Rightarrow> 'l) option \<Rightarrow> ('c, 't, 'i, 'f, 'l) factory_option" where
  "WithTweakListOptions tweak f = f\<lparr>fa_tweak := tweak\<rparr>"

definition WithNamespace :: "string \<Rightarrow> ('c, 't, 'i, 'f, 'l) factory_option" where
  "WithNamespace ns f = f\<lparr>fa_namespace := ns\<rparr>"

definition WithTransform :: "'f option \<Rightarrow> ('c, 't, 'i, 'f, 'l) factory_option" where
  "WithTransform tr f = f\<lparr>fa_transform := tr\<rparr>"

definition NewSharedInformerFactoryWithOptions ::
    "'c \<Rightarrow> int \<Rightarrow> ('c, 't, 'i, 'f, 'l) factory_option list \<Rightarrow> ('c, 't, 'i, 'f, 'l) factory" where
  "NewSharedInformerFactoryWithOptions client resync options =
     fold (\<lambda>opt f. opt f) options
       \<lparr>fa_client = client, fa_namespace = '''', fa_tweak = None, fa_defaultResync = resync,
        fa_customResync = [], fa_transform = None, fa_informers = [], fa_started = [], fa_wg = 0,
        fa_shuttingDown = False\<rparr>"

definition NewSharedInformerFactory :: "'c \<Rightarrow> int \<Rightarrow> ('c, 't, 'i, 'f, 'l) factory" where
  "NewSharedInformerFactory client resync = NewSharedInformerFactoryWithOptions client resync []"

definition NewFilteredSharedInformerFactory ::
    "'c \<Rightarrow> int \<Rightarrow> string \<Rightarrow> ('l \<Rightarrow> 'l) option \<Rightarrow> ('c, 't, 'i, 'f, 'l) factory" where
  "NewFilteredSharedInformerFactory client resync ns tweak =
     NewSharedInformerFactoryWithOptions client resync [WithNamespace ns, WithTweakListOptions tweak]"

section \<open>Operations under the lock\<close>

text \<open>
  \<open>InformerFor\<close>. \<open>newFunc\<close> makes an informer, \<open>setTransform\<close> is its method, whose error is not
  looked at; both work on the world \<open>'w\<close> of informers.
\<close>

definition InformerFor ::
    "('f option \<Rightarrow> 'i \<Rightarrow> 'w \<Rightarrow> 'w) \<Rightarrow> 't \<Rightarrow> ('c \<Rightarrow> int \<Rightarrow> 'w \<Rightarrow> 'i \<times> 'w) \<Rightarrow>
     ('c, 't, 'i, 'f, 'l) factory \<Rightarrow> 'w \<Rightarrow> 'i \<times> ('c, 't, 'i, 'f, 'l) factory \<times> 'w" where
  "InformerFor setTransform ty newFunc f w =
     (case mget (fa_informers f) ty of
        Some i \<Rightarrow> (i, f, w)
      | None \<Rightarrow>
          (let resync = (case mget (fa_customResync f) ty of Some r \<Rightarrow> r | None \<Rightarrow> fa_defaultResync f);
               (i, w) = newFunc (fa_client f) resync w;
               w = setTransform (fa_transform f) i w
           in (i, f\<lparr>fa_informers := mset_key ty i (fa_informers f)\<rparr>, w)))"

text \<open>
  \<open>Start\<close>: the loop over the informers (in the order in which Go ranges over the map), with the
  types for which it starts a goroutine.
\<close>

definition is_started :: "('c, 't, 'i, 'f, 'l) factory \<Rightarrow> 't \<Rightarrow> bool" where
  "is_started f ty \<longleftrightarrow> mget (fa_started f) ty = Some True"

fun start_loop :: "('t \<times> 'i) list \<Rightarrow> ('c, 't, 'i, 'f, 'l) factory \<Rightarrow> ('t \<times> 'i) list \<times> ('c, 't, 'i, 'f, 'l) factory" where
  "start_loop [] f = ([], f)"
| "start_loop ((ty, i) # rest) f =
     (if is_started f ty then start_loop rest f
      else (case start_loop rest (f\<lparr>fa_wg := Suc (fa_wg f), fa_started := mset_key ty True (fa_started f)\<rparr>) of
              (new, f') \<Rightarrow> ((ty, i) # new, f')))"

definition factory_Start :: "('c, 't, 'i, 'f, 'l) factory \<Rightarrow> ('t \<times> 'i) list \<times> ('c, 't, 'i, 'f, 'l) factory" where
  "factory_Start f = (if fa_shuttingDown f then ([], f) else start_loop (fa_informers f) f)"

text \<open>\<open>WaitForCacheSync\<close>: the started informers are copied under the lock, and waited for outside it.\<close>

definition started_informers :: "('c, 't, 'i, 'f, 'l) factory \<Rightarrow> ('t, 'i) gomap" where
  "started_informers f = filter (\<lambda>(ty, i). is_started f ty) (fa_informers f)"

definition WaitForCacheSync :: "('i \<Rightarrow> bool) \<Rightarrow> ('c, 't, 'i, 'f, 'l) factory \<Rightarrow> ('t, bool) gomap" where
  "WaitForCacheSync wait f = map (\<lambda>(ty, i). (ty, wait i)) (started_informers f)"

text \<open>\<open>ForResource\<close> and \<open>Suffiks().V1().Applications().Informer()\<close>: the one resource of the group.\<close>

definition ForResource ::
    "('f option \<Rightarrow> 'i \<Rightarrow> 'w \<Rightarrow> 'w) \<Rightarrow> 't \<Rightarrow> (string \<Rightarrow> ('l \<Rightarrow> 'l) option \<Rightarrow> 'c \<Rightarrow> int \<Rightarrow> 'w \<Rightarrow> 'i \<times> 'w) \<Rightarrow>
     string \<times> string \<times> string \<Rightarrow> ('c, 't, 'i, 'f, 'l) factory \<Rightarrow> 'w \<Rightarrow>
     (gerr + 'i \<times> string \<times> string) \<times> ('c, 't, 'i, 'f, 'l) factory \<times> 'w" where
  "ForResource setTransform app_type newApp gvr f w =
     (case gvr of (grp, version, resource) \<Rightarrow>
        if gvr = (''suffiks.com'', ''v1'', ''applications'')
        then (case InformerFor setTransform app_type (newApp (fa_namespace f) (fa_tweak f)) f w of
                (i, f', w') \<Rightarrow> (Inr (i, grp, resource), f', w'))
        else (Inl (EMsg (''no informer found for '' @ grp @ ''/'' @ version @ '', Resource='' @ resource)), f, w))"

section \<open>The informer of applications\<close>

text \<open>
  \<open>NewFilteredApplicationInformer\<close>: what it hands to \<open>cache.NewSharedIndexInformer\<close>. \<open>list\<close> and
  \<open>watch\<close> are the calls of the typed client for a namespace.
\<close>

record ('l, 'r, 's) list_watch =
  lw_list :: "'l \<Rightarrow> 'r"
  lw_watch :: "'l \<Rightarrow> 's"

definition tweaked :: "('l \<Rightarrow> 'l) option \<Rightarrow> 'l \<Rightarrow> 'l" where
  "tweaked tweak opts = (case tweak of None \<Rightarrow> opts | Some t \<Rightarrow> t opts)"

definition application_list_watch ::
    "(string \<Rightarrow> 'l \<Rightarrow> 'r) \<Rightarrow> (string \<Rightarrow> 'l \<Rightarrow> 's) \<Rightarrow> string \<Rightarrow> ('l \<Rightarrow> 'l) option \<Rightarrow> ('l, 'r, 's) list_watch" where
  "application_list_watch list watch ns tweak =
     \<lparr>lw_list = (\<lambda>o1. list ns (tweaked tweak o1)), lw_watch = (\<lambda>o1. watch ns (tweaked tweak o1))\<rparr>"

section \<open>Callers and goroutines\<close>

text \<open>
  The factory in use: callers ask for informers, start, shut down and close their stop channels
  (named by numbers) in any order; a started informer runs in a goroutine of its own until its
  channel is closed. \<open>rs_starts\<close> records, for the proofs only, the types that were started.
\<close>

record ('c, 't, 'i, 'f, 'l, 'w) factory_run =
  fr_factory :: "('c, 't, 'i, 'f, 'l) factory"
  fr_world :: 'w
  fr_running :: "('t \<times> nat) list"
  fr_closed :: "nat set"
  fr_waiting :: nat
  fr_returned :: nat
  fr_starts :: "'t list"

definition factory_begin :: "('c, 't, 'i, 'f, 'l) factory \<Rightarrow> 'w \<Rightarrow> ('c, 't, 'i, 'f, 'l, 'w) factory_run" where
  "factory_begin f w = \<lparr>fr_factory = f, fr_world = w, fr_running = [], fr_closed = {}, fr_waiting = 0,
     fr_returned = 0, fr_starts = []\<rparr>"

inductive factory_step ::
    "('f option \<Rightarrow> 'i \<Rightarrow> 'w \<Rightarrow> 'w) \<Rightarrow> ('c, 't, 'i, 'f, 'l, 'w) factory_run \<Rightarrow>
     ('c, 't, 'i, 'f, 'l, 'w) factory_run \<Rightarrow> bool" for st where
  informer_for: "InformerFor st ty newFunc (fr_factory s) (fr_world s) = (i, f, w) \<Longrightarrow>
    factory_step st s (s\<lparr>fr_factory := f, fr_world := w\<rparr>)"
| start: "factory_Start (fr_factory s) = (new, f) \<Longrightarrow>
    factory_step st s (s\<lparr>fr_factory := f, fr_running := fr_running s @ map (\<lambda>(t, i). (t, ch)) new,
                         fr_starts := fr_starts s @ map fst new\<rparr>)"
| shutdown: "factory_step st s (s\<lparr>fr_factory := (fr_factory s)\<lparr>fa_shuttingDown := True\<rparr>,
                                 fr_waiting := Suc (fr_waiting s)\<rparr>)"
| shutdown_returns: "fr_waiting s = Suc n \<Longrightarrow> fa_wg (fr_factory s) = 0 \<Longrightarrow>
    factory_step st s (s\<lparr>fr_waiting := n, fr_returned := Suc (fr_returned s)\<rparr>)"
| close_channel: "factory_step st s (s\<lparr>fr_closed := insert ch (fr_closed s)\<rparr>)"
| run_ends: "fr_running s = xs @ (t, ch) # ys \<Longrightarrow> ch \<in> fr_closed s \<Longrightarrow>
    factory_step st s (s\<lparr>fr_running := xs @ ys,
                         fr_factory := (fr_factory s)\<lparr>fa_wg := fa_wg (fr_factory s) - 1\<rparr>\<rparr>)"

section \<open>Invariant\<close>

definition fresh_factory :: "('c, 't, 'i, 'f, 'l) factory \<Rightarrow> bool" where
  "fresh_factory f \<longleftrightarrow> fa_informers f = [] \<and> fa_started f = [] \<and> fa_wg f = 0 \<and> \<not> fa_shuttingDown f"

lemma fresh_options:
  "fresh_factory f \<Longrightarrow> fresh_factory (WithCustomResyncConfig c f)"
  "fresh_factory f \<Longrightarrow> fresh_factory (WithTweakListOptions t f)"
  "fresh_factory f \<Longrightarrow> fresh_factory (WithNamespace ns f)"
  "fresh_factory f \<Longrightarrow> fresh_factory (WithTransform tr f)"
  by (simp_all add: fresh_factory_def WithCustomResyncConfig_def WithTweakListOptions_def
      WithNamespace_def WithTransform_def)

lemma fresh_factory_new:
  "(\<And>opt f. opt \<in> set opts \<Longrightarrow> fresh_factory f \<Longrightarrow> fresh_factory (opt f)) \<Longrightarrow>
   fresh_factory (NewSharedInformerFactoryWithOptions client resync opts)"
proof -
  assume opts: "\<And>opt f. opt \<in> set opts \<Longrightarrow> fresh_factory f \<Longrightarrow> fresh_factory (opt f)"
  have "fresh_factory f \<Longrightarrow> fresh_factory (fold (\<lambda>opt f. opt f) opts f)" for f
    using opts by (induction opts arbitrary: f) auto
  then show ?thesis
    unfolding NewSharedInformerFactoryWithOptions_def by (simp add: fresh_factory_def)
qed

lemma start_loop_eq:
  "distinct (map fst xs) \<Longrightarrow> start_loop xs f =
     (let new = filter (\<lambda>(t, i). \<not> is_started f t) xs
      in (new, f\<lparr>fa_wg := fa_wg f + length new,
                 fa_started := fold (\<lambda>(t, i). mset_key t True) new (fa_started f)\<rparr>))"
proof (induction xs arbitrary: f)
  case (Cons x xs)
  obtain t i where x: "x = (t, i)" by fastforce
  let ?f = "f\<lparr>fa_wg := Suc (fa_wg f), fa_started := mset_key t True (fa_started f)\<rparr>"
  have "is_started ?f t' \<longleftrightarrow> is_started f t'" if "(t', i') \<in> set xs" for t' i'
    using that Cons.prems by (force simp: is_started_def x mget_update)
  then have "filter (\<lambda>(t, i). \<not> is_started ?f t) xs = filter (\<lambda>(t, i). \<not> is_started f t) xs"
    by (intro filter_cong) auto
  with Cons show ?case by (simp add: x Let_def)
qed simp

lemma mget_fold_started:
  "mget (fold (\<lambda>(t, i). mset_key t True) new st) t = (if t \<in> fst ` set new then Some True else mget st t)"
  by (induction new arbitrary: st) (auto simp: mget_update)

definition factory_inv :: "('c, 't, 'i, 'f, 'l, 'w) factory_run \<Rightarrow> bool" where
  "factory_inv s \<longleftrightarrow> (let f = fr_factory s in
     gomap_ok (fa_informers f)
     \<and> (\<forall>t. is_started f t \<longleftrightarrow> t \<in> set (fr_starts s))
     \<and> set (fr_starts s) \<subseteq> mkeys (fa_informers f)
     \<and> distinct (fr_starts s)
     \<and> distinct (map fst (fr_running s)) \<and> set (map fst (fr_running s)) \<subseteq> set (fr_starts s)
     \<and> fa_wg f = length (fr_running s)
     \<and> (fr_waiting s > 0 \<or> fr_returned s > 0 \<longrightarrow> fa_shuttingDown f)
     \<and> (fr_returned s > 0 \<longrightarrow> fr_running s = []))"

lemma factory_inv_start:
  assumes inv: "factory_inv s" and st: "factory_Start (fr_factory s) = (new, f)"
  shows "factory_inv (s\<lparr>fr_factory := f, fr_running := fr_running s @ map (\<lambda>(t, i). (t, ch)) new,
           fr_starts := fr_starts s @ map fst new\<rparr>)"
proof (cases "fa_shuttingDown (fr_factory s)")
  case True
  then have "new = []" "f = fr_factory s" using st by (auto simp: factory_Start_def)
  then show ?thesis using inv by (simp add: factory_inv_def)
next
  case False
  let ?f = "fr_factory s"
  have ok: "distinct (map fst (fa_informers ?f))" using inv by (simp add: factory_inv_def Let_def gomap_ok_def)
  have new: "new = filter (\<lambda>(t, i). \<not> is_started ?f t) (fa_informers ?f)"
    and f: "f = ?f\<lparr>fa_wg := fa_wg ?f + length new, fa_started := fold (\<lambda>(t, i). mset_key t True) new (fa_started ?f)\<rparr>"
    using st False by (auto simp: factory_Start_def start_loop_eq [OF ok] Let_def)
  have fsts: "map fst (map (\<lambda>(t, i). (t, ch)) new) = map fst new" by (induction new) auto
  have d: "distinct (map fst new)"
    using ok unfolding new by (induction "fa_informers ?f") (auto simp: distinct_map inj_on_def)
  have sub: "fst ` set new \<subseteq> mkeys (fa_informers ?f)" by (auto simp: new mkeys_def)
  have dis: "fst ` set new \<inter> set (fr_starts s) = {}"
    using inv by (auto simp: new factory_inv_def Let_def)
  have run: "fst ` set (fr_running s) \<inter> fst ` set new = {}"
  proof -
    have "fst ` set (fr_running s) \<subseteq> set (fr_starts s)" using inv by (simp add: factory_inv_def Let_def)
    with dis show ?thesis by blast
  qed
  show ?thesis
    using inv False d sub dis run
    by (auto simp: factory_inv_def Let_def f fsts is_started_def mget_fold_started simp del: map_map)
qed

lemma factory_inv_step: "factory_step st s s' \<Longrightarrow> factory_inv s \<Longrightarrow> factory_inv s'"
proof (induction rule: factory_step.induct)
  case (informer_for ty newFunc s i f w)
  then show ?case
    by (auto simp: InformerFor_def factory_inv_def Let_def is_started_def split: option.splits prod.splits)
next
  case (start s new f ch)
  then show ?case by (blast intro: factory_inv_start)
qed (auto simp: factory_inv_def Let_def is_started_def)

lemma factory_inv_reach:
  assumes "fresh_factory f0" "(factory_step st)\<^sup>*\<^sup>* (factory_begin f0 w) s"
  shows "factory_inv s"
  using assms(2)
proof (induction rule: rtranclp_induct)
  case base
  show ?case using assms(1) by (simp add: factory_inv_def factory_begin_def fresh_factory_def is_started_def)
next
  case (step s s')
  then show ?case by (blast intro: factory_inv_step)
qed

section \<open>Properties\<close>

text \<open>An informer, once made, is the one every later caller gets.\<close>

lemma start_loop_informers: "fa_informers (snd (start_loop xs f)) = fa_informers f"
  by (induction xs f rule: start_loop.induct) (auto split: prod.splits)

lemma factory_Start_informers: "factory_Start f = (new, f') \<Longrightarrow> fa_informers f' = fa_informers f"
  using start_loop_informers [of "fa_informers f" f] by (auto simp: factory_Start_def split: if_splits)

lemma factory_step_keeps_informer:
  "factory_step st s s' \<Longrightarrow> mget (fa_informers (fr_factory s)) ty = Some i \<Longrightarrow>
   mget (fa_informers (fr_factory s')) ty = Some i"
proof (induction rule: factory_step.induct)
  case (informer_for ty' newFunc s i' f w)
  then show ?case
    by (auto simp: InformerFor_def Let_def mget_update split: option.splits prod.splits)
next
  case (start s new f ch)
  then show ?case by (simp add: factory_Start_informers)
qed auto

lemma informer_is_shared:
  assumes "(factory_step st)\<^sup>*\<^sup>* s s'" "mget (fa_informers (fr_factory s)) ty = Some i"
  shows "InformerFor st ty newFunc (fr_factory s') w = (i, fr_factory s', w)"
proof -
  from assms have "mget (fa_informers (fr_factory s')) ty = Some i"
    by (induction rule: rtranclp_induct) (auto intro: factory_step_keeps_informer)
  then show ?thesis by (simp add: InformerFor_def)
qed

text \<open>After a \<open>Start\<close> that is not too late, every informer made so far has been started.\<close>

lemma start_starts_all:
  assumes "factory_inv s" "\<not> fa_shuttingDown (fr_factory s)" "factory_Start (fr_factory s) = (new, f)"
  shows "started_informers f = fa_informers f"
proof -
  have ok: "distinct (map fst (fa_informers (fr_factory s)))"
    using assms(1) by (simp add: factory_inv_def Let_def gomap_ok_def)
  show ?thesis
    using assms(2,3)
    by (force simp: factory_Start_def start_loop_eq [OF ok] Let_def started_informers_def is_started_def
        mget_fold_started intro: filter_True)
qed

text \<open>Once \<open>Shutdown\<close> was called nothing is started.\<close>

lemma shutting_down_stays:
  "factory_step st s s' \<Longrightarrow> fa_shuttingDown (fr_factory s) \<Longrightarrow>
   fa_shuttingDown (fr_factory s') \<and> fr_starts s' = fr_starts s
   \<and> (fr_running s = [] \<longrightarrow> fr_running s' = []) \<and> fr_returned s \<le> fr_returned s'"
  by (induction rule: factory_step.induct)
    (auto simp: InformerFor_def factory_Start_def Let_def split: option.splits prod.splits)

lemma shutting_down_reach:
  "(factory_step st)\<^sup>*\<^sup>* s s' \<Longrightarrow> fa_shuttingDown (fr_factory s) \<Longrightarrow>
   fa_shuttingDown (fr_factory s') \<and> fr_starts s' = fr_starts s \<and> (fr_running s = [] \<longrightarrow> fr_running s' = [])"
  by (induction rule: rtranclp_induct) (auto dest: shutting_down_stays)

text \<open>A waiting \<open>Shutdown\<close> is never stuck: when all stop channels are closed it can return.\<close>

lemma shutdown_can_return:
  assumes "factory_inv s" "0 < fr_waiting s" "snd ` set (fr_running s) \<subseteq> fr_closed s"
  shows "\<exists>s'. (factory_step st)\<^sup>*\<^sup>* s s' \<and> fr_returned s' = Suc (fr_returned s)"
  using assms
proof (induction "length (fr_running s)" arbitrary: s)
  case 0
  then obtain n where "fr_waiting s = Suc n" "fa_wg (fr_factory s) = 0"
    by (cases "fr_waiting s") (auto simp: factory_inv_def Let_def)
  from factory_step.shutdown_returns [OF this, of st] show ?case
    by (intro exI [of _ "s\<lparr>fr_waiting := n, fr_returned := Suc (fr_returned s)\<rparr>"]) auto
next
  case (Suc k)
  then obtain t ch ys where r: "fr_running s = (t, ch) # ys" by (cases "fr_running s") auto
  let ?t = "s\<lparr>fr_running := ys, fr_factory := (fr_factory s)\<lparr>fa_wg := fa_wg (fr_factory s) - 1\<rparr>\<rparr>"
  have st: "factory_step st s ?t"
    using factory_step.run_ends [of s "[]" t ch ys st] r Suc.prems(3) by auto
  then obtain s' where "(factory_step st)\<^sup>*\<^sup>* ?t s'" "fr_returned s' = Suc (fr_returned ?t)"
    using Suc.hyps(1) [of ?t] Suc.hyps(2) Suc.prems r factory_inv_step [OF st] by auto
  with st show ?case by (auto intro: converse_rtranclp_into_rtranclp)
qed

text \<open>
  C38: However callers interleave, the informer of a type is started at most once and only after it
  was made, the wait group counts exactly the running goroutines, and when a \<open>Shutdown\<close> has
  returned none is running and none will be started in any continuation.
\<close>

theorem informers_run_once:
  assumes "fresh_factory f0" "(factory_step st)\<^sup>*\<^sup>* (factory_begin f0 w) s"
  shows "distinct (fr_starts s) \<and> set (fr_starts s) \<subseteq> mkeys (fa_informers (fr_factory s))
    \<and> fa_wg (fr_factory s) = length (fr_running s)
    \<and> (0 < fr_returned s \<longrightarrow> (\<forall>s'. (factory_step st)\<^sup>*\<^sup>* s s' \<longrightarrow> fr_running s' = [] \<and> fr_starts s' = fr_starts s))"
proof -
  have inv: "factory_inv s" by (rule factory_inv_reach [OF assms])
  then have "0 < fr_returned s \<Longrightarrow> fa_shuttingDown (fr_factory s) \<and> fr_running s = []"
    by (simp add: factory_inv_def Let_def)
  then have "fr_running s' = [] \<and> fr_starts s' = fr_starts s"
    if "0 < fr_returned s" "(factory_step st)\<^sup>*\<^sup>* s s'" for s'
    using shutting_down_reach [OF that(2)] that(1) by blast
  moreover have "distinct (fr_starts s) \<and> set (fr_starts s) \<subseteq> mkeys (fa_informers (fr_factory s))
      \<and> fa_wg (fr_factory s) = length (fr_running s)"
    using inv by (simp add: factory_inv_def Let_def)
  ultimately show ?thesis by blast
qed

text \<open>A run: the informer of applications is asked for, started, and shut down.\<close>

definition ex_factory :: "(unit, string, nat, unit, unit) factory" where
  "ex_factory = NewSharedInformerFactory () 30"

definition ex_run :: "(unit, string, nat, unit, unit, nat) factory_run" where
  "ex_run = \<lparr>fr_factory = ex_factory\<lparr>fa_informers := [(''Application'', 0)],
       fa_started := [(''Application'', True)], fa_shuttingDown := True, fa_wg := 0\<rparr>,
     fr_world = 1, fr_running = [], fr_closed = {7}, fr_waiting = 0, fr_returned = 1,
     fr_starts = [''Application'']\<rparr>"

lemma ex_factory_fresh: "fresh_factory ex_factory"
  unfolding ex_factory_def NewSharedInformerFactory_def by (rule fresh_factory_new) simp

lemma ex_run_reached: "(factory_step (\<lambda>_ _ w. w))\<^sup>*\<^sup>* (factory_begin ex_factory 0) ex_run"
proof -
  let ?st = "\<lambda>_ _ w. w :: nat"
  let ?s0 = "factory_begin ex_factory 0"
  let ?f1 = "ex_factory\<lparr>fa_informers := [(''Application'', 0)]\<rparr>"
  let ?s1 = "?s0\<lparr>fr_factory := ?f1, fr_world := 1\<rparr>"
  let ?f2 = "?f1\<lparr>fa_wg := 1, fa_started := [(''Application'', True)]\<rparr>"
  let ?s2 = "?s1\<lparr>fr_factory := ?f2, fr_running := [(''Application'', 7)], fr_starts := [''Application'']\<rparr>"
  let ?s3 = "?s2\<lparr>fr_factory := ?f2\<lparr>fa_shuttingDown := True\<rparr>, fr_waiting := 1\<rparr>"
  let ?s4 = "?s3\<lparr>fr_closed := {7}\<rparr>"
  let ?s5 = "?s4\<lparr>fr_running := [], fr_factory := ?f2\<lparr>fa_shuttingDown := True, fa_wg := 0\<rparr>\<rparr>"
  have f: "fa_informers ex_factory = []" "fa_started ex_factory = []" "fa_wg ex_factory = 0"
      "\<not> fa_shuttingDown ex_factory" "fa_customResync ex_factory = []"
    by (simp_all add: ex_factory_def NewSharedInformerFactory_def NewSharedInformerFactoryWithOptions_def)
  have "factory_step ?st ?s0 ?s1"
    using factory_step.informer_for [of ?st "''Application''" "\<lambda>_ _ w. (w, Suc w)" ?s0 0 ?f1 1]
    by (simp add: InformerFor_def factory_begin_def f)
  moreover have "factory_step ?st ?s1 ?s2"
    using factory_step.start [of ?s1 "[(''Application'', 0)]" ?f2 ?st 7]
    by (simp add: factory_Start_def is_started_def factory_begin_def f)
  moreover have "factory_step ?st ?s2 ?s3"
    using factory_step.shutdown [of ?st ?s2] by (simp add: factory_begin_def)
  moreover have "factory_step ?st ?s3 ?s4"
    using factory_step.close_channel [of ?st ?s3 7] by (simp add: factory_begin_def)
  moreover have "factory_step ?st ?s4 ?s5"
    using factory_step.run_ends [of ?s4 "[]" "''Application''" 7 "[]" ?st] by (simp add: factory_begin_def f)
  moreover have "factory_step ?st ?s5 ex_run"
    using factory_step.shutdown_returns [of ?s5 0 ?st] by (simp add: factory_begin_def ex_run_def f)
  ultimately show ?thesis by (meson converse_rtranclp_into_rtranclp rtranclp.rtrancl_refl)
qed

theorem informers_run_once_witness:
  "distinct (fr_starts ex_run) \<and> set (fr_starts ex_run) \<subseteq> mkeys (fa_informers (fr_factory ex_run))
    \<and> fa_wg (fr_factory ex_run) = length (fr_running ex_run) \<and> fr_returned ex_run = 1 \<and> fr_running ex_run = []"
  using informers_run_once [OF ex_factory_fresh ex_run_reached]
  by (simp add: ex_run_def)

section \<open>The lister\<close>

text \<open>
  \<open>lister/suffiks/v1/application.go\<close>: reading an indexer. \<open>cache.ListAll\<close>, \<open>ListAllByNamespace\<close> and
  \<open>GetByKey\<close> are the indexer's, given as what they hand to the callback, with their error. An
  object is an application or something else, for which the type assertion panics.
\<close>

datatype 'a indexed = AppObj 'a | OtherObj

record ('a, 's) indexer =
  ix_list :: "'s \<Rightarrow> 'a indexed list \<times> gerr option"
  ix_listNamespace :: "string \<Rightarrow> 's \<Rightarrow> 'a indexed list \<times> gerr option"
  ix_getByKey :: "string \<Rightarrow> gerr + 'a indexed option"

fun assert_apps :: "'a indexed list \<Rightarrow> gerr + 'a list" where
  "assert_apps [] = Inr []"
| "assert_apps (OtherObj # xs) = Inl (EPanic ''interface conversion'')"
| "assert_apps (AppObj a # xs) = (case assert_apps xs of Inl e \<Rightarrow> Inl e | Inr as \<Rightarrow> Inr (a # as))"

definition not_found_text :: "string \<Rightarrow> string" where
  "not_found_text name = ''application.suffiks.com '' @ [CHR 0x22] @ name @ [CHR 0x22] @ '' not found''"

definition lister_List :: "('a, 's) indexer \<Rightarrow> 's \<Rightarrow> gerr + 'a list \<times> gerr option" where
  "lister_List ix sel = (case ix_list ix sel of (xs, err) \<Rightarrow>
     (case assert_apps xs of Inl e \<Rightarrow> Inl e | Inr as \<Rightarrow> Inr (as, err)))"

definition namespace_lister_List :: "('a, 's) indexer \<Rightarrow> string \<Rightarrow> 's \<Rightarrow> gerr + 'a list \<times> gerr option" where
  "namespace_lister_List ix ns sel = (case ix_listNamespace ix ns sel of (xs, err) \<Rightarrow>
     (case assert_apps xs of Inl e \<Rightarrow> Inl e | Inr as \<Rightarrow> Inr (as, err)))"

definition namespace_lister_Get :: "('a, 's) indexer \<Rightarrow> string \<Rightarrow> string \<Rightarrow> gerr + 'a" where
  "namespace_lister_Get ix ns name =
     (case ix_getByKey ix (ns @ ''/'' @ name) of
        Inl e \<Rightarrow> Inl e
      | Inr None \<Rightarrow> Inl (EApi RNotFound (not_found_text name))
      | Inr (Some (AppObj a)) \<Rightarrow> Inr a
      | Inr (Some OtherObj) \<Rightarrow> Inl (EPanic ''interface conversion''))"

text \<open>
  The store of an informer keys an object by \<open>MetaNamespaceKeyFunc\<close>: namespace, slash and name, or
  the name alone when there is no namespace.
\<close>

definition meta_key :: "string \<Rightarrow> string \<Rightarrow> string" where
  "meta_key ns name = (if ns = '''' then name else ns @ ''/'' @ name)"

definition store_indexer :: "((string \<times> string) \<times> 'a) list \<Rightarrow> ('a, 's) indexer" where
  "store_indexer objs =
     \<lparr>ix_list = (\<lambda>_. (map (AppObj \<circ> snd) objs, None)),
      ix_listNamespace = (\<lambda>ns _. (map (AppObj \<circ> snd) (filter (\<lambda>o1. fst (fst o1) = ns) objs), None)),
      ix_getByKey = (\<lambda>k. Inr (map_option AppObj (map_of (map (\<lambda>((ns, n), a). (meta_key ns n, a)) objs) k)))\<rparr>"

lemma meta_key_inj:
  assumes "CHR ''/'' \<notin> set a" "CHR ''/'' \<notin> set b" "CHR ''/'' \<notin> set n" "CHR ''/'' \<notin> set m" "a \<noteq> ''''"
  shows "meta_key b m = a @ ''/'' @ n \<longleftrightarrow> b = a \<and> m = n"
proof -
  have "a @ CHR ''/'' # n = b @ CHR ''/'' # m \<longleftrightarrow> a = b \<and> n = m"
    by (rule append_Cons_eq_iff) (use assms in auto)
  moreover have "m \<noteq> a @ CHR ''/'' # n" using assms(4) by auto
  ultimately show ?thesis using assms by (auto simp: meta_key_def)
qed

text \<open>
  For names without a slash \<open>Get\<close> in a namespace finds exactly the object the informer stored
  under that namespace and name; the lister of the empty namespace finds nothing.
\<close>

definition slash_free :: "((string \<times> string) \<times> 'a) list \<Rightarrow> bool" where
  "slash_free objs \<longleftrightarrow> (\<forall>((ns, n), a) \<in> set objs. CHR ''/'' \<notin> set ns \<and> CHR ''/'' \<notin> set n)"

lemma lister_get_stored:
  assumes "slash_free objs" "CHR ''/'' \<notin> set ns" "CHR ''/'' \<notin> set name" "ns \<noteq> ''''"
  shows "namespace_lister_Get (store_indexer objs) ns name =
    (case map_of objs (ns, name) of Some a \<Rightarrow> Inr a
     | None \<Rightarrow> Inl (EApi RNotFound (not_found_text name)))"
proof -
  have "map_of (map (\<lambda>((ns, n), a). (meta_key ns n, a)) objs) (ns @ ''/'' @ name) = map_of objs (ns, name)"
    using assms(1)
  proof (induction objs)
    case (Cons o1 objs)
    obtain ns' n' a where o1: "o1 = ((ns', n'), a)" by (metis surj_pair)
    with Cons.prems have "meta_key ns' n' = ns @ ''/'' @ name \<longleftrightarrow> ns' = ns \<and> n' = name"
      by (intro meta_key_inj) (use assms in \<open>auto simp: slash_free_def\<close>)
    with Cons show ?case by (auto simp: o1 slash_free_def)
  qed simp
  then show ?thesis
    by (simp add: namespace_lister_Get_def store_indexer_def split: option.split)
qed

lemma lister_empty_namespace_finds_nothing:
  assumes "slash_free objs" "CHR ''/'' \<notin> set name"
  shows "namespace_lister_Get (store_indexer objs) '''' name =
    Inl (EApi RNotFound (not_found_text name))"
proof -
  have "map_of (map (\<lambda>((ns, n), a). (meta_key ns n, a)) objs) (''/'' @ name) = None"
    using assms(1)
  proof (induction objs)
    case (Cons o1 objs)
    obtain ns' n' a where o1: "o1 = ((ns', n'), a)" by (metis surj_pair)
    with Cons.prems have "CHR ''/'' \<notin> set ns'" "CHR ''/'' \<notin> set n'" by (auto simp: slash_free_def)
    then have "meta_key ns' n' \<noteq> ''/'' @ name" by (cases ns') (auto simp: meta_key_def)
    with Cons show ?case by (auto simp: o1 slash_free_def)
  qed simp
  then show ?thesis by (simp add: namespace_lister_Get_def store_indexer_def)
qed

end
