(* ===== verification/Typed_Client.thy ===== *)
theory Typed_Client
  imports Api
begin

text \<open>
  The typed client of applications, \<open>pkg/client/clientset/versioned\<close>: the requests it sends
  (\<open>typed/suffiks/v1/application.go\<close>), the actions its fake records instead
  (\<open>fake/fake_application.go\<close>), and the making of clients (\<open>clientset.go\<close>,
  \<open>suffiks_client.go\<close>). The REST client, the object tracker behind the fake, and the answers of
  both are parameters.
\<close>

section \<open>Operations\<close>

text \<open>
  The calls of \<open>ApplicationInterface\<close>. \<open>'a\<close> is an application, with its name; options are opaque
  (\<open>'o\<close>), except for what the client reads of list options: the timeout and the watch flag.
\<close>

record 'o list_options =
  lo_timeoutSeconds :: "64 word option"
  lo_watch :: bool
  lo_rest :: 'o

datatype ('a, 'o, 'p) client_call =
    CGet string 'o
  | CList "'o list_options"
  | CWatch "'o list_options"
  | CCreate 'a 'o
  | CUpdate 'a 'o
  | CUpdateStatus 'a 'o
  | CDelete string 'o
  | CDeleteCollection 'o "'o list_options"
  | CPatch string 'p raw 'o "string list"

section \<open>Requests\<close>

datatype 'p http_verb = VGet | VPost | VPut | VDelete | VPatch 'p

datatype ('a, 'o) body = NoBody | ObjectBody 'a | OptionsBody 'o | BytesBody raw

datatype 'o params = NoParams | Params 'o | ListParams "'o list_options"

text \<open>How the request ends: decoded into a result, only its error, or as a watch.\<close>

datatype ending = IntoResult | OnlyError | Watched

record ('a, 'o, 'p) rest_request =
  rq_verb :: "'p http_verb"
  rq_namespace :: string
  rq_resource :: string
  rq_name :: "string option"
  rq_subresources :: "string list"
  rq_params :: "'o params"
  rq_timeout :: "64 word option"
  rq_body :: "('a, 'o) body"
  rq_ending :: ending

definition new_request :: "'p http_verb \<Rightarrow> string \<Rightarrow> ('a, 'o, 'p) rest_request" where
  "new_request verb ns = \<lparr>rq_verb = verb, rq_namespace = ns, rq_resource = ''applications'', rq_name = None,
     rq_subresources = [], rq_params = NoParams, rq_timeout = None, rq_body = NoBody,
     rq_ending = IntoResult\<rparr>"

text \<open>
  \<open>time.Duration(*opts.TimeoutSeconds) * time.Second\<close>, a product of 64-bit integers; zero when
  there is no timeout.
\<close>

definition client_timeout :: "64 word option \<Rightarrow> 64 word" where
  "client_timeout seconds = (case seconds of None \<Rightarrow> 0 | Some n \<Rightarrow> n * 1000000000)"

definition client_get where
  "client_get ns name opts = (new_request VGet ns)\<lparr>rq_name := Some name, rq_params := Params opts\<rparr>"

definition client_list where
  "client_list ns opts = (new_request VGet ns)\<lparr>rq_params := ListParams opts,
     rq_timeout := Some (client_timeout (lo_timeoutSeconds opts))\<rparr>"

definition client_watch where
  "client_watch ns opts = (new_request VGet ns)\<lparr>rq_params := ListParams (opts\<lparr>lo_watch := True\<rparr>),
     rq_timeout := Some (client_timeout (lo_timeoutSeconds opts)), rq_ending := Watched\<rparr>"

definition client_create where
  "client_create ns app opts = (new_request VPost ns)\<lparr>rq_params := Params opts, rq_body := ObjectBody app\<rparr>"

definition client_update where
  "client_update app_name ns app opts = (new_request VPut ns)\<lparr>rq_name := Some (app_name app),
     rq_params := Params opts, rq_body := ObjectBody app\<rparr>"

definition client_update_status where
  "client_update_status app_name ns app opts = (new_request VPut ns)\<lparr>rq_name := Some (app_name app),
     rq_subresources := [''status''], rq_params := Params opts, rq_body := ObjectBody app\<rparr>"

definition client_delete where
  "client_delete ns name opts = (new_request VDelete ns)\<lparr>rq_name := Some name,
     rq_body := OptionsBody opts, rq_ending := OnlyError\<rparr>"

definition client_delete_collection where
  "client_delete_collection ns opts listOpts = (new_request VDelete ns)\<lparr>rq_params := ListParams listOpts,
     rq_timeout := Some (client_timeout (lo_timeoutSeconds listOpts)),
     rq_body := OptionsBody opts, rq_ending := OnlyError\<rparr>"

definition client_patch where
  "client_patch ns name pt bytes opts subs = (new_request (VPatch pt) ns)\<lparr>rq_name := Some name,
     rq_subresources := subs, rq_params := Params opts, rq_body := BytesBody bytes\<rparr>"

fun client_request :: "('a \<Rightarrow> string) \<Rightarrow> string \<Rightarrow> ('a, 'o, 'p) client_call \<Rightarrow> ('a, 'o, 'p) rest_request" where
  "client_request nm ns (CGet name opts) = client_get ns name opts"
| "client_request nm ns (CList opts) = client_list ns opts"
| "client_request nm ns (CWatch opts) = client_watch ns opts"
| "client_request nm ns (CCreate app opts) = client_create ns app opts"
| "client_request nm ns (CUpdate app opts) = client_update nm ns app opts"
| "client_request nm ns (CUpdateStatus app opts) = client_update_status nm ns app opts"
| "client_request nm ns (CDelete name opts) = client_delete ns name opts"
| "client_request nm ns (CDeleteCollection opts listOpts) = client_delete_collection ns opts listOpts"
| "client_request nm ns (CPatch name pt bytes opts subs) = client_patch ns name pt bytes opts subs"

text \<open>The answer of the API: \<open>Into\<close> fills the result, which was made empty, or leaves it so.\<close>

definition client_result :: "'r \<Rightarrow> (gerr + 'r) \<Rightarrow> 'r \<times> gerr option" where
  "client_result zero answer = (case answer of Inl e \<Rightarrow> (zero, Some e) | Inr r \<Rightarrow> (r, None))"

section \<open>The fake\<close>

text \<open>The actions of \<open>client-go/testing\<close>, with the resource they name.\<close>

datatype ('a, 'o, 'p) action_kind =
    KGet string
  | KList "'o list_options"
  | KWatch "'o list_options"
  | KCreate 'a
  | KUpdate 'a
  | KDelete string 'o
  | KDeleteCollection "'o list_options"
  | KPatch string 'p raw

record ('a, 'o, 'p) app_action =
  ka_resource :: "string \<times> string \<times> string"
  ka_namespace :: string
  ka_subresource :: string
  ka_kind :: "('a, 'o, 'p) action_kind"

definition applicationsResource :: "string \<times> string \<times> string" where
  "applicationsResource = (''suffiks.com'', ''v1'', ''applications'')"

definition app_action :: "string \<Rightarrow> string \<Rightarrow> ('a, 'o, 'p) action_kind \<Rightarrow> ('a, 'o, 'p) app_action" where
  "app_action ns sub k = \<lparr>ka_resource = applicationsResource, ka_namespace = ns, ka_subresource = sub, ka_kind = k\<rparr>"

text \<open>\<open>join\<close> is \<open>path.Join\<close>, with which \<open>NewPatchSubresourceAction\<close> joins the sub-resources.\<close>

fun fake_request :: "(string list \<Rightarrow> string) \<Rightarrow> string \<Rightarrow> ('a, 'o, 'p) client_call \<Rightarrow> ('a, 'o, 'p) app_action" where
  "fake_request join ns (CGet name opts) = app_action ns '''' (KGet name)"
| "fake_request join ns (CList opts) = app_action ns '''' (KList opts)"
| "fake_request join ns (CWatch opts) = app_action ns '''' (KWatch opts)"
| "fake_request join ns (CCreate app opts) = app_action ns '''' (KCreate app)"
| "fake_request join ns (CUpdate app opts) = app_action ns '''' (KUpdate app)"
| "fake_request join ns (CUpdateStatus app opts) = app_action ns ''status'' (KUpdate app)"
| "fake_request join ns (CDelete name opts) = app_action ns '''' (KDelete name opts)"
| "fake_request join ns (CDeleteCollection opts listOpts) = app_action ns '''' (KDeleteCollection listOpts)"
| "fake_request join ns (CPatch name pt bytes opts subs) = app_action ns (join subs) (KPatch name pt bytes)"

text \<open>
  What a call makes of the answer. \<open>if obj == nil { return nil, err }\<close> comes before the type
  assertion, so the nil interface is no panic; deletions return the error alone.
\<close>

datatype 'a returned = NilObject | AppReturned 'a | OtherReturned

definition fake_result :: "'a returned \<times> gerr option \<Rightarrow> gerr + 'a option \<times> gerr option" where
  "fake_result answer = (case answer of
       (NilObject, err) \<Rightarrow> Inr (None, err)
     | (AppReturned a, err) \<Rightarrow> Inr (Some a, err)
     | (OtherReturned, err) \<Rightarrow> Inl (EPanic ''interface conversion''))"

definition fake_app_call ::
    "(('a, 'o, 'p) app_action \<Rightarrow> 'w \<Rightarrow> ('a returned \<times> gerr option) \<times> 'w) \<Rightarrow> (string list \<Rightarrow> string) \<Rightarrow> string \<Rightarrow>
     ('a, 'o, 'p) client_call \<Rightarrow> 'w \<Rightarrow> (gerr + 'a option \<times> gerr option) \<times> 'w" where
  "fake_app_call invokes join ns c w =
     (case invokes (fake_request join ns c) w of (answer, w1) \<Rightarrow> (fake_result answer, w1))"

definition fake_delete_call ::
    "(('a, 'o, 'p) app_action \<Rightarrow> 'w \<Rightarrow> ('a returned \<times> gerr option) \<times> 'w) \<Rightarrow> (string list \<Rightarrow> string) \<Rightarrow> string \<Rightarrow>
     ('a, 'o, 'p) client_call \<Rightarrow> 'w \<Rightarrow> gerr option \<times> 'w" where
  "fake_delete_call invokes join ns c w =
     (case invokes (fake_request join ns c) w of ((_, err), w1) \<Rightarrow> (err, w1))"

text \<open>
  \<open>List\<close> filters what the tracker returns by the label selector of the options (everything, when
  there is none), and keeps the list's metadata.
\<close>

definition fake_list_result ::
    "('o list_options \<Rightarrow> ('a \<Rightarrow> bool) option) \<Rightarrow> 'o list_options \<Rightarrow> ('m \<times> 'a list) option \<times> gerr option \<Rightarrow>
     ('m \<times> 'a list) option \<times> gerr option" where
  "fake_list_result label opts answer =
     (case answer of
        (None, err) \<Rightarrow> (None, err)
      | (Some (meta, items), err) \<Rightarrow>
          (let matches = (case label opts of None \<Rightarrow> (\<lambda>_. True) | Some l \<Rightarrow> l)
           in (Some (meta, filter matches items), err)))"

section \<open>Making clients\<close>

text \<open>The queries per second are a \<open>float32\<close>, of which only the sign is read here.\<close>

record ('r, 'g) rest_config =
  rc_userAgent :: string
  rc_rateLimiter :: "'r option"
  rc_qps :: int
  rc_burst :: int
  rc_groupVersion :: "'g option"
  rc_apiPath :: string

definition setConfigDefaults :: "string \<Rightarrow> 'g \<Rightarrow> ('r, 'g) rest_config \<Rightarrow> ('r, 'g) rest_config" where
  "setConfigDefaults defaultAgent gv c =
     (let c = c\<lparr>rc_groupVersion := Some gv, rc_apiPath := ''/apis''\<rparr>
      in if rc_userAgent c = '''' then c\<lparr>rc_userAgent := defaultAgent\<rparr> else c)"

text \<open>\<open>NewForConfigAndClient\<close> of \<open>SuffiksV1Client\<close>; \<open>restClient\<close> is the library's constructor.\<close>

definition v1_NewForConfigAndClient where
  "v1_NewForConfigAndClient agent gv restClient c h = (restClient (setConfigDefaults agent gv c) h :: gerr + 'k)"

definition v1_NewForConfig where
  "v1_NewForConfig agent gv httpClient restClient c =
     (let config = setConfigDefaults agent gv c
      in case httpClient config of
           Inl e \<Rightarrow> Inl e
         | Inr h \<Rightarrow> v1_NewForConfigAndClient agent gv restClient config h)"

definition v1_NewForConfigOrDie where
  "v1_NewForConfigOrDie agent gv httpClient restClient c =
     (case v1_NewForConfig agent gv httpClient restClient c of
        Inl _ \<Rightarrow> Inl (EPanic ''NewForConfigOrDie'') | Inr k \<Rightarrow> Inr k)"

text \<open>
  \<open>NewForConfigAndClient\<close> of the client set: the caller's configuration is copied, so the rate
  limiter made here is not seen outside, and both clients share it.
\<close>

definition NewForConfigAndClient where
  "NewForConfigAndClient newLimiter agent gv restClient discovery c h =
     (let mk = rc_rateLimiter c = None \<and> rc_qps c > 0
      in if mk \<and> rc_burst c \<le> 0
         then Inl (EMsg ''burst is required to be greater than 0 when RateLimiter is not set and QPS is set to greater than 0'')
         else (let c = (if mk then c\<lparr>rc_rateLimiter := Some (newLimiter (rc_qps c) (rc_burst c))\<rparr> else c)
               in case v1_NewForConfigAndClient agent gv restClient c h of
                    Inl e \<Rightarrow> Inl e
                  | Inr v1 \<Rightarrow> (case discovery c h of Inl e \<Rightarrow> Inl e | Inr d \<Rightarrow> Inr (v1, d))))"

definition NewForConfig where
  "NewForConfig httpClient newLimiter agent gv restClient discovery c =
     (let c = (if rc_userAgent c = '''' then c\<lparr>rc_userAgent := agent\<rparr> else c)
      in case httpClient c of
           Inl e \<Rightarrow> Inl e
         | Inr h \<Rightarrow> NewForConfigAndClient newLimiter agent gv restClient discovery c h)"

definition NewForConfigOrDie where
  "NewForConfigOrDie httpClient newLimiter agent gv restClient discovery c =
     (case NewForConfig httpClient newLimiter agent gv restClient discovery c of
        Inl e \<Rightarrow> Inl (EPanic ''NewForConfigOrDie'') | Inr cs \<Rightarrow> Inr cs)"

section \<open>The fake client set\<close>

text \<open>
  \<open>NewSimpleClientset\<close> adds the objects to the tracker, whose error is a panic; its watch reactor
  leaves an action the tracker cannot watch to the next reactor.
\<close>

fun NewSimpleClientset :: "('x \<Rightarrow> 't \<Rightarrow> gerr + 't) \<Rightarrow> 'x list \<Rightarrow> 't \<Rightarrow> gerr + 't" where
  "NewSimpleClientset add [] t = Inr t"
| "NewSimpleClientset add (x # xs) t =
     (case add x t of Inl e \<Rightarrow> Inl (EPanic ''NewSimpleClientset'') | Inr t1 \<Rightarrow> NewSimpleClientset add xs t1)"

definition watch_reactor ::
    "(string \<times> string \<times> string \<Rightarrow> string \<Rightarrow> gerr + 'w) \<Rightarrow> ('a, 'o, 'p) app_action \<Rightarrow>
     bool \<times> 'w option \<times> gerr option" where
  "watch_reactor watch x = (case watch (ka_resource x) (ka_namespace x) of
     Inl e \<Rightarrow> (False, None, Some e) | Inr w \<Rightarrow> (True, Some w, None))"

lemma simple_clientset_adds_all:
  "NewSimpleClientset add xs t = Inr t' \<Longrightarrow> fold (\<lambda>x t. case add x t of Inl _ \<Rightarrow> t | Inr t1 \<Rightarrow> t1) xs t = t'"
  by (induction add xs t rule: NewSimpleClientset.induct) (auto split: sum.splits)

section \<open>Client and fake\<close>

text \<open>
  What a request asks of the API, by the API's conventions: the verb follows from the method and
  from whether there is a name. Options are left out, the fake keeps only some of them.
\<close>

record 'b api_op =
  op_verb :: string
  op_resource :: string
  op_namespace :: string
  op_name :: "string option"
  op_subresource :: string
  op_object :: 'b

definition api_verb :: "('a, 'o, 'p) rest_request \<Rightarrow> string" where
  "api_verb r = (case rq_verb r of
       VGet \<Rightarrow> if rq_ending r = Watched then ''watch'' else if rq_name r = None then ''list'' else ''get''
     | VPost \<Rightarrow> ''create''
     | VPut \<Rightarrow> ''update''
     | VDelete \<Rightarrow> if rq_name r = None then ''deletecollection'' else ''delete''
     | VPatch _ \<Rightarrow> ''patch'')"

definition op_of_request :: "(string list \<Rightarrow> string) \<Rightarrow> ('a, 'o, 'p) rest_request
    \<Rightarrow> (('a, 'o) body \<times> 'p option) api_op" where
  "op_of_request join r = \<lparr>op_verb = api_verb r, op_resource = rq_resource r, op_namespace = rq_namespace r,
     op_name = rq_name r, op_subresource = join (rq_subresources r),
     op_object = ((case rq_body r of OptionsBody _ \<Rightarrow> NoBody | b \<Rightarrow> b),
                  (case rq_verb r of VPatch p \<Rightarrow> Some p | _ \<Rightarrow> None))\<rparr>"

definition kind_op :: "('a \<Rightarrow> string) \<Rightarrow> ('a, 'o, 'p) action_kind
    \<Rightarrow> string \<times> string option \<times> ('a, 'o) body \<times> 'p option" where
  "kind_op nm k = (case k of
       KGet n \<Rightarrow> (''get'', Some n, NoBody, None)
     | KList _ \<Rightarrow> (''list'', None, NoBody, None)
     | KWatch _ \<Rightarrow> (''watch'', None, NoBody, None)
     | KCreate a \<Rightarrow> (''create'', None, ObjectBody a, None)
     | KUpdate a \<Rightarrow> (''update'', Some (nm a), ObjectBody a, None)
     | KDelete n _ \<Rightarrow> (''delete'', Some n, NoBody, None)
     | KDeleteCollection _ \<Rightarrow> (''deletecollection'', None, NoBody, None)
     | KPatch n p b \<Rightarrow> (''patch'', Some n, BytesBody b, Some p))"

definition op_of_action :: "('a \<Rightarrow> string) \<Rightarrow> ('a, 'o, 'p) app_action
    \<Rightarrow> (('a, 'o) body \<times> 'p option) api_op" where
  "op_of_action nm x = (case kind_op nm (ka_kind x) of (verb, name, b, p) \<Rightarrow>
     \<lparr>op_verb = verb, op_resource = snd (snd (ka_resource x)), op_namespace = ka_namespace x,
      op_name = name, op_subresource = ka_subresource x, op_object = (b, p)\<rparr>)"

lemmas client_defs = client_get_def client_list_def client_watch_def client_create_def client_update_def
  client_update_status_def client_delete_def client_delete_collection_def client_patch_def new_request_def

text \<open>
  For every call the fake records the operation that the real client asks of the API: verb,
  resource, namespace, name, sub-resource, and the object or patch it carries.
\<close>

lemma fake_mirrors_client:
  assumes "join [] = ''''" "join [''status''] = ''status''"
  shows "op_of_action nm (fake_request join ns c) = op_of_request join (client_request nm ns c)"
  using assms
  by (cases c) (simp_all add: client_defs op_of_action_def op_of_request_def api_verb_def kind_op_def
      app_action_def applicationsResource_def)

lemma fake_mirrors_client_witness:
  "op_of_action id (fake_request concat ''ns'' (CUpdateStatus ''app'' ()))
   = op_of_request concat (client_request id ''ns'' (CUpdateStatus ''app'' () :: (string, unit, unit) client_call))"
  by (rule fake_mirrors_client) simp_all

text \<open>
  The timeout of a list, watch or collection deletion is the one asked for as long as the seconds
  fit in nanoseconds of 64 bits, about 292 years; beyond that the product wraps around.
\<close>

lemma client_timeout_exact:
  "sint (client_timeout (Some n)) = sint n * 1000000000 \<longleftrightarrow> \<bar>sint n\<bar> \<le> 9223372036"
proof -
  have "sint (n * 1000000000) = signed_take_bit 63 (sint n * 1000000000)"
    by (simp add: sint_word_ariths)
  moreover have "signed_take_bit 63 (sint n * 1000000000) = sint n * 1000000000
      \<longleftrightarrow> - (2 ^ 63) \<le> sint n * 1000000000 \<and> sint n * 1000000000 < 2 ^ 63"
    by (rule signed_take_bit_int_eq_self_iff)
  moreover have "x * 1000000000 < 2 ^ 63 \<longleftrightarrow> x \<le> 9223372036" for x :: int
    by (rule iffI; simp; linarith)
  moreover have "- (2 ^ 63) \<le> x * 1000000000 \<longleftrightarrow> - x \<le> 9223372036" for x :: int
    by (rule iffI; simp; linarith)
  ultimately show ?thesis
    unfolding client_timeout_def option.case abs_le_iff by metis
qed

lemma client_timeout_wraps: "sint (client_timeout (Some 9223372037)) < 0"
  by (simp add: client_timeout_def)

section \<open>Making a client\<close>

text \<open>
  A client set is made exactly when the rate can be limited and the three constructors of the
  library succeed; both clients get the same limiter.
\<close>

lemma burst_required:
  "rc_rateLimiter c = None \<Longrightarrow> 0 < rc_qps c \<Longrightarrow> rc_burst c \<le> 0 \<Longrightarrow>
   \<exists>e. NewForConfigAndClient newLimiter agent gv restClient discovery c h = Inl e"
  by (simp add: NewForConfigAndClient_def)

lemma clients_share_limiter:
  assumes "NewForConfigAndClient newLimiter agent gv restClient discovery c h = Inr (v1, d)"
  shows "\<exists>c'. restClient (setConfigDefaults agent gv c') h = Inr v1 \<and> discovery c' h = Inr d
    \<and> rc_rateLimiter c' = (if rc_rateLimiter c = None \<and> rc_qps c > 0
                           then Some (newLimiter (rc_qps c) (rc_burst c)) else rc_rateLimiter c)"
  using assms
  by (auto simp: NewForConfigAndClient_def v1_NewForConfigAndClient_def Let_def split: if_splits sum.splits)

lemma defaults_idempotent:
  "setConfigDefaults agent gv (setConfigDefaults agent gv c) = setConfigDefaults agent gv c"
  by (simp add: setConfigDefaults_def Let_def)

end
