(* ===== verification/Spec2Isabelle.thy ===== *)
theory Spec2Isabelle
  imports Api_Facts Specgen_Facts Reconciler_Facts Ext_Reconciler Wasi_Facts Wasi_Extension
    Docs_Server Testkit Publish Extgen Gen_Env System Startup Tracing Ext_Serve Deep_Copy_Facts
    Informer_Factory Typed_Client
begin

text \<open>
  A verification library of Suffiks, a Kubernetes operator whose \<open>Application\<close> resource is extended at
  run time by independent extensions. An extension is an \<open>Extension\<close> resource: a schema for
  additional properties of the spec, and a controller, which is a gRPC service or a WASI module that
  runs inside the operator. The operator merges the schemas of all extensions into the resource
  definition, hands every extension its part of an application, collects what the extensions want
  changed, and creates the deployment and the service.


  \<^bold>\<open>The parts of the program, and the theories that model them\<close>

  Every definition has the name of the Go function or type it models, or that name in lower case with
  a prefix; the theory says which file it is.

  \<^item> \<open>Prelude\<close>, \<open>Json\<close>: Go errors (\<open>gerr\<close>; a panic is the value \<open>EPanic\<close>), results as sums with the
    error on the left, Go maps as association lists in one iteration order, \<open>strings.Split\<close>, and JSON
    values with their text.
  \<^item> \<open>Specgen\<close>, \<open>Specgen_Facts\<close> (\<open>internal/specgen/generate_spec.go\<close>): \<open>gen_add\<close> and \<open>gen_remove\<close> merge
    and unmerge a schema property by property; \<open>generator\<close> is the struct \<open>Generator\<close> with the schemas
    that were applied. \<open>Specgen_History\<close> has the facts about sequences of these calls.
  \<^item> \<open>Api\<close>, \<open>Api_Facts\<close> (\<open>pkg/api/suffiks/v1\<close>): the resources, the JSON of an application with the
    members of the extensions kept in \<open>as_rest\<close>, its hash, and the webhook that validates extensions.
  \<^item> \<open>Protocol\<close> (\<open>extension/protogen/extension.pb.go\<close>) and \<open>Changeset\<close>
    (\<open>internal/extension/changeset.go\<close>): the messages, and what is collected from them for an object.
  \<^item> \<open>Kube\<close>, \<open>App_Reconciler\<close>, \<open>App_Facts\<close> (\<open>internal/controller/application_reconciler.go\<close>): how an
    application becomes a deployment and a service, over a cluster client \<open>kube\<close> that is a parameter.
  \<^item> \<open>Wasi_Abi\<close>, \<open>Wasi_Runner\<close>, \<open>Wasi_Facts\<close>, \<open>Wasi_Channel\<close>, \<open>Wasi_Extension\<close> (\<open>internal/waruntime\<close>,
    \<open>internal/extension/wasi_extension.go\<close>): byte slices as packed pointers on 64-bit words, error codes,
    permissions; the host functions on the state \<open>runner\<close>; the channel through which responses
    leave a guest, as a step relation; the cache of modules, and the runner that overlapping calls
    share. A guest is a parameter: a tree of host calls (\<open>prog\<close>).
  \<^item> \<open>Ext_Manager\<close>, \<open>Ext_Manager_Facts\<close> (\<open>internal/extension/ext_manager.go\<close>, \<open>grpc_extension.go\<close>): the
    registry of extensions with one schema generator per target kind.
  \<^item> \<open>Ext_Controller\<close>, \<open>Ext_Sync\<close> (\<open>internal/controller/ext_controller.go\<close>): calling the extensions of an
    object. Deletion, defaulting and validation collect their outcomes under a lock and are functions
    of the order in which the goroutines finish; \<open>Sync\<close> shares a changeset and appends errors without
    a lock, and is the step relation \<open>run_step\<close>, one goroutine per extension. \<open>Ext_Sync_One\<close>: with one
    extension it is a function.
  \<^item> \<open>Reconciler\<close>, \<open>Reconciler_Facts\<close> (\<open>reconciler.go\<close>, \<open>reconciler_webhook.go\<close>, \<open>trace_wrapper.go\<close>): the
    reconcile loop around a child reconciler, recording its calls in order, and the webhooks.
  \<^item> \<open>Ext_Reconciler\<close> (\<open>extension_controller.go\<close>): extensions coming and going, and the publication of
    the merged schemas in the resource definitions.
  \<^item> \<open>Operator\<close>, \<open>Startup\<close> (\<open>cmd/suffiks/main.go\<close>): \<open>operator_main\<close> is \<open>main\<close>, a sequence of steps each of which
    may end the process; while it serves, \<open>op_step\<close> lets the reconcilers of extensions and of
    applications take turns over one manager and one cluster. \<open>System\<close> follows an extension from the
    registry to the deployments.
  \<^item> \<open>Docs_Convert\<close>, \<open>Docs\<close>, \<open>Docs_Facts\<close>, \<open>Docs_Server\<close> (\<open>internal/docparser\<close>, \<open>documentationServer\<close> and
    \<open>updateDocs\<close> of \<open>cmd/suffiks/main.go\<close>): the documentation of the extensions, from markdown trees to
    sorted categories, and the server that collects and shows them.
  \<^item> \<open>Sdk\<close>, \<open>Sdk_Facts\<close> (\<open>extension/*.go\<close>, \<open>extension/example\<close>): the kit for writing gRPC extensions, and
    the ingress extension written with it.
  \<^item> \<open>Publish\<close> (\<open>cmd/extgen/wasi/publish.go\<close>, \<open>internal/extension/oci/oci.go\<close>), \<open>Extgen\<close>
    (\<open>cmd/extgen/main.go\<close>), \<open>Ext_Test\<close> (\<open>cmd/extgen/wasi/test_model.go\<close>, \<open>test.go\<close>): the tool of an
    extension's author, which generates resources, publishes modules and runs tests on the operator's
    own controller.
  \<^item> \<open>Testkit\<close> (\<open>extension/testutil\<close>): the kit for testing extensions written in Go, in which the operator's
    controller calls the extension's server. \<open>Gen_Env\<close> (\<open>cmd/dev/gen_wasi_env\<close>): the tool that prints the
    interface of the WASI host.
  \<^item> \<open>Tracing\<close> (\<open>internal/tracing\<close>) and \<open>Ext_Serve\<close> (\<open>Serve\<close> of \<open>extension/server.go\<close>): the tracing provider of a
    process, and the two goroutines in which an extension's gRPC server runs and is stopped, as the
    step relation \<open>serve_step\<close>.
  \<^item> \<open>Go_Store\<close>, \<open>Deep_Copy\<close>, \<open>Deep_Copy_Facts\<close> (\<open>pkg/api/suffiks/v1/zz_generated.deepcopy.go\<close>): memory with
    addresses, slices and pointers, and the deep copies of all resources over it. Elsewhere a resource
    is a value; these theories say why handing on \<open>*(ext.DeepCopy())\<close> is handing on that value.
  \<^item> \<open>Informer_Factory\<close>, \<open>Typed_Client\<close> (\<open>pkg/client\<close>): the client library of applications. The factory of
    shared informers is the step relation \<open>factory_step\<close> over its callers and goroutines; the client is
    the request it sends for every call, next to the action its fake records.


  \<^bold>\<open>How they interact\<close>

  A webhook or a reconcile request reaches \<open>Reconciler\<close>, which calls \<open>Ext_Controller\<close> for the extensions
  and \<open>App_Reconciler\<close> for the cluster. \<open>Ext_Controller\<close> asks \<open>Ext_Manager\<close> which extensions a kind has,
  sends requests of \<open>Protocol\<close>, and fills a \<open>Changeset\<close>. A WASI extension answers through \<open>Wasi_Runner\<close>
  and \<open>Wasi_Channel\<close>, a gRPC extension through \<open>Sdk\<close>. \<open>Ext_Reconciler\<close> changes \<open>Ext_Manager\<close>, whose
  generators are those of \<open>Specgen\<close>. The interfaces are locales: \<open>schema_store\<close> (what the manager relies
  on of a generator), \<open>generator_invariant\<close> (a property of generators that no call destroys, which
  the manager, the reconcilers and the whole process then keep), \<open>extension_registry\<close> (what a manager
  promises about the extensions it calls), \<open>kube_object\<close> (labels and annotations of an object a changeset is applied to) and \<open>status_child\<close> (what
  the reconcile loop needs of a child for its status), \<open>memory_view\<close> (reading a struct depends only on the
  memory it passes) and \<open>deep_copier\<close>, which extends it by what a copy promises. Each is interpreted on
  the definitions above.


  \<^bold>\<open>What the lemmas show\<close>

  \<^item> Schemas: a merge never overrides or loses a property, fails exactly on a conflict, does not depend
    on the order of Go's map, and is undone by removal; what a failed merge leaves behind. After any
    history the base schema and the definitions of every applied extension are still there.
  \<^item> The whole operator: in every run every published schema extends its base, the registries stay
    well-formed, and serving starts with all extensions known; an installed extension shapes the
    deployments, a removed one has no influence.
  \<^item> The concurrent run: every interleaving has the result of adding the messages one by one in some
    order that respects each extension's stream; it always ends; changes of labels and annotations of
    different extensions commute; how errors can be lost.
  \<^item> The reconcile loop: the finalizer goes last and only after everything was deleted; nothing is done
    without it; a failed sync changes nothing; the status records which extensions still have to be
    deleted; and a settled object causes no call.
  \<^item> WASI: byte slices survive the way through the guest's memory, permissions allow exactly what is
    declared, a guest cannot be influenced by resources outside them, messages arrive in order, and
    which of them can be lost at the end of the channel.
  \<^item> The registry: it is current after adding and removing, and after a successful reconciliation the
    published schemas are those of the registry.
  \<^item> Documentation: what is served is the latest answer of every extension, in every interleaving.
  \<^item> Webhooks, requests and JSON: admission is exactly what is documented, a request carries exactly the
    members an extension declares, encoding and decoding agree.
  \<^item> Tools: what is published is what is loaded, a generated resource is admitted under a condition on
    its marker and schema, and the test runner predicts the answers of the webhooks.
  \<^item> Copies and clients: a deep copy reads as the original and shares nothing with it; an extension's
    server returns only when no call is open; an informer is made and run once, and none outlives
    \<open>Shutdown\<close>; the fake client records what the real one asks for.
  \<^item> Where the code does not do what its texts or its callers expect, a lemma states what it does.


  \<^bold>\<open>Bounds and termination\<close>

  All functions are total; the recursive merges end because schemas are finite trees, the walks because
  lists are. The concurrent parts are step relations without fuel. Every step of \<open>Sync\<close> and of the WASI
  channel decreases a measure, so that termination is a theorem; a gRPC server, an operator and an
  informer run until they are stopped, and the theorems say what then is bounded. Ports, timeouts and
  word operations are kept at their width of 32 and 64 bits; other integers are unbounded where the code only compares or prints them. \<open>atoi\<close>
  saturates at \<open>2 ^ 63 - 1\<close>, as \<open>strconv.Atoi\<close> does.


  \<^bold>\<open>Parameters\<close>

  What is not in the repository is an argument: the API server and dynamic clients, the JSON codec of API
  types, merge patches, the WASI engine and its guests, gRPC dialling, registries, content stores and
  archives, markdown parsing, \<open>sort.Sort\<close>, template and package loading, the informers and the deep copies
  of the Kubernetes libraries. Hypotheses on them (\<open>lib_ok\<close>, \<open>sorter_law\<close>, \<open>store_law\<close>, \<open>registry_law\<close>, \<open>guest_law\<close>, \<open>ingress_client_law\<close> and the like) state documented behaviour,
  and each theorem that uses them has a witness with concrete functions.


  \<^bold>\<open>Not modelled\<close>

  \<^item> Generated code without behaviour of its own: protocol reflection, registration of types in schemes.
  \<^item> Of \<open>cmd/suffiks/main.go\<close> and \<open>cmd/extgen/main.go\<close> the flags and options: configuration of libraries.
  \<^item> \<open>job_reconciler.go\<close>: the file is commented out.
  \<^item> Metrics, spans and log lines, which have no effect on the state.
\<close>

section \<open>Properties that span the components\<close>



text \<open>
  C4: An extension that is removed has no say any more: after a successful \<open>Remove\<close>, two worlds that
  differ only in what that extension would answer have the same runs of \<open>Sync\<close>, the same operations
  offered to the reconcile loop, and the same answers of both webhooks, for every object.
\<close>

theorem removed_extension_has_no_say:
  assumes "manager_ok m" "manager_remove mv ext m = (None, m')"
    and "\<forall>kind. mset (exts kind) = mset (extensions_for m' kind)"
    and "\<forall>x. mg_name x \<noteq> ex_name ext \<longrightarrow> same_answers bh bh' x"
  shows "(sync_result conv mmp bh o1 (exts kind) e r \<longleftrightarrow> sync_result conv mmp bh' o1 (exts kind) e r) \<and>
    app_host ac bh exts sync = app_host ac bh' exts sync \<and>
    hook_validate obf bh exts typ newO oldO = hook_validate obf bh' exts typ newO oldO \<and>
    hook_default ch obf bh exts mmp mp ops obj = hook_default ch obf bh' exts mmp mp ops obj"
proof -
  have same: "\<forall>x \<in> set (exts kind). same_answers bh bh' x" for kind
    using removed_is_not_called[OF assms(1,2)] assms(3,4) by blast
  have hosts: "app_host ac bh exts sync = app_host ac bh' exts sync"
    by (simp only: app_host_def controller_delete_def delete_extension_def ctl_delete_same[OF same])
  have checked: "controller_validate bh vt n1 n2 exts = controller_validate bh' vt n1 n2 exts" for vt n1 n2
    using controller_validate_same same by blast
  have hooks: "hook_validate obf bh exts typ newO oldO = hook_validate obf bh' exts typ newO oldO"
    "hook_default ch obf bh exts mmp mp ops obj = hook_default ch obf bh' exts mmp mp ops obj"
    by (simp_all only: hook_validate_def hook_default_def controller_default_same[OF same] checked)
  show ?thesis using sync_result_same[OF same] hosts hooks by blast
qed

theorem removed_extension_has_no_say_witness:
  "let exts = extensions_for (snd (manager_remove ex_menv ex_ingress ex_two))
   in exts ''Application'' = [ex_database] \<and>
      app_host (ex_client ex_site) ex_labelling exts (\<lambda>_. Inl EEOF) = app_host (ex_client ex_site) ex_moody exts (\<lambda>_. Inl EEOF)"
proof -
  have "\<forall>kind. mset (extensions_for (snd (manager_remove ex_menv ex_ingress ex_two)) kind) =
      mset (extensions_for (snd (manager_remove ex_menv ex_ingress ex_two)) kind)" by simp
  from removed_extension_has_no_say[OF ex_two_ok ex_removed this ex_moody_same, THEN conjunct2, THEN conjunct1] ex_remaining
  show ?thesis unfolding Let_def by blast
qed

end
